theory Spec2Isabelle
  imports Complex_Main
begin

section \<open>Conventions of the embedding\<close>

text \<open>
  The development embeds the two translation units of the solver,
  \<^verbatim>\<open>physical_quantities.cc\<close> and \<^verbatim>\<open>currents_and_heating.cc\<close>.

  \<^item> A C++ \<^verbatim>\<open>double\<close> is a \<^typ>\<open>real\<close>. The coefficients and the assembled sums of
    the solver are followed in exact arithmetic: rounding, infinities and NaN are not
    represented there, and decimal literals are the rationals they denote. The two
    interpolation routines whose results are compared with stored numbers are also given
    over rounded arithmetic (see \<open>binary64\<close> below).
  \<^item> A \<^verbatim>\<open>std::vector\<close> is a list, an iterator into it is an index (\<^typ>\<open>nat\<close>).
  \<^item> Behaviour the language leaves undefined (reading \<^verbatim>\<open>data[0]\<close> of an empty vector,
    dereferencing \<^verbatim>\<open>begin() - 1\<close> or \<^verbatim>\<open>end()\<close>) and a failed \<^verbatim>\<open>assert\<close> are results
    of their own: \<open>None\<close>, respectively \<open>Inl\<close> of an error.
  \<^item> Unsigned cell and face numbers are natural numbers.
\<close>

section \<open>Tabulated physical quantities\<close>

subsection \<open>Binary search\<close>

text \<open>
  \<^verbatim>\<open>std::lower_bound(data.begin(), data.end(), std::make_pair(x, 0.0), pair_comp)\<close>
  with \<^verbatim>\<open>pair_comp(lhs, rhs) = lhs.first < rhs.first\<close>: the halving loop of the
  standard library on the range of \<open>len\<close> elements that starts at index \<open>first\<close>.
\<close>

function lower_bound_from :: "(real \<times> real) list \<Rightarrow> real \<Rightarrow> nat \<Rightarrow> nat \<Rightarrow> nat" where
  "lower_bound_from data x first len =
     (if len = 0 then first
      else let half = len div 2; middle = first + half
           in if fst (data ! middle) < x
              then lower_bound_from data x (middle + 1) (len - half - 1)
              else lower_bound_from data x first half)"
  by pat_completeness auto
termination
  by (relation "measure (\<lambda>(data, x, first, len). len)") auto

declare lower_bound_from.simps [simp del]

definition lower_bound :: "(real \<times> real) list \<Rightarrow> real \<Rightarrow> nat" where
  "lower_bound data x = lower_bound_from data x 0 (length data)"

subsection \<open>Piecewise linear interpolation\<close>

text \<open>\<^verbatim>\<open>PhysicalQuantities::linear_interp\<close>, in exact arithmetic.\<close>

definition linear_interp :: "real \<Rightarrow> (real \<times> real) list \<Rightarrow> real option" where
  "linear_interp x data =
     (if data = [] then None
      else if x \<le> fst (data ! 0) then Some (snd (data ! 0))
      else if x \<ge> fst (last data) then Some (snd (last data))
      else let it1 = lower_bound data x
           in if it1 = 0 \<or> it1 \<ge> length data then None
              else let it2 = it1 - 1
                   in Some (snd (data ! it2)
                            + (snd (data ! it1) - snd (data ! it2)) * (x - fst (data ! it2))
                              / (fst (data ! it1) - fst (data ! it2))))"

subsection \<open>Double arithmetic\<close>

text \<open>
  Where a result depends on how a \<^verbatim>\<open>double\<close> operation rounds, the four operations and
  the conversion of a decimal literal are a parameter. \<open>exact_arith\<close> computes in the reals.
  \<open>binary64\<close> rounds the exact result of every single operation to the nearest number with a
  53-bit significand, ties to the even significand, with the fixed spacing \<open>2\<^sup>-\<^sup>1\<^sup>0\<^sup>7\<^sup>4\<close> below
  \<open>2\<^sup>-\<^sup>1\<^sup>0\<^sup>2\<^sup>2\<close>; overflow to infinity and not-a-number are not represented. Comparisons
  are exact in both. \<open>binade n x\<close> is the binary exponent of a positive \<open>x\<close>, found by at most
  \<open>n\<close> halvings or doublings; 1100 steps reach every exponent a \<^verbatim>\<open>double\<close> can have.
\<close>

record arith =
  fadd :: "real \<Rightarrow> real \<Rightarrow> real"
  fsub :: "real \<Rightarrow> real \<Rightarrow> real"
  fmul :: "real \<Rightarrow> real \<Rightarrow> real"
  fdiv :: "real \<Rightarrow> real \<Rightarrow> real"
  fconst :: "real \<Rightarrow> real"

definition exact_arith :: arith where
  "exact_arith = \<lparr>fadd = (+), fsub = (-), fmul = (*), fdiv = (/), fconst = (\<lambda>x. x)\<rparr>"

primrec binade :: "nat \<Rightarrow> real \<Rightarrow> int" where
  "binade 0 x = 0"
| "binade (Suc n) x =
     (if 2 \<le> x then binade n (x / 2) + 1
      else if 0 < x \<and> x < 1 then binade n (x * 2) - 1
      else 0)"

definition pow2 :: "int \<Rightarrow> real" where
  "pow2 e = (if 0 \<le> e then 2 ^ nat e else 1 / 2 ^ nat (- e))"

definition round_double :: "real \<Rightarrow> real" where
  "round_double x =
     (let ulp = pow2 (max (binade 1100 \<bar>x\<bar>) (- 1022) - 52);
          q = x / ulp;
          n = \<lfloor>q\<rfloor>;
          r = q - of_int n
      in (if r < 1 / 2 then of_int n
          else if 1 / 2 < r then of_int (n + 1)
          else if even n then of_int n
          else of_int (n + 1)) * ulp)"

definition binary64 :: arith where
  "binary64 =
     \<lparr>fadd = (\<lambda>a b. round_double (a + b)), fsub = (\<lambda>a b. round_double (a - b)),
      fmul = (\<lambda>a b. round_double (a * b)), fdiv = (\<lambda>a b. round_double (a / b)),
      fconst = round_double\<rparr>"

text \<open>
  \<^verbatim>\<open>PhysicalQuantities::linear_interp\<close> once more, with the arithmetic of its last line as
  a parameter: \<^verbatim>\<open>it2->second + (it1->second - it2->second) * (x - it2->first) / (it1->first - it2->first)\<close>
  is two subtractions, their product, a third subtraction, the quotient and the sum, each
  rounded on its own.
\<close>

definition linear_interp_in :: "arith \<Rightarrow> real \<Rightarrow> (real \<times> real) list \<Rightarrow> real option" where
  "linear_interp_in ar x data =
     (if data = [] then None
      else if x \<le> fst (data ! 0) then Some (snd (data ! 0))
      else if x \<ge> fst (last data) then Some (snd (last data))
      else let it1 = lower_bound data x
           in if it1 = 0 \<or> it1 \<ge> length data then None
              else let it2 = it1 - 1
                   in Some (fadd ar (snd (data ! it2))
                              (fdiv ar (fmul ar (fsub ar (snd (data ! it1)) (snd (data ! it2)))
                                                (fsub ar x (fst (data ! it2))))
                                       (fsub ar (fst (data ! it1)) (fst (data ! it2))))))"

text \<open>
  \<^verbatim>\<open>PhysicalQuantities::evaluate_derivative\<close>; the iterator \<open>it\<close> is an index. Reading
  \<^verbatim>\<open>it + 1\<close> in a one-element vector or dereferencing \<^verbatim>\<open>end()\<close> is undefined.
\<close>

definition evaluate_derivative :: "arith \<Rightarrow> (real \<times> real) list \<Rightarrow> nat \<Rightarrow> real option" where
  "evaluate_derivative ar data it =
     (if it \<ge> length data then None
      else if it = 0 then
        (if length data < 2 then None
         else Some (fdiv ar (fsub ar (snd (data ! (it + 1))) (snd (data ! it)))
                            (fsub ar (fst (data ! (it + 1))) (fst (data ! it)))))
      else if it = length data - 1 then
        Some (fdiv ar (fsub ar (snd (data ! it)) (snd (data ! (it - 1))))
                      (fsub ar (fst (data ! it)) (fst (data ! (it - 1)))))
      else Some (fdiv ar (fsub ar (snd (data ! (it + 1))) (snd (data ! (it - 1))))
                         (fsub ar (fst (data ! (it + 1))) (fst (data ! (it - 1))))))"

text \<open>
  The first five lines of \<^verbatim>\<open>PhysicalQuantities::deriv_linear_interp\<close>: the two
  assignments that move \<open>x\<close> into the table, with the literal \<^verbatim>\<open>eps = 1e-10\<close>. They read
  the first and the last sample; \<open>deriv_linear_interp\<close> below reaches them with a non-empty
  table only.
\<close>

definition deriv_eps :: "arith \<Rightarrow> real" where
  "deriv_eps ar = fconst ar (1 / 10 ^ 10)"

definition deriv_clamp :: "arith \<Rightarrow> real \<Rightarrow> (real \<times> real) list \<Rightarrow> real" where
  "deriv_clamp ar x data =
     (let x1 = (if x \<le> fst (data ! 0) then fadd ar (fst (data ! 0)) (deriv_eps ar) else x)
      in if x1 \<ge> fst (last data) then fst (last data) else x1)"

text \<open>\<^verbatim>\<open>PhysicalQuantities::deriv_linear_interp\<close>.\<close>

definition deriv_linear_interp :: "arith \<Rightarrow> real \<Rightarrow> (real \<times> real) list \<Rightarrow> real option" where
  "deriv_linear_interp ar x0 data =
     (if data = [] then None
      else let x = deriv_clamp ar x0 data;
               it = lower_bound data x
           in if it = 0 \<or> it \<ge> length data then None
              else let itp = it - 1
                   in case (evaluate_derivative ar data it, evaluate_derivative ar data itp) of
                        (Some dit, Some ditp) \<Rightarrow>
                          Some (fadd ar ditp
                                  (fdiv ar (fmul ar (fsub ar dit ditp) (fsub ar x (fst (data ! itp))))
                                           (fsub ar (fst (data ! it)) (fst (data ! itp)))))
                      | _ \<Rightarrow> None)"

subsection \<open>Derived material functions\<close>

text \<open>
  The members of \<^verbatim>\<open>PhysicalQuantities\<close> that the solver reads. The class declaration and
  the grid type are not part of the sources at hand, so the two grid look-ups
  \<^verbatim>\<open>emission_current(field, temperature)\<close> and \<^verbatim>\<open>nottingham_de(field, temperature)\<close>
  are carried as functions; the resistivity table is the vector of pairs that
  \<^verbatim>\<open>load_resistivity_data\<close> fills.
\<close>

record physical_quantities =
  resistivity_data :: "(real \<times> real) list"
  emission_current :: "real \<Rightarrow> real \<Rightarrow> real"
  nottingham_de :: "real \<Rightarrow> real \<Rightarrow> real"

definition evaluate_resistivity :: "physical_quantities \<Rightarrow> real \<Rightarrow> real option" where
  "evaluate_resistivity pq temperature =
     map_option (\<lambda>y. y * 10 ^ 9) (linear_interp temperature (resistivity_data pq))"

text \<open>
  The two guarded assignments at the head of \<^verbatim>\<open>sigma\<close>, \<^verbatim>\<open>dsigma\<close>, \<^verbatim>\<open>kappa\<close> and
  \<^verbatim>\<open>dkappa\<close>.
\<close>

definition clamp_temperature :: "real \<Rightarrow> real" where
  "clamp_temperature temperature =
     (let t1 = (if temperature < 200 then 200 else temperature)
      in if t1 > 1400 then 1400 else t1)"

definition sigma :: "physical_quantities \<Rightarrow> real \<Rightarrow> real option" where
  "sigma pq temperature =
     (let t = clamp_temperature temperature
      in case evaluate_resistivity pq t of
           None \<Rightarrow> None
         | Some rho \<Rightarrow> Some (1 / rho))"

definition lorentz :: real where
  "lorentz = 2443 / 10 ^ 11"

definition kappa :: "physical_quantities \<Rightarrow> real \<Rightarrow> real option" where
  "kappa pq temperature =
     (let t = clamp_temperature temperature
      in case sigma pq t of
           None \<Rightarrow> None
         | Some s \<Rightarrow> Some (lorentz * t * s))"


section \<open>The coupled solver\<close>

subsection \<open>Points, tensors, vectors and matrices\<close>

text \<open>
  \<^verbatim>\<open>Point<dim>\<close> and \<^verbatim>\<open>Tensor<1, dim>\<close> are lists of \<open>dim\<close> coordinates, a
  \<^verbatim>\<open>Vector<double>\<close> is the list of its entries. A matrix is the function from a pair of
  indices to the entry; the sparsity pattern is not represented. \<open>distance\<close>,
  \<open>norm_square\<close>, \<open>tensor_norm\<close>, \<open>scale\<close> and \<open>dot\<close> are the library's
  \<^verbatim>\<open>Point::distance\<close>, \<^verbatim>\<open>Tensor::norm_square\<close>, \<^verbatim>\<open>Tensor::norm\<close>, the product of a
  number with a tensor and the product of two tensors of rank one.
\<close>

type_synonym point = "real list"
type_synonym tensor1 = "real list"
type_synonym vector = "real list"
type_synonym matrix = "nat \<Rightarrow> nat \<Rightarrow> real"

definition distance :: "point \<Rightarrow> point \<Rightarrow> real" where
  "distance p q = sqrt (sum_list (map (\<lambda>(a, b). (a - b) * (a - b)) (zip p q)))"

definition norm_square :: "tensor1 \<Rightarrow> real" where
  "norm_square t = sum_list (map (\<lambda>a. a * a) t)"

definition tensor_norm :: "tensor1 \<Rightarrow> real" where
  "tensor_norm t = sqrt (norm_square t)"

definition scale :: "real \<Rightarrow> tensor1 \<Rightarrow> tensor1" where
  "scale a t = map (\<lambda>x. a * x) t"

definition dot :: "tensor1 \<Rightarrow> tensor1 \<Rightarrow> real" where
  "dot s t = sum_list (map (\<lambda>(a, b). a * b) (zip s t))"

definition add_entry :: "matrix \<Rightarrow> nat \<Rightarrow> nat \<Rightarrow> real \<Rightarrow> matrix" where
  "add_entry m i j v = m(i := (m i)(j := m i j + v))"

datatype error = AssertionFailed | UndefinedBehaviour

text \<open>\<^verbatim>\<open>v(i) += x\<close> on a \<^verbatim>\<open>Vector<double>\<close>; an index beyond the size is not defined.\<close>

definition vector_add :: "vector \<Rightarrow> nat \<Rightarrow> real \<Rightarrow> error + vector" where
  "vector_add v i x = (if i < length v then Inr (v[i := v ! i + x]) else Inl UndefinedBehaviour)"

text \<open>A loop whose body may fail: the first failure ends it.\<close>

primrec foldE :: "('a \<Rightarrow> 's \<Rightarrow> error + 's) \<Rightarrow> 'a list \<Rightarrow> 's \<Rightarrow> error + 's" where
  "foldE f [] s = Inr s"
| "foldE f (x # xs) s = (case f x s of Inl e \<Rightarrow> Inl e | Inr s' \<Rightarrow> foldE f xs s')"

subsection \<open>The mesh and the finite-element data\<close>

text \<open>
  The enumerators of \<^verbatim>\<open>BoundaryId\<close> are declared in a header that is not part of the
  sources at hand; the two that the solver names are constructors here, every other
  indicator (that of an interior face among them) is \<open>other_boundary\<close>.
\<close>

datatype boundary_id = copper_surface | copper_bottom | other_boundary nat

text \<open>
  What the library hands out for one face of a cell: \<^verbatim>\<open>at_boundary()\<close>,
  \<^verbatim>\<open>boundary_id()\<close>, \<^verbatim>\<open>center()\<close>, and the values of the two \<^verbatim>\<open>FEFaceValues\<close> objects
  after \<^verbatim>\<open>reinit(cell, f)\<close> (shape value \<open>i\<close> at face quadrature point \<open>q\<close>, the weight
  \<^verbatim>\<open>JxW(q)\<close>, and \<^verbatim>\<open>get_function_values\<close> of a temperature vector).
\<close>

record face =
  at_boundary :: bool
  boundary_id :: boundary_id
  center :: point
  current_face_shape_value :: "nat \<Rightarrow> nat \<Rightarrow> real"
  current_face_JxW :: "nat \<Rightarrow> real"
  heat_face_shape_value :: "nat \<Rightarrow> nat \<Rightarrow> real"
  heat_face_JxW :: "nat \<Rightarrow> real"
  heat_face_function_values :: "vector \<Rightarrow> nat \<Rightarrow> real"

text \<open>
  One active cell, as both degree-of-freedom handlers see it (they walk the same
  triangulation in step): \<^verbatim>\<open>index()\<close>, the faces \<open>0 .. faces_per_cell - 1\<close>,
  \<^verbatim>\<open>get_dof_indices\<close> for either handler (\<open>dofs_per_cell\<close> numbers each), and the
  values of the \<^verbatim>\<open>FEValues\<close> objects after \<^verbatim>\<open>reinit(cell)\<close>: shape value and shape
  gradient \<open>i\<close> at quadrature point \<open>q\<close>, the weight \<^verbatim>\<open>JxW(q)\<close>, and what
  \<^verbatim>\<open>get_function_values\<close> and \<^verbatim>\<open>get_function_gradients\<close> read off a vector.
\<close>

record cell =
  cell_index :: nat
  faces :: "face list"
  current_dof_indices :: "nat list"
  heat_dof_indices :: "nat list"
  current_shape_grad :: "nat \<Rightarrow> nat \<Rightarrow> tensor1"
  current_JxW :: "nat \<Rightarrow> real"
  current_function_gradients :: "vector \<Rightarrow> nat \<Rightarrow> tensor1"
  heat_shape_value :: "nat \<Rightarrow> nat \<Rightarrow> real"
  heat_shape_grad :: "nat \<Rightarrow> nat \<Rightarrow> tensor1"
  heat_JxW :: "nat \<Rightarrow> real"
  heat_function_values :: "vector \<Rightarrow> nat \<Rightarrow> real"
  heat_function_gradients :: "vector \<Rightarrow> nat \<Rightarrow> tensor1"

text \<open>
  The triangulation with its two handlers: the active cells in iteration order, the sizes
  the finite elements and quadrature rules report, and the degrees of freedom that
  \<^verbatim>\<open>interpolate_boundary_values\<close> finds on \<^verbatim>\<open>copper_bottom\<close>.
\<close>

record mesh =
  cells :: "cell list"
  current_dofs_per_cell :: nat
  heat_dofs_per_cell :: nat
  n_q_points :: nat
  n_face_q_points :: nat
  current_n_dofs :: nat
  heat_n_dofs :: nat
  current_bottom_dofs :: "nat list"
  heat_bottom_dofs :: "nat list"

text \<open>
  The vacuum side, \<^verbatim>\<open>Laplace<dim>\<close>: per cell and face the boundary indicator, the face
  centre, and the gradient of \<^verbatim>\<open>laplace.solution\<close> at the single face quadrature point.
\<close>

record vacuum_face =
  vacuum_boundary_id :: boundary_id
  vacuum_center :: point
  vacuum_solution_gradient :: tensor1

record laplace =
  vacuum_cells :: "vacuum_face list list"

subsection \<open>Library services\<close>

text \<open>
  The conjugate-gradient solver and the elimination of Dirichlet values belong to the
  finite-element library. They are parameters: \<open>solver_cg\<close> receives the control
  (\<^verbatim>\<open>SolverControl(max_iter, tol)\<close>), the preconditioner, matrix, start vector and right-hand
  side; it gives back the vector it leaves in place of the start vector and either the
  exception it raises or \<^verbatim>\<open>solver_control.last_step()\<close>. \<open>apply_boundary_values\<close> receives
  the boundary values, matrix, solution and right-hand side and gives back the latter three.
\<close>

record solver_control =
  max_steps :: nat
  tolerance :: real

datatype preconditioner = PreconditionSSOR matrix real | PreconditionIdentity

datatype solver_exception = NoConvergence nat real | ExcDivideByZero

record dealii =
  solver_cg :: "solver_control \<Rightarrow> preconditioner \<Rightarrow> matrix \<Rightarrow> vector \<Rightarrow> vector
                \<Rightarrow> vector \<times> (solver_exception + nat)"
  apply_boundary_values :: "(nat \<times> real) list \<Rightarrow> matrix \<Rightarrow> vector \<Rightarrow> vector
                \<Rightarrow> matrix \<times> vector \<times> vector"

subsection \<open>The library's conjugate-gradient solver\<close>

text \<open>
  One instance of \<open>solver_cg\<close> follows the finite-element library's own
  \<^verbatim>\<open>SolverControl::check\<close> and \<^verbatim>\<open>SolverCG::solve\<close> (version 8.5, which the header of the
  solver cites), in exact arithmetic; it is library code and not part of the sources at hand.

  \<^verbatim>\<open>check(step, check_value)\<close> records the step as \<^verbatim>\<open>last_step()\<close> and answers
  \<^verbatim>\<open>success\<close> when the value is at most the tolerance, \<^verbatim>\<open>failure\<close> when the step has
  reached \<^verbatim>\<open>max_steps\<close>, and \<^verbatim>\<open>iterate\<close> otherwise.
\<close>

datatype solver_state = iterate | success | failure

definition control_check :: "solver_control \<Rightarrow> nat \<Rightarrow> real \<Rightarrow> solver_state" where
  "control_check control step check_value =
     (if check_value \<le> tolerance control then success
      else if step \<ge> max_steps control then failure
      else iterate)"

text \<open>
  \<^verbatim>\<open>A.vmult(dst, src)\<close>, \<^verbatim>\<open>v.l2_norm()\<close>, \<^verbatim>\<open>v.add(a, w)\<close> (\<open>v + a w\<close>) and
  \<^verbatim>\<open>v.sadd(s, a, w)\<close> (\<open>s v + a w\<close>) on vectors of the size of the start vector.
\<close>

definition vmult :: "matrix \<Rightarrow> vector \<Rightarrow> vector" where
  "vmult m v = map (\<lambda>i. \<Sum>j<length v. m i j * v ! j) [0..<length v]"

definition l2_norm :: "vector \<Rightarrow> real" where
  "l2_norm v = sqrt (sum_list (map (\<lambda>a. a * a) v))"

definition vector_sadd :: "real \<Rightarrow> vector \<Rightarrow> real \<Rightarrow> vector \<Rightarrow> vector" where
  "vector_sadd s v a w = map (\<lambda>(x, y). s * x + a * y) (zip v w)"

text \<open>
  The loop of \<^verbatim>\<open>SolverCG::solve\<close> from step \<open>it\<close> on, with the iterate \<open>x\<close>, the
  gradient \<open>g = A x - b\<close>, the search direction \<open>d\<close> and the number \<open>gh\<close>. A step computes
  \<open>h = A d\<close> and \<open>alpha = gh / (d \<cdot> h)\<close>, updates \<open>g\<close> and \<open>x\<close>, and asks the control with
  the norm of \<open>g\<close>: on \<^verbatim>\<open>success\<close> the solve returns, on \<^verbatim>\<open>failure\<close> it raises
  \<^verbatim>\<open>SolverControl::NoConvergence(it, res)\<close>, on \<^verbatim>\<open>iterate\<close> it computes the next
  direction and goes on. A division by zero, which the library asserts against with
  \<^verbatim>\<open>ExcDivideByZero\<close> and which has no value in exact arithmetic, ends the solve with
  that exception. The preconditioner's \<^verbatim>\<open>vmult\<close> is \<open>ssor\<close> for
  \<^verbatim>\<open>PreconditionSSOR\<close> and is not called for \<^verbatim>\<open>PreconditionIdentity\<close>.
\<close>

function cg_loop ::
  "(matrix \<Rightarrow> real \<Rightarrow> vector \<Rightarrow> vector) \<Rightarrow> solver_control \<Rightarrow> preconditioner \<Rightarrow> matrix
   \<Rightarrow> nat \<Rightarrow> vector \<Rightarrow> vector \<Rightarrow> vector \<Rightarrow> real \<Rightarrow> vector \<times> (solver_exception + nat)" where
  "cg_loop ssor control pc m it x g d gh =
     (let h = vmult m d;
          alpha = dot d h
      in if alpha = 0 then (x, Inl ExcDivideByZero)
         else let alpha1 = gh / alpha;
                  g1 = vector_sadd 1 g alpha1 h;
                  x1 = vector_sadd 1 x alpha1 d;
                  res = l2_norm g1
              in if control_check control (it + 1) res = success then (x1, Inr (it + 1))
                 else if control_check control (it + 1) res = failure
                   then (x1, Inl (NoConvergence (it + 1) res))
                 else if gh = 0 then (x1, Inl ExcDivideByZero)
                 else (case pc of
                         PreconditionIdentity \<Rightarrow>
                           cg_loop ssor control pc m (it + 1) x1 g1
                             (vector_sadd (res * res / gh) d (- 1) g1) (res * res)
                       | PreconditionSSOR pm omega \<Rightarrow>
                           cg_loop ssor control pc m (it + 1) x1 g1
                             (vector_sadd (dot g1 (ssor pm omega g1) / gh) d (- 1) (ssor pm omega g1))
                             (dot g1 (ssor pm omega g1))))"
  by pat_completeness auto
termination
  by (relation "measure (\<lambda>(ssor, control, pc, m, it, x, g, d, gh). max_steps control - it)")
     (auto simp: control_check_def split: if_splits)

declare cg_loop.simps [simp del]

text \<open>
  \<^verbatim>\<open>SolverCG::solve(A, x, b, precondition)\<close>: the gradient of the start vector (\<open>- b\<close> for a
  zero start vector), the question to the control at step 0, where any answer but
  \<^verbatim>\<open>iterate\<close> ends the solve without an exception, the first direction, and the loop.
\<close>

definition dealii_solver_cg ::
  "(matrix \<Rightarrow> real \<Rightarrow> vector \<Rightarrow> vector) \<Rightarrow> solver_control \<Rightarrow> preconditioner \<Rightarrow> matrix
   \<Rightarrow> vector \<Rightarrow> vector \<Rightarrow> vector \<times> (solver_exception + nat)" where
  "dealii_solver_cg ssor control pc m x b =
     (let g = (if list_all (\<lambda>a. a = 0) x then map uminus b
               else vector_sadd 1 (vmult m x) (- 1) b);
          res = l2_norm g
      in if control_check control 0 res \<noteq> iterate then (x, Inr 0)
         else (case pc of
                 PreconditionIdentity \<Rightarrow>
                   cg_loop ssor control pc m 0 x g (map uminus g) (res * res)
               | PreconditionSSOR pm omega \<Rightarrow>
                   cg_loop ssor control pc m 0 x g (map uminus (ssor pm omega g))
                           (dot g (ssor pm omega g))))"

subsection \<open>The solver object\<close>

text \<open>
  A \<^verbatim>\<open>std::map<std::pair<unsigned, unsigned>, double>\<close> is the list of its entries, with
  pairwise different keys; the order of the list is the order of insertion and is never
  read. \<^verbatim>\<open>insert\<close> leaves the map alone when the key is present.
\<close>

type_synonym face_id = "nat \<times> nat"
type_synonym face_map = "(face_id \<times> real) list"

definition map_insert :: "face_id \<times> real \<Rightarrow> face_map \<Rightarrow> face_map" where
  "map_insert kv m = (if map_of m (fst kv) = None then m @ [kv] else m)"

definition map_count :: "face_map \<Rightarrow> face_id \<Rightarrow> nat" where
  "map_count m k = (if map_of m k = None then 0 else 1)"

text \<open>The data members of \<^verbatim>\<open>CurrentsAndHeating<dim>\<close>; \<open>pq\<close> is a pointer that may be null.\<close>

record state =
  time_step :: real
  uniform_efield_bc :: real
  system_matrix_current :: matrix
  system_rhs_current :: vector
  solution_current :: vector
  old_solution_current :: vector
  system_matrix_heat :: matrix
  system_rhs_heat :: vector
  solution_heat :: vector
  old_solution_heat :: vector
  const_temperature_solution :: vector
  pq :: "physical_quantities option"
  interface_map_field :: face_map
  interface_map_emission_current :: face_map
  interface_map_nottingham :: face_map

definition ambient_temperature :: real where
  "ambient_temperature = 300"

definition cu_rho_cp :: real where
  "cu_rho_cp = 34496 / 10 ^ 25"

subsection \<open>Set-up\<close>

text \<open>\<^verbatim>\<open>setup_current_system\<close>; \<open>current_n_dofs\<close> is \<^verbatim>\<open>dof_handler_current.n_dofs()\<close>.\<close>

definition setup_current_system :: "mesh \<Rightarrow> state \<Rightarrow> state" where
  "setup_current_system msh st =
     (let n = current_n_dofs msh;
          st1 = st\<lparr>system_matrix_current := (\<lambda>i j. 0),
                   solution_current := replicate n 0,
                   old_solution_current := replicate n 0,
                   system_rhs_current := replicate n 0\<rparr>
      in fold (\<lambda>i s. s\<lparr>solution_current := (solution_current s)[i := 0],
                         old_solution_current := (old_solution_current s)[i := 0]\<rparr>)
              [0..<length (solution_current st1)] st1)"

text \<open>\<^verbatim>\<open>setup_heating_system\<close>.\<close>

definition setup_heating_system :: "mesh \<Rightarrow> state \<Rightarrow> state" where
  "setup_heating_system msh st =
     (let n = heat_n_dofs msh;
          st1 = st\<lparr>system_matrix_heat := (\<lambda>i j. 0),
                   solution_heat := replicate n 0,
                   old_solution_heat := replicate n 0,
                   system_rhs_heat := replicate n 0,
                   const_temperature_solution := replicate n 0\<rparr>
      in fold (\<lambda>i s. s\<lparr>solution_heat := (solution_heat s)[i := ambient_temperature],
                         old_solution_heat := (old_solution_heat s)[i := ambient_temperature],
                         const_temperature_solution := (const_temperature_solution s)[i := 1000]\<rparr>)
              [0..<length (solution_heat st1)] st1)"

subsection \<open>Boundary data on the interface\<close>

text \<open>
  The loop nest shared by \<^verbatim>\<open>get_surface_nodes\<close> and the setters,
  \<^verbatim>\<open>for (cell ...) for (f = 0; f < faces_per_cell; ++f) if (cell->face(f)->boundary_id() == BoundaryId::copper_surface) ...\<close>,
  with the loop body as a parameter.
\<close>

definition for_interface_faces :: "(cell \<Rightarrow> nat \<Rightarrow> 's \<Rightarrow> 's) \<Rightarrow> mesh \<Rightarrow> 's \<Rightarrow> 's" where
  "for_interface_faces body msh s =
     fold (\<lambda>c. fold (\<lambda>f s. if boundary_id (faces c ! f) = copper_surface then body c f s else s)
                     [0..<length (faces c)])
          (cells msh) s"

text \<open>\<^verbatim>\<open>get_surface_nodes\<close>: the centres, appended in the order of the loop nest.\<close>

definition get_surface_nodes :: "mesh \<Rightarrow> point list" where
  "get_surface_nodes msh =
     for_interface_faces (\<lambda>c f nodes. nodes @ [center (faces c ! f)]) msh []"

text \<open>
  \<^verbatim>\<open>set_electric_field_bc(const std::vector<double>&)\<close>. The loop carries the map and the
  counter \<open>i\<close>; reading \<^verbatim>\<open>elfields[i]\<close> beyond the vector is not defined.
\<close>

definition set_electric_field_bc_values :: "mesh \<Rightarrow> state \<Rightarrow> real list \<Rightarrow> error + state" where
  "set_electric_field_bc_values msh st elfields =
     (case for_interface_faces
             (\<lambda>c f r. case r of
                  Inl e \<Rightarrow> Inl e
                | Inr (m, i) \<Rightarrow>
                    if i < length elfields
                    then Inr (map_insert ((cell_index c, f), elfields ! i) m, i + 1)
                    else Inl UndefinedBehaviour)
             msh (Inr ([], 0 :: nat)) of
        Inl e \<Rightarrow> Inl e
      | Inr (m, i) \<Rightarrow> Inr (st\<lparr>interface_map_field := m\<rparr>))"

text \<open>\<^verbatim>\<open>set_electric_field_bc(const double)\<close>.\<close>

definition set_electric_field_bc_uniform :: "state \<Rightarrow> real \<Rightarrow> state" where
  "set_electric_field_bc_uniform st uniform_efield = st\<lparr>uniform_efield_bc := uniform_efield\<rparr>"

text \<open>\<^verbatim>\<open>set_emission_bc\<close>.\<close>

definition set_emission_bc :: "mesh \<Rightarrow> state \<Rightarrow> real list \<Rightarrow> real list \<Rightarrow> error + state" where
  "set_emission_bc msh st emission_currents nottingham_heats =
     (case for_interface_faces
             (\<lambda>c f r. case r of
                  Inl e \<Rightarrow> Inl e
                | Inr (mc, mn, i) \<Rightarrow>
                    if i < length emission_currents \<and> i < length nottingham_heats
                    then Inr (map_insert ((cell_index c, f), emission_currents ! i) mc,
                              map_insert ((cell_index c, f), nottingham_heats ! i) mn, i + 1)
                    else Inl UndefinedBehaviour)
             msh (Inr ([], [], 0 :: nat)) of
        Inl e \<Rightarrow> Inl e
      | Inr (mc, mn, i) \<Rightarrow>
          Inr (st\<lparr>interface_map_emission_current := mc, interface_map_nottingham := mn\<rparr>))"

text \<open>
  \<^verbatim>\<open>set_electric_field_bc(const Laplace<dim>&)\<close>. The first loop collects, for every
  vacuum face marked \<^verbatim>\<open>copper_surface\<close>, the field norm and the centre. The second loop
  looks, for every interface face of the conductor, for the first collected centre closer
  than \<^verbatim>\<open>eps = 1e-9\<close>, inserts its field and leaves the search; when the face has no entry
  afterwards, a line goes to \<^verbatim>\<open>std::cerr\<close>. The second loop carries the map and the
  lines written so far; the lines are returned next to the new state.
\<close>

definition match_eps :: real where
  "match_eps = 1 / 10 ^ 9"

definition mismatch_message :: string where
  "mismatch_message = ''Error: probably a mismatch between copper and vacuum meshes.''"

definition vacuum_interface :: "laplace \<Rightarrow> (real \<times> point) list" where
  "vacuum_interface lap =
     fold (\<lambda>vac_cell. fold (\<lambda>f acc.
              if vacuum_boundary_id (vac_cell ! f) = copper_surface
              then acc @ [(tensor_norm (vacuum_solution_gradient (vac_cell ! f)),
                           vacuum_center (vac_cell ! f))]
              else acc) [0..<length vac_cell])
          (vacuum_cells lap) []"

definition vacuum_interface_efield :: "laplace \<Rightarrow> real list" where
  "vacuum_interface_efield lap = map fst (vacuum_interface lap)"

definition vacuum_interface_centers :: "laplace \<Rightarrow> point list" where
  "vacuum_interface_centers lap = map snd (vacuum_interface lap)"

text \<open>
  The inner search loop from index \<open>i\<close> on: the index of the first centre within the
  tolerance, if there is one.
\<close>

function first_within :: "point \<Rightarrow> point list \<Rightarrow> nat \<Rightarrow> nat option" where
  "first_within p centers i =
     (if i < length centers
      then if distance p (centers ! i) < match_eps then Some i
           else first_within p centers (i + 1)
      else None)"
  by pat_completeness auto
termination
  by (relation "measure (\<lambda>(p, centers, i). length centers - i)") auto

declare first_within.simps [simp del]

definition match_copper_face ::
  "point list \<Rightarrow> real list \<Rightarrow> cell \<Rightarrow> nat \<Rightarrow> face_map \<times> string list
   \<Rightarrow> face_map \<times> string list" where
  "match_copper_face vacuum_centers vacuum_efield c f acc =
     (let cop_face_center = center (faces c ! f);
          cop_face_info = (cell_index c, f);
          m = (case first_within cop_face_center vacuum_centers 0 of
                 Some i \<Rightarrow> map_insert (cop_face_info, vacuum_efield ! i) (fst acc)
               | None \<Rightarrow> fst acc)
      in if map_count m cop_face_info = 0
         then (m, snd acc @ [mismatch_message])
         else (m, snd acc))"

definition set_electric_field_bc_laplace :: "mesh \<Rightarrow> state \<Rightarrow> laplace \<Rightarrow> state \<times> string list" where
  "set_electric_field_bc_laplace msh st lap =
     (let vacuum_efield = vacuum_interface_efield lap;
          vacuum_centers = vacuum_interface_centers lap;
          (m, messages) = for_interface_faces (match_copper_face vacuum_centers vacuum_efield)
                                              msh ([], [])
      in (st\<lparr>interface_map_field := m\<rparr>, messages))"

text \<open>\<^verbatim>\<open>get_efield_bc\<close>, with its assertion.\<close>

definition get_efield_bc :: "state \<Rightarrow> face_id \<Rightarrow> error + real" where
  "get_efield_bc st cop_cell_info =
     (if interface_map_field st = [] then Inr (uniform_efield_bc st)
      else case map_of (interface_map_field st) cop_cell_info of
             None \<Rightarrow> Inl AssertionFailed
           | Some e_field \<Rightarrow> Inr e_field)"

text \<open>\<^verbatim>\<open>get_emission_current_bc\<close>; following a null \<open>pq\<close> is not defined.\<close>

definition get_emission_current_bc :: "state \<Rightarrow> face_id \<Rightarrow> real \<Rightarrow> error + real" where
  "get_emission_current_bc st cop_cell_info temperature =
     (if interface_map_emission_current st = [] then
        (case get_efield_bc st cop_cell_info of
           Inl e \<Rightarrow> Inl e
         | Inr e_field \<Rightarrow>
             (case pq st of
                None \<Rightarrow> Inl UndefinedBehaviour
              | Some p \<Rightarrow> Inr (emission_current p e_field temperature)))
      else case map_of (interface_map_emission_current st) cop_cell_info of
             None \<Rightarrow> Inl AssertionFailed
           | Some j \<Rightarrow> Inr j)"

text \<open>\<^verbatim>\<open>get_nottingham_heat_bc\<close>.\<close>

definition get_nottingham_heat_bc :: "state \<Rightarrow> face_id \<Rightarrow> real \<Rightarrow> error + real" where
  "get_nottingham_heat_bc st cop_cell_info temperature =
     (if interface_map_nottingham st = [] then
        (case get_efield_bc st cop_cell_info of
           Inl e \<Rightarrow> Inl e
         | Inr e_field \<Rightarrow>
             (case pq st of
                None \<Rightarrow> Inl UndefinedBehaviour
              | Some p \<Rightarrow>
                  Inr (- 1 * nottingham_de p e_field temperature
                       * emission_current p e_field temperature)))
      else case map_of (interface_map_nottingham st) cop_cell_info of
             None \<Rightarrow> Inl AssertionFailed
           | Some h \<Rightarrow> Inr h)"

text \<open>\<^verbatim>\<open>set_physical_quantities\<close> and \<^verbatim>\<open>set_timestep\<close>.\<close>

definition set_physical_quantities :: "state \<Rightarrow> physical_quantities option \<Rightarrow> state" where
  "set_physical_quantities st new_pq = st\<lparr>pq := new_pq\<rparr>"

definition set_timestep :: "state \<Rightarrow> real \<Rightarrow> state" where
  "set_timestep st new_time_step = st\<lparr>time_step := new_time_step\<rparr>"

subsection \<open>Assembly\<close>

text \<open>\<^verbatim>\<open>pq->sigma(temperature)\<close> and \<^verbatim>\<open>pq->kappa(temperature)\<close> through the pointer.\<close>

definition pq_sigma :: "state \<Rightarrow> real \<Rightarrow> error + real" where
  "pq_sigma st temperature =
     (case pq st of
        None \<Rightarrow> Inl UndefinedBehaviour
      | Some p \<Rightarrow> (case sigma p temperature of
                     None \<Rightarrow> Inl UndefinedBehaviour
                   | Some s \<Rightarrow> Inr s))"

definition pq_kappa :: "state \<Rightarrow> real \<Rightarrow> error + real" where
  "pq_kappa st temperature =
     (case pq st of
        None \<Rightarrow> Inl UndefinedBehaviour
      | Some p \<Rightarrow> (case kappa p temperature of
                     None \<Rightarrow> Inl UndefinedBehaviour
                   | Some k \<Rightarrow> Inr k))"

text \<open>
  The last loop of every cell: \<^verbatim>\<open>system_matrix.add(local_dof_indices[i], local_dof_indices[j], cell_matrix(i, j))\<close>
  and \<^verbatim>\<open>system_rhs(local_dof_indices[i]) += cell_rhs(i)\<close>.
\<close>

definition add_local_to_global ::
  "nat \<Rightarrow> nat list \<Rightarrow> matrix \<times> (nat \<Rightarrow> real) \<Rightarrow> matrix \<times> vector \<Rightarrow> error + matrix \<times> vector" where
  "add_local_to_global dofs_per_cell local_dof_indices local global =
     foldE (\<lambda>i (system_matrix, system_rhs).
              let system_matrix' =
                    fold (\<lambda>j m. add_entry m (local_dof_indices ! i) (local_dof_indices ! j)
                                          (fst local i j))
                         [0..<dofs_per_cell] system_matrix
              in case vector_add system_rhs (local_dof_indices ! i) (snd local i) of
                   Inl e \<Rightarrow> Inl e
                 | Inr system_rhs' \<Rightarrow> Inr (system_matrix', system_rhs'))
           [0..<dofs_per_cell] global"

text \<open>
  \<^verbatim>\<open>assemble_current_system\<close>: one quadrature point of the cell term, one face of the
  boundary term, the cell, and the whole system.
\<close>

definition current_volume_point ::
  "state \<Rightarrow> mesh \<Rightarrow> cell \<Rightarrow> nat \<Rightarrow> matrix \<Rightarrow> error + matrix" where
  "current_volume_point st msh c q cell_matrix =
     (let temperature = heat_function_values c (solution_heat st) q
      in case pq_sigma st temperature of
           Inl e \<Rightarrow> Inl e
         | Inr sigma_T \<Rightarrow>
             Inr (fold (\<lambda>i. fold (\<lambda>j m. add_entry m i j
                                     (dot (current_shape_grad c i q) (current_shape_grad c j q)
                                      * sigma_T * current_JxW c q))
                                  [0..<current_dofs_per_cell msh])
                       [0..<current_dofs_per_cell msh] cell_matrix))"

definition current_face ::
  "state \<Rightarrow> mesh \<Rightarrow> cell \<Rightarrow> nat \<Rightarrow> (nat \<Rightarrow> real) \<Rightarrow> error + (nat \<Rightarrow> real)" where
  "current_face st msh c f cell_rhs =
     (if at_boundary (faces c ! f) \<and> boundary_id (faces c ! f) = copper_surface then
        foldE (\<lambda>q b.
                 let temperature = heat_face_function_values (faces c ! f) (solution_heat st) q
                 in case get_emission_current_bc st (cell_index c, f) temperature of
                      Inl e \<Rightarrow> Inl e
                    | Inr emission \<Rightarrow>
                        Inr (fold (\<lambda>i b. b(i := b i + current_face_shape_value (faces c ! f) i q
                                                       * emission * current_face_JxW (faces c ! f) q))
                                  [0..<current_dofs_per_cell msh] b))
              [0..<n_face_q_points msh] cell_rhs
      else Inr cell_rhs)"

definition current_cell :: "state \<Rightarrow> mesh \<Rightarrow> cell \<Rightarrow> error + matrix \<times> (nat \<Rightarrow> real)" where
  "current_cell st msh c =
     (case foldE (current_volume_point st msh c) [0..<n_q_points msh] (\<lambda>i j. 0) of
        Inl e \<Rightarrow> Inl e
      | Inr cell_matrix \<Rightarrow>
          (case foldE (current_face st msh c) [0..<length (faces c)] (\<lambda>i. 0) of
             Inl e \<Rightarrow> Inl e
           | Inr cell_rhs \<Rightarrow> Inr (cell_matrix, cell_rhs)))"

definition assemble_current_system :: "dealii \<Rightarrow> mesh \<Rightarrow> state \<Rightarrow> error + state" where
  "assemble_current_system lib msh st =
     (case foldE (\<lambda>c global.
                    case current_cell st msh c of
                      Inl e \<Rightarrow> Inl e
                    | Inr local \<Rightarrow>
                        add_local_to_global (current_dofs_per_cell msh) (current_dof_indices c)
                                            local global)
                 (cells msh) (system_matrix_current st, system_rhs_current st) of
        Inl e \<Rightarrow> Inl e
      | Inr (system_matrix, system_rhs) \<Rightarrow>
          let boundary_values = map (\<lambda>d. (d, 0)) (current_bottom_dofs msh);
              (m, x, b) = apply_boundary_values lib boundary_values system_matrix
                            (solution_current st) system_rhs
          in Inr (st\<lparr>system_matrix_current := m, solution_current := x,
                     system_rhs_current := b\<rparr>))"

text \<open>
  \<^verbatim>\<open>assemble_heating_system_crank_nicolson\<close>, with
  \<^verbatim>\<open>const_k = time_step/(2.0*cu_rho_cp)\<close>. The running maximum of the heating power is
  a local variable that is never read and is left out.
\<close>

definition const_k :: "state \<Rightarrow> real" where
  "const_k st = time_step st / (2 * cu_rho_cp)"

definition crank_nicolson_volume_point ::
  "state \<Rightarrow> mesh \<Rightarrow> cell \<Rightarrow> nat \<Rightarrow> matrix \<times> (nat \<Rightarrow> real) \<Rightarrow> error + matrix \<times> (nat \<Rightarrow> real)" where
  "crank_nicolson_volume_point st msh c q local =
     (let prev_temperature = heat_function_values c (old_solution_heat st) q
      in case pq_kappa st prev_temperature of
           Inl e \<Rightarrow> Inl e
         | Inr kappa_T \<Rightarrow>
             (case pq_sigma st prev_temperature of
                Inl e \<Rightarrow> Inl e
              | Inr sigma_T \<Rightarrow>
                  let prev_temperature_grad = heat_function_gradients c (old_solution_heat st) q;
                      pot_grad_squared =
                        norm_square (current_function_gradients c (solution_current st) q);
                      prev_pot_grad_squared =
                        norm_square (current_function_gradients c (old_solution_current st) q)
                  in Inr (fold (\<lambda>i (cell_matrix, cell_rhs).
                            (fold (\<lambda>j m. add_entry m i j
                                     ((heat_shape_value c i q * heat_shape_value c j q
                                       + dot (scale (const_k st * kappa_T) (heat_shape_grad c i q))
                                             (heat_shape_grad c j q))
                                      * heat_JxW c q))
                                  [0..<heat_dofs_per_cell msh] cell_matrix,
                             cell_rhs(i := cell_rhs i
                                + (heat_shape_value c i q * prev_temperature
                                   + const_k st * heat_shape_value c i q * sigma_T
                                     * (pot_grad_squared + prev_pot_grad_squared)
                                   - dot (scale (const_k st * kappa_T) (heat_shape_grad c i q))
                                         prev_temperature_grad)
                                  * heat_JxW c q)))
                          [0..<heat_dofs_per_cell msh] local)))"

definition crank_nicolson_face ::
  "state \<Rightarrow> mesh \<Rightarrow> cell \<Rightarrow> nat \<Rightarrow> (nat \<Rightarrow> real) \<Rightarrow> error + (nat \<Rightarrow> real)" where
  "crank_nicolson_face st msh c f cell_rhs =
     (if at_boundary (faces c ! f) \<and> boundary_id (faces c ! f) = copper_surface then
        foldE (\<lambda>q b.
                 let prev_temperature =
                       heat_face_function_values (faces c ! f) (old_solution_heat st) q
                 in case get_nottingham_heat_bc st (cell_index c, f) prev_temperature of
                      Inl e \<Rightarrow> Inl e
                    | Inr nottingham_heat \<Rightarrow>
                        Inr (fold (\<lambda>i b. b(i := b i + const_k st
                                                       * heat_face_shape_value (faces c ! f) i q
                                                       * 2 * nottingham_heat
                                                       * heat_face_JxW (faces c ! f) q))
                                  [0..<heat_dofs_per_cell msh] b))
              [0..<n_face_q_points msh] cell_rhs
      else Inr cell_rhs)"

definition crank_nicolson_cell :: "state \<Rightarrow> mesh \<Rightarrow> cell \<Rightarrow> error + matrix \<times> (nat \<Rightarrow> real)" where
  "crank_nicolson_cell st msh c =
     (case foldE (crank_nicolson_volume_point st msh c) [0..<n_q_points msh]
                 (\<lambda>i j. 0, \<lambda>i. 0) of
        Inl e \<Rightarrow> Inl e
      | Inr (cell_matrix, cell_rhs) \<Rightarrow>
          (case foldE (crank_nicolson_face st msh c) [0..<length (faces c)] cell_rhs of
             Inl e \<Rightarrow> Inl e
           | Inr cell_rhs' \<Rightarrow> Inr (cell_matrix, cell_rhs')))"

definition assemble_heating_system_crank_nicolson :: "dealii \<Rightarrow> mesh \<Rightarrow> state \<Rightarrow> error + state" where
  "assemble_heating_system_crank_nicolson lib msh st =
     (case foldE (\<lambda>c global.
                    case crank_nicolson_cell st msh c of
                      Inl e \<Rightarrow> Inl e
                    | Inr local \<Rightarrow>
                        add_local_to_global (heat_dofs_per_cell msh) (heat_dof_indices c)
                                            local global)
                 (cells msh) (system_matrix_heat st, system_rhs_heat st) of
        Inl e \<Rightarrow> Inl e
      | Inr (system_matrix, system_rhs) \<Rightarrow>
          let boundary_values = map (\<lambda>d. (d, ambient_temperature)) (heat_bottom_dofs msh);
              (m, x, b) = apply_boundary_values lib boundary_values system_matrix
                            (solution_heat st) system_rhs
          in Inr (st\<lparr>system_matrix_heat := m, solution_heat := x, system_rhs_heat := b\<rparr>))"

text \<open>
  \<^verbatim>\<open>assemble_heating_system_euler_implicit\<close>, with \<^verbatim>\<open>gamma = time_step/(cu_rho_cp)\<close>.
\<close>

definition gamma :: "state \<Rightarrow> real" where
  "gamma st = time_step st / cu_rho_cp"

definition euler_implicit_volume_point ::
  "state \<Rightarrow> mesh \<Rightarrow> cell \<Rightarrow> nat \<Rightarrow> matrix \<times> (nat \<Rightarrow> real) \<Rightarrow> error + matrix \<times> (nat \<Rightarrow> real)" where
  "euler_implicit_volume_point st msh c q local =
     (let prev_temperature = heat_function_values c (old_solution_heat st) q
      in case pq_kappa st prev_temperature of
           Inl e \<Rightarrow> Inl e
         | Inr kappa_T \<Rightarrow>
             (case pq_sigma st prev_temperature of
                Inl e \<Rightarrow> Inl e
              | Inr sigma_T \<Rightarrow>
                  let pot_grad_squared =
                        norm_square (current_function_gradients c (solution_current st) q)
                  in Inr (fold (\<lambda>i (cell_matrix, cell_rhs).
                            (fold (\<lambda>j m. add_entry m i j
                                     ((heat_shape_value c i q * heat_shape_value c j q
                                       + dot (scale (gamma st * kappa_T) (heat_shape_grad c i q))
                                             (heat_shape_grad c j q))
                                      * heat_JxW c q))
                                  [0..<heat_dofs_per_cell msh] cell_matrix,
                             cell_rhs(i := cell_rhs i
                                + (heat_shape_value c i q * prev_temperature
                                   + gamma st * heat_shape_value c i q * sigma_T * pot_grad_squared)
                                  * heat_JxW c q)))
                          [0..<heat_dofs_per_cell msh] local)))"

definition euler_implicit_face ::
  "state \<Rightarrow> mesh \<Rightarrow> cell \<Rightarrow> nat \<Rightarrow> (nat \<Rightarrow> real) \<Rightarrow> error + (nat \<Rightarrow> real)" where
  "euler_implicit_face st msh c f cell_rhs =
     (if at_boundary (faces c ! f) \<and> boundary_id (faces c ! f) = copper_surface then
        foldE (\<lambda>q b.
                 let prev_temperature =
                       heat_face_function_values (faces c ! f) (old_solution_heat st) q
                 in case get_nottingham_heat_bc st (cell_index c, f) prev_temperature of
                      Inl e \<Rightarrow> Inl e
                    | Inr nottingham_heat \<Rightarrow>
                        Inr (fold (\<lambda>i b. b(i := b i + gamma st
                                                       * heat_face_shape_value (faces c ! f) i q
                                                       * nottingham_heat
                                                       * heat_face_JxW (faces c ! f) q))
                                  [0..<heat_dofs_per_cell msh] b))
              [0..<n_face_q_points msh] cell_rhs
      else Inr cell_rhs)"

definition euler_implicit_cell :: "state \<Rightarrow> mesh \<Rightarrow> cell \<Rightarrow> error + matrix \<times> (nat \<Rightarrow> real)" where
  "euler_implicit_cell st msh c =
     (case foldE (euler_implicit_volume_point st msh c) [0..<n_q_points msh]
                 (\<lambda>i j. 0, \<lambda>i. 0) of
        Inl e \<Rightarrow> Inl e
      | Inr (cell_matrix, cell_rhs) \<Rightarrow>
          (case foldE (euler_implicit_face st msh c) [0..<length (faces c)] cell_rhs of
             Inl e \<Rightarrow> Inl e
           | Inr cell_rhs' \<Rightarrow> Inr (cell_matrix, cell_rhs')))"

definition assemble_heating_system_euler_implicit :: "dealii \<Rightarrow> mesh \<Rightarrow> state \<Rightarrow> error + state" where
  "assemble_heating_system_euler_implicit lib msh st =
     (case foldE (\<lambda>c global.
                    case euler_implicit_cell st msh c of
                      Inl e \<Rightarrow> Inl e
                    | Inr local \<Rightarrow>
                        add_local_to_global (heat_dofs_per_cell msh) (heat_dof_indices c)
                                            local global)
                 (cells msh) (system_matrix_heat st, system_rhs_heat st) of
        Inl e \<Rightarrow> Inl e
      | Inr (system_matrix, system_rhs) \<Rightarrow>
          let boundary_values = map (\<lambda>d. (d, ambient_temperature)) (heat_bottom_dofs msh);
              (m, x, b) = apply_boundary_values lib boundary_values system_matrix
                            (solution_heat st) system_rhs
          in Inr (st\<lparr>system_matrix_heat := m, solution_heat := x, system_rhs_heat := b\<rparr>))"

subsection \<open>The linear solves\<close>

text \<open>
  \<^verbatim>\<open>solve_current\<close> and \<^verbatim>\<open>solve_heat\<close>. The \<^verbatim>\<open>int\<close> argument becomes the
  \<^verbatim>\<open>unsigned int\<close> of the control. There is no handler around \<^verbatim>\<open>solver.solve\<close>: what the
  library raises leaves the function, and the object keeps the vectors as they are then.
\<close>

definition solve_current ::
  "dealii \<Rightarrow> state \<Rightarrow> int \<Rightarrow> real \<Rightarrow> bool \<Rightarrow> real \<Rightarrow> state \<times> (solver_exception + nat)" where
  "solve_current lib st max_iter tol pc_ssor ssor_param =
     (let st1 = st\<lparr>old_solution_current := solution_current st\<rparr>;
          control = \<lparr>max_steps = nat (max_iter mod 2 ^ 32), tolerance = tol\<rparr>;
          preconditioner = (if pc_ssor
                            then PreconditionSSOR (system_matrix_current st1) ssor_param
                            else PreconditionIdentity);
          (x, outcome) = solver_cg lib control preconditioner (system_matrix_current st1)
                           (solution_current st1) (system_rhs_current st1)
      in (st1\<lparr>solution_current := x\<rparr>, outcome))"

definition solve_heat ::
  "dealii \<Rightarrow> state \<Rightarrow> int \<Rightarrow> real \<Rightarrow> bool \<Rightarrow> real \<Rightarrow> state \<times> (solver_exception + nat)" where
  "solve_heat lib st max_iter tol pc_ssor ssor_param =
     (let st1 = st\<lparr>old_solution_heat := solution_heat st\<rparr>;
          control = \<lparr>max_steps = nat (max_iter mod 2 ^ 32), tolerance = tol\<rparr>;
          preconditioner = (if pc_ssor
                            then PreconditionSSOR (system_matrix_heat st1) ssor_param
                            else PreconditionIdentity);
          (x, outcome) = solver_cg lib control preconditioner (system_matrix_heat st1)
                           (solution_heat st1) (system_rhs_heat st1)
      in (st1\<lparr>solution_heat := x\<rparr>, outcome))"

subsection \<open>The interface faces as a list\<close>

text \<open>
  The faces the loop nest visits, in its order, and their identities
  \<open>(cell index, local face number)\<close>.
\<close>

definition interface_faces :: "mesh \<Rightarrow> (cell \<times> nat) list" where
  "interface_faces msh =
     concat (map (\<lambda>c. map (Pair c)
                          (filter (\<lambda>f. boundary_id (faces c ! f) = copper_surface)
                                  [0..<length (faces c)]))
                 (cells msh))"

definition face_identity :: "cell \<times> nat \<Rightarrow> face_id" where
  "face_identity cf = (cell_index (fst cf), snd cf)"

definition face_center :: "cell \<times> nat \<Rightarrow> point" where
  "face_center cf = center (faces (fst cf) ! snd cf)"

subsection \<open>Construction\<close>

text \<open>
  \<^verbatim>\<open>CurrentsAndHeating(double time_step_, PhysicalQuantities *pq_)\<close>: the time step and
  the pointer are stored, the uniform field is \<open>1.0\<close>, vectors, matrices and maps start
  empty. The default constructor is the same with \<^verbatim>\<open>1e-13\<close> and a null pointer.
\<close>

definition currents_and_heating :: "real \<Rightarrow> physical_quantities option \<Rightarrow> state" where
  "currents_and_heating new_time_step new_pq =
     \<lparr>time_step = new_time_step, uniform_efield_bc = 1,
      system_matrix_current = (\<lambda>i j. 0), system_rhs_current = [],
      solution_current = [], old_solution_current = [],
      system_matrix_heat = (\<lambda>i j. 0), system_rhs_heat = [],
      solution_heat = [], old_solution_heat = [], const_temperature_solution = [],
      pq = new_pq,
      interface_map_field = [], interface_map_emission_current = [],
      interface_map_nottingham = []\<rparr>"

subsection \<open>A small instance\<close>

text \<open>
  One cell with one degree of freedom and one quadrature point per cell and per face. Faces
  0 and 1 lie on the interface, face 2 on the bottom. The vacuum side has one interface face,
  opposite face 0. The instance serves to evaluate the definitions.
\<close>

definition example_face :: "boundary_id \<Rightarrow> point \<Rightarrow> face" where
  "example_face b p =
     \<lparr>at_boundary = True, boundary_id = b, center = p,
      current_face_shape_value = (\<lambda>i q. 1), current_face_JxW = (\<lambda>q. 1),
      heat_face_shape_value = (\<lambda>i q. 1), heat_face_JxW = (\<lambda>q. 1),
      heat_face_function_values = (\<lambda>v q. sum_list v)\<rparr>"

definition example_cell :: cell where
  "example_cell =
     \<lparr>cell_index = 0,
      faces = [example_face copper_surface [0, 0], example_face copper_surface [1, 0],
               example_face copper_bottom [0, 1]],
      current_dof_indices = [0], heat_dof_indices = [0],
      current_shape_grad = (\<lambda>i q. [1, 0]), current_JxW = (\<lambda>q. 1),
      current_function_gradients = (\<lambda>v q. [sum_list v, 0]),
      heat_shape_value = (\<lambda>i q. 1), heat_shape_grad = (\<lambda>i q. [1, 0]),
      heat_JxW = (\<lambda>q. 1),
      heat_function_values = (\<lambda>v q. sum_list v),
      heat_function_gradients = (\<lambda>v q. [sum_list v, 0])\<rparr>"

definition example_mesh :: mesh where
  "example_mesh =
     \<lparr>cells = [example_cell], current_dofs_per_cell = 1, heat_dofs_per_cell = 1,
      n_q_points = 1, n_face_q_points = 1, current_n_dofs = 1, heat_n_dofs = 1,
      current_bottom_dofs = [], heat_bottom_dofs = []\<rparr>"

definition example_laplace :: laplace where
  "example_laplace =
     \<lparr>vacuum_cells =
        [[\<lparr>vacuum_boundary_id = copper_surface, vacuum_center = [0, 0],
           vacuum_solution_gradient = [0, 2]\<rparr>,
          \<lparr>vacuum_boundary_id = other_boundary 0, vacuum_center = [0, 5],
           vacuum_solution_gradient = [0, 1]\<rparr>]]\<rparr>"

definition example_pq :: physical_quantities where
  "example_pq =
     \<lparr>resistivity_data = [(200, 1 / 10 ^ 9)],
      emission_current = (\<lambda>field temperature. field),
      nottingham_de = (\<lambda>field temperature. 1)\<rparr>"

definition example_state :: state where
  "example_state =
     setup_heating_system example_mesh
       (setup_current_system example_mesh (currents_and_heating 1 (Some example_pq)))"

text \<open>
  Two library instances. Both leave the system alone when boundary values are applied; the
  meshes of this section have no degree of freedom on the bottom, so there are no values to
  apply. The solver of the first reports convergence at step 0. The solver of the second is
  the library's conjugate-gradient solver above; the relaxation sweep of
  \<^verbatim>\<open>PreconditionSSOR\<close> is not followed (the identity stands in for it), and the solver
  is run without preconditioner only.
\<close>

definition example_library :: dealii where
  "example_library =
     \<lparr>solver_cg = (\<lambda>control pc m x b. (x, Inr 0)),
      apply_boundary_values = (\<lambda>bv m x b. (m, x, b))\<rparr>"

definition cg_library :: dealii where
  "cg_library =
     \<lparr>solver_cg = dealii_solver_cg (\<lambda>pm omega v. v),
      apply_boundary_values = (\<lambda>bv m x b. (m, x, b))\<rparr>"

text \<open>
  A state with a symmetric positive definite system of two unknowns for both fields:
  \<open>2 x\<^sub>0 - x\<^sub>1 = 1\<close>, \<open>- x\<^sub>0 + 2 x\<^sub>1 = 0\<close>, with the start vector zero.
\<close>

definition chain_matrix :: matrix where
  "chain_matrix = (\<lambda>i j. if i = j then 2 else if i = j + 1 \<or> j = i + 1 then - 1 else 0)"

definition chain_state :: state where
  "chain_state =
     example_state\<lparr>system_matrix_current := chain_matrix, system_rhs_current := [1, 0],
                   solution_current := [0, 0], old_solution_current := [0, 0],
                   system_matrix_heat := chain_matrix, system_rhs_heat := [1, 0],
                   solution_heat := [0, 0], old_solution_heat := [0, 0]\<rparr>"

text \<open>
  A mesh of one cell with two degrees of freedom per field, one quadrature point per cell and
  per face, one face on the interface and no degree of freedom on the bottom. The shape
  gradients of the potential are \<open>(1, 0)\<close> and \<open>(-1, 1)\<close>; on the face the first shape
  function is \<open>1\<close> and the second \<open>0\<close>. \<open>pair_state\<close> is the object after construction
  and the two set-up calls on this mesh, \<open>pair_assembled\<close> what
  \<open>assemble_current_system\<close> makes of it.
\<close>

definition pair_face :: face where
  "pair_face =
     \<lparr>at_boundary = True, boundary_id = copper_surface, center = [0, 0],
      current_face_shape_value = (\<lambda>i q. if i = 0 then 1 else 0), current_face_JxW = (\<lambda>q. 1),
      heat_face_shape_value = (\<lambda>i q. if i = 0 then 1 else 0), heat_face_JxW = (\<lambda>q. 1),
      heat_face_function_values = (\<lambda>v q. v ! 0)\<rparr>"

definition pair_cell :: cell where
  "pair_cell =
     \<lparr>cell_index = 0, faces = [pair_face],
      current_dof_indices = [0, 1], heat_dof_indices = [0, 1],
      current_shape_grad = (\<lambda>i q. if i = 0 then [1, 0] else [- 1, 1]),
      current_JxW = (\<lambda>q. 1),
      current_function_gradients = (\<lambda>v q. [v ! 0 - v ! 1, v ! 1]),
      heat_shape_value = (\<lambda>i q. 1 / 2),
      heat_shape_grad = (\<lambda>i q. if i = 0 then [1, 0] else [- 1, 1]),
      heat_JxW = (\<lambda>q. 1),
      heat_function_values = (\<lambda>v q. (v ! 0 + v ! 1) / 2),
      heat_function_gradients = (\<lambda>v q. [v ! 0 - v ! 1, v ! 1])\<rparr>"

definition pair_mesh :: mesh where
  "pair_mesh =
     \<lparr>cells = [pair_cell], current_dofs_per_cell = 2, heat_dofs_per_cell = 2,
      n_q_points = 1, n_face_q_points = 1, current_n_dofs = 2, heat_n_dofs = 2,
      current_bottom_dofs = [], heat_bottom_dofs = []\<rparr>"

definition pair_state :: state where
  "pair_state =
     setup_heating_system pair_mesh
       (setup_current_system pair_mesh (currents_and_heating 1 (Some example_pq)))"

definition pair_assembled :: state where
  "pair_assembled = projr (assemble_current_system cg_library pair_mesh pair_state)"

section \<open>Verification: the property table\<close>

subsection \<open>The binary search\<close>

text \<open>
  The halving loop keeps two facts about the range it still has to look at: the element left
  of it compares below \<open>x\<close>, the element right of it does not. Neither needs the table to
  be sorted.
\<close>

lemma lower_bound_from_inv:
  "first + len \<le> length data \<Longrightarrow>
   first = 0 \<or> fst (data ! (first - 1)) < x \<Longrightarrow>
   first + len = length data \<or> \<not> fst (data ! (first + len)) < x \<Longrightarrow>
   first \<le> lower_bound_from data x first len \<and>
   lower_bound_from data x first len \<le> first + len \<and>
   (lower_bound_from data x first len = 0
      \<or> fst (data ! (lower_bound_from data x first len - 1)) < x) \<and>
   (lower_bound_from data x first len = length data
      \<or> \<not> fst (data ! lower_bound_from data x first len) < x)"
proof (induction data x first len rule: lower_bound_from.induct)
  case (1 data x first len)
  show ?case
  proof (cases "len = 0")
    case True
    then have "lower_bound_from data x first len = first"
      by (subst lower_bound_from.simps) simp
    with True "1.prems" show ?thesis
      by simp
  next
    case False
    define half where "half = len div 2"
    define middle where "middle = first + half"
    have hl: "half < len" using False by (simp add: half_def)
    show ?thesis
    proof (cases "fst (data ! middle) < x")
      case True
      have eq: "lower_bound_from data x first len
                = lower_bound_from data x (middle + 1) (len - half - 1)"
        using False True
        by (simp add: lower_bound_from.simps [of data x first len] half_def middle_def Let_def)
      have sum: "middle + 1 + (len - half - 1) = first + len"
        using hl by (simp add: middle_def)
      have ih: "middle + 1 \<le> lower_bound_from data x (middle + 1) (len - half - 1) \<and>
          lower_bound_from data x (middle + 1) (len - half - 1) \<le> middle + 1 + (len - half - 1) \<and>
          (lower_bound_from data x (middle + 1) (len - half - 1) = 0
            \<or> fst (data ! (lower_bound_from data x (middle + 1) (len - half - 1) - 1)) < x) \<and>
          (lower_bound_from data x (middle + 1) (len - half - 1) = length data
            \<or> \<not> fst (data ! lower_bound_from data x (middle + 1) (len - half - 1)) < x)"
      proof (rule "1.IH"(1) [OF False half_def middle_def])
        show "fst (data ! middle) < x" by (rule True)
        show "middle + 1 + (len - half - 1) \<le> length data"
          using sum "1.prems"(1) by simp
        show "middle + 1 = 0 \<or> fst (data ! (middle + 1 - 1)) < x"
          using True by simp
        show "middle + 1 + (len - half - 1) = length data
              \<or> \<not> fst (data ! (middle + 1 + (len - half - 1))) < x"
          using sum "1.prems"(3) by simp
      qed
      show ?thesis
        using ih sum unfolding eq middle_def by auto
    next
      case Nless: False
      have eq: "lower_bound_from data x first len = lower_bound_from data x first half"
        using False Nless
        by (simp add: lower_bound_from.simps [of data x first len] half_def middle_def Let_def)
      have ih: "first \<le> lower_bound_from data x first half \<and>
          lower_bound_from data x first half \<le> first + half \<and>
          (lower_bound_from data x first half = 0
            \<or> fst (data ! (lower_bound_from data x first half - 1)) < x) \<and>
          (lower_bound_from data x first half = length data
            \<or> \<not> fst (data ! lower_bound_from data x first half) < x)"
      proof (rule "1.IH"(2) [OF False half_def middle_def])
        show "\<not> fst (data ! middle) < x" by (rule Nless)
        show "first + half \<le> length data"
          using hl "1.prems"(1) by simp
        show "first = 0 \<or> fst (data ! (first - 1)) < x"
          by (rule "1.prems"(2))
        show "first + half = length data \<or> \<not> fst (data ! (first + half)) < x"
          using Nless by (simp add: middle_def)
      qed
      show ?thesis
        using ih hl unfolding eq by auto
    qed
  qed
qed

lemma lower_bound_props:
  "lower_bound data x \<le> length data \<and>
   (lower_bound data x = 0 \<or> fst (data ! (lower_bound data x - 1)) < x) \<and>
   (lower_bound data x = length data \<or> x \<le> fst (data ! lower_bound data x))"
  using lower_bound_from_inv [of 0 "length data" data x]
  by (auto simp: lower_bound_def not_less)

lemma strict_nth_less:
  "sorted_wrt (<) (map fst (data :: (real \<times> real) list)) \<Longrightarrow> i < j \<Longrightarrow> j < length data
   \<Longrightarrow> fst (data ! i) < fst (data ! j)"
  using sorted_wrt_nth_less [of "(<)" "map fst data" i j] by simp

lemma strict_nth_le:
  "sorted_wrt (<) (map fst (data :: (real \<times> real) list)) \<Longrightarrow> i \<le> j \<Longrightarrow> j < length data
   \<Longrightarrow> fst (data ! i) \<le> fst (data ! j)"
  using strict_nth_less [of data i j] by (cases "i = j") auto

lemma lower_bound_bracket:
  assumes inc: "sorted_wrt (<) (map fst data)"
    and k: "Suc k < length data"
    and lo: "fst (data ! k) < x"
    and hi: "x \<le> fst (data ! Suc k)"
  shows "lower_bound data x = Suc k"
proof -
  define r where "r = lower_bound data x"
  have p1: "r \<le> length data"
    and p2: "r = 0 \<or> fst (data ! (r - 1)) < x"
    and p3: "r = length data \<or> x \<le> fst (data ! r)"
    using lower_bound_props [of data x] by (simp_all add: r_def)
  have "\<not> r \<le> k"
  proof
    assume rk: "r \<le> k"
    then have "r < length data" using k by simp
    with p3 have "x \<le> fst (data ! r)" by simp
    moreover have "fst (data ! r) \<le> fst (data ! k)"
      using strict_nth_le [OF inc rk] k by simp
    ultimately show False using lo by simp
  qed
  moreover have "\<not> Suc (Suc k) \<le> r"
  proof
    assume kr: "Suc (Suc k) \<le> r"
    then have "fst (data ! (r - 1)) < x" using p2 by auto
    moreover have "fst (data ! Suc k) \<le> fst (data ! (r - 1))"
      using strict_nth_le [OF inc, of "Suc k" "r - 1"] kr p1 by simp
    ultimately show False using hi by simp
  qed
  ultimately show ?thesis unfolding r_def by simp
qed


lemma linear_interp_total:
  assumes ne: "data \<noteq> []"
  shows "\<exists>y. linear_interp x data = Some y"
proof (cases "x \<le> fst (data ! 0) \<or> x \<ge> fst (last data)")
  case True
  with ne show ?thesis by (auto simp: linear_interp_def)
next
  case False
  define r where "r = lower_bound data x"
  have p2: "r = 0 \<or> fst (data ! (r - 1)) < x"
    and p3: "r = length data \<or> x \<le> fst (data ! r)"
    using lower_bound_props [of data x] by (simp_all add: r_def)
  have "r \<noteq> 0" using p3 False ne by (cases "r = 0") auto
  moreover have "r \<noteq> length data"
    using p2 False ne \<open>r \<noteq> 0\<close> by (auto simp: last_conv_nth)
  moreover have "r \<le> length data"
    using lower_bound_props [of data x] by (simp add: r_def)
  ultimately show ?thesis
    using False ne by (simp add: linear_interp_def Let_def r_def [symmetric])
qed

lemma linear_interp_between:
  assumes inc: "sorted_wrt (<) (map fst data)"
    and k: "Suc k < length data"
    and lo: "fst (data ! k) < x"
    and hi: "x \<le> fst (data ! Suc k)"
    and last: "x < fst (last data)"
  shows "linear_interp x data =
         Some (snd (data ! k) + (snd (data ! Suc k) - snd (data ! k)) * (x - fst (data ! k))
                                / (fst (data ! Suc k) - fst (data ! k)))"
proof -
  have ne: "data \<noteq> []" using k by auto
  have "fst (data ! 0) \<le> fst (data ! k)"
    using strict_nth_le [OF inc, of 0 k] k by simp
  then have "\<not> x \<le> fst (data ! 0)" using lo by simp
  moreover have "lower_bound data x = Suc k"
    by (rule lower_bound_bracket [OF inc k lo hi])
  ultimately show ?thesis
    using ne last k by (simp add: linear_interp_def Let_def)
qed

subsection \<open>Linear interpolation\<close>

lemma linear_interp_in_exact: "linear_interp_in exact_arith x data = linear_interp x data"
  by (simp add: linear_interp_in_def linear_interp_def exact_arith_def Let_def)

lemma linear_interp_in_between:
  assumes inc: "sorted_wrt (<) (map fst data)"
    and k: "Suc k < length data"
    and lo: "fst (data ! k) < x"
    and hi: "x \<le> fst (data ! Suc k)"
    and last: "x < fst (last data)"
  shows "linear_interp_in ar x data =
         Some (fadd ar (snd (data ! k))
                 (fdiv ar (fmul ar (fsub ar (snd (data ! Suc k)) (snd (data ! k)))
                                   (fsub ar x (fst (data ! k))))
                          (fsub ar (fst (data ! Suc k)) (fst (data ! k)))))"
proof -
  have ne: "data \<noteq> []" using k by auto
  have "fst (data ! 0) \<le> fst (data ! k)"
    using strict_nth_le [OF inc, of 0 k] k by simp
  then have "\<not> x \<le> fst (data ! 0)" using lo by simp
  moreover have "lower_bound data x = Suc k"
    by (rule lower_bound_bracket [OF inc k lo hi])
  ultimately show ?thesis
    using ne last k by (simp add: linear_interp_in_def Let_def)
qed

lemma linear_interp_in_ends:
  assumes ne: "data \<noteq> []"
    and inc: "sorted_wrt (<) (map fst data)"
  shows "x \<le> fst (hd data) \<Longrightarrow> linear_interp_in ar x data = Some (snd (hd data))"
    and "x \<ge> fst (last data) \<Longrightarrow> linear_interp_in ar x data = Some (snd (last data))"
proof -
  assume "x \<le> fst (hd data)"
  then show "linear_interp_in ar x data = Some (snd (hd data))"
    using ne by (simp add: linear_interp_in_def hd_conv_nth)
next
  assume up: "x \<ge> fst (last data)"
  show "linear_interp_in ar x data = Some (snd (last data))"
  proof (cases "x \<le> fst (data ! 0)")
    case False
    with up ne show ?thesis by (simp add: linear_interp_in_def)
  next
    case True
    have "length data - 1 = 0"
    proof (rule ccontr)
      assume "length data - 1 \<noteq> 0"
      then have "fst (data ! 0) < fst (data ! (length data - 1))"
        using strict_nth_less [OF inc, of 0 "length data - 1"] by simp
      then show False using up True ne by (simp add: last_conv_nth)
    qed
    then have "last data = data ! 0" using ne by (simp add: last_conv_nth)
    with True ne show ?thesis by (simp add: linear_interp_in_def)
  qed
qed

text \<open>In exact arithmetic the value at every abscissa of the table is the ordinate stored there.\<close>

lemma linear_interp_exact_at_samples:
  assumes ne: "data \<noteq> []"
    and inc: "sorted_wrt (<) (map fst data)"
    and k: "k < length data"
  shows "linear_interp (fst (data ! k)) data = Some (snd (data ! k))"
proof (cases "k = 0")
  case True
  with ne show ?thesis by (simp add: linear_interp_def)
next
  case k0: False
  then have low: "fst (data ! 0) < fst (data ! k)"
    using strict_nth_less [OF inc, of 0 k] k by simp
  show ?thesis
  proof (cases "Suc k = length data")
    case True
    then have "length data - 1 = k" by simp
    then have "last data = data ! k" using ne by (simp add: last_conv_nth)
    with low ne show ?thesis by (simp add: linear_interp_def)
  next
    case False
    then have "fst (data ! k) < fst (data ! (length data - 1))"
      using strict_nth_less [OF inc, of k "length data - 1"] k by simp
    then have lt: "fst (data ! k) < fst (last data)"
      using ne by (simp add: last_conv_nth)
    obtain j where j: "k = Suc j" using k0 by (cases k) auto
    have step: "fst (data ! j) < fst (data ! Suc j)"
      using strict_nth_less [OF inc, of j "Suc j"] k j by simp
    have "linear_interp (fst (data ! Suc j)) data =
          Some (snd (data ! j)
                + (snd (data ! Suc j) - snd (data ! j)) * (fst (data ! Suc j) - fst (data ! j))
                  / (fst (data ! Suc j) - fst (data ! j)))"
      using linear_interp_between [OF inc, of j "fst (data ! Suc j)"] k j step lt by simp
    then show ?thesis using step j by simp
  qed
qed

text \<open>
  C4 (as the code has it). On a non-empty table whose abscissae increase strictly, in any
  arithmetic: \<open>linear_interp\<close> returns the first ordinate for every \<open>x\<close> at or below the
  first abscissa and the last ordinate for every \<open>x\<close> at or above the last one, so the
  first and the last sample are matched exactly. For an \<open>x\<close> below the last abscissa, above
  sample \<open>k\<close> and at or below sample \<open>k + 1\<close> (an interior sample point is such an \<open>x\<close>), the
  binary search returns \<open>k + 1\<close> and the result is the value of
  \<open>y\<^sub>k + (y\<^sub>k\<^sub>+\<^sub>1 - y\<^sub>k) * (x - x\<^sub>k) / (x\<^sub>k\<^sub>+\<^sub>1 - x\<^sub>k)\<close> in that arithmetic. In exact
  arithmetic this value is the stored ordinate at every sample point.
\<close>

theorem linear_interp_in_table:
  assumes ne: "data \<noteq> []"
    and inc: "sorted_wrt (<) (map fst data)"
  shows "(x \<le> fst (hd data) \<longrightarrow> linear_interp_in ar x data = Some (snd (hd data)))
       \<and> (x \<ge> fst (last data) \<longrightarrow> linear_interp_in ar x data = Some (snd (last data)))
       \<and> linear_interp_in ar (fst (hd data)) data = Some (snd (hd data))
       \<and> linear_interp_in ar (fst (last data)) data = Some (snd (last data))
       \<and> (\<forall>k. Suc k < length data \<and> fst (data ! k) < x \<and> x \<le> fst (data ! Suc k)
              \<and> x < fst (last data) \<longrightarrow>
              lower_bound data x = Suc k
            \<and> linear_interp_in ar x data =
                Some (fadd ar (snd (data ! k))
                        (fdiv ar (fmul ar (fsub ar (snd (data ! Suc k)) (snd (data ! k)))
                                          (fsub ar x (fst (data ! k))))
                                 (fsub ar (fst (data ! Suc k)) (fst (data ! k))))))
       \<and> (\<forall>k<length data.
              linear_interp_in exact_arith (fst (data ! k)) data = Some (snd (data ! k)))"
proof (intro conjI allI impI)
  assume "x \<le> fst (hd data)"
  then show "linear_interp_in ar x data = Some (snd (hd data))"
    by (rule linear_interp_in_ends(1) [OF ne inc])
next
  assume "x \<ge> fst (last data)"
  then show "linear_interp_in ar x data = Some (snd (last data))"
    by (rule linear_interp_in_ends(2) [OF ne inc])
next
  show "linear_interp_in ar (fst (hd data)) data = Some (snd (hd data))"
    by (rule linear_interp_in_ends(1) [OF ne inc]) simp
next
  show "linear_interp_in ar (fst (last data)) data = Some (snd (last data))"
    by (rule linear_interp_in_ends(2) [OF ne inc]) simp
next
  fix k
  assume h: "Suc k < length data \<and> fst (data ! k) < x \<and> x \<le> fst (data ! Suc k)
             \<and> x < fst (last data)"
  then show "lower_bound data x = Suc k"
    using lower_bound_bracket [OF inc, of k x] by simp
next
  fix k
  assume h: "Suc k < length data \<and> fst (data ! k) < x \<and> x \<le> fst (data ! Suc k)
             \<and> x < fst (last data)"
  then show "linear_interp_in ar x data =
        Some (fadd ar (snd (data ! k))
                (fdiv ar (fmul ar (fsub ar (snd (data ! Suc k)) (snd (data ! k)))
                                  (fsub ar x (fst (data ! k))))
                         (fsub ar (fst (data ! Suc k)) (fst (data ! k)))))"
    using linear_interp_in_between [OF inc, of k x ar] by simp
next
  fix k assume "k < length data"
  then show "linear_interp_in exact_arith (fst (data ! k)) data = Some (snd (data ! k))"
    using linear_interp_exact_at_samples [OF ne inc] by (simp add: linear_interp_in_exact)
qed

subsection \<open>Rounding to a double\<close>

lemma binade_numeral:
  "binade (numeral k) x =
     (if 2 \<le> x then binade (pred_numeral k) (x / 2) + 1
      else if 0 < x \<and> x < 1 then binade (pred_numeral k) (x * 2) - 1
      else 0)"
  by (simp add: numeral_eq_Suc)

lemmas round_eval = round_double_def pow2_def Let_def binade_numeral

lemma binary64_ops:
  "fadd binary64 a b = round_double (a + b)"
  "fsub binary64 a b = round_double (a - b)"
  "fmul binary64 a b = round_double (a * b)"
  "fdiv binary64 a b = round_double (a / b)"
  "fconst binary64 a = round_double a"
  by (simp_all add: binary64_def)

lemma round_double_tenth: "round_double (1 / 10) = 3602879701896397 / 2 ^ 55"
  by (simp add: round_eval)

lemma round_double_three_tenths: "round_double (3 / 10) = 5404319552844595 / 2 ^ 54"
  by (simp add: round_eval)

lemma round_double_thirteen_tenths: "round_double (13 / 10) = 5854679515581645 / 2 ^ 52"
  by (simp add: round_eval)

lemma deriv_eps_binary64: "deriv_eps binary64 = 7737125245533627 / 2 ^ 86"
  unfolding deriv_eps_def binary64_ops by (simp add: round_eval)

text \<open>
  The table \<open>{{200, 0.1}, {300, 0.3}, {400, 1.3}}\<close> as it is stored, and the six operations at
  \<open>x = 300\<close> and at \<open>x = 250\<close>.
\<close>

lemma tenths_table:
  "[(200, round_double (1 / 10)), (300, round_double (3 / 10)), (400, round_double (13 / 10))]
   = [(200, 3602879701896397 / 2 ^ 55), (300, 5404319552844595 / 2 ^ 54),
      (400, 5854679515581645 / 2 ^ 52)]"
  by (simp only: round_double_tenth round_double_three_tenths round_double_thirteen_tenths)

lemma tenths_at_300:
  "fadd binary64 (3602879701896397 / 2 ^ 55)
     (fdiv binary64
        (fmul binary64
           (fsub binary64 (5404319552844595 / 2 ^ 54) (3602879701896397 / 2 ^ 55))
           (fsub binary64 300 200))
        (fsub binary64 300 200))
   = 5404319552844596 / 2 ^ 54"
proof -
  have a: "fsub binary64 (5404319552844595 / 2 ^ 54) (3602879701896397 / 2 ^ 55)
           = 7205759403792793 / 2 ^ 55"
    unfolding binary64_ops by (simp add: round_eval)
  have b: "fsub binary64 300 200 = 100"
    unfolding binary64_ops by (simp add: round_eval)
  have c: "fmul binary64 (7205759403792793 / 2 ^ 55) 100 = 20"
    unfolding binary64_ops by (simp add: round_eval)
  have d: "fdiv binary64 20 100 = 3602879701896397 / 2 ^ 54"
    unfolding binary64_ops by (simp add: round_eval)
  have e: "fadd binary64 (3602879701896397 / 2 ^ 55) (3602879701896397 / 2 ^ 54)
           = 5404319552844596 / 2 ^ 54"
    unfolding binary64_ops by (simp add: round_eval)
  show ?thesis unfolding a b c d e ..
qed

lemma tenths_at_250:
  "fadd binary64 (3602879701896397 / 2 ^ 55)
     (fdiv binary64
        (fmul binary64
           (fsub binary64 (5404319552844595 / 2 ^ 54) (3602879701896397 / 2 ^ 55))
           (fsub binary64 250 200))
        (fsub binary64 300 200))
   = 3602879701896397 / 2 ^ 54"
proof -
  have a: "fsub binary64 (5404319552844595 / 2 ^ 54) (3602879701896397 / 2 ^ 55)
           = 7205759403792793 / 2 ^ 55"
    unfolding binary64_ops by (simp add: round_eval)
  have b: "fsub binary64 250 200 = 50" "fsub binary64 300 200 = 100"
    unfolding binary64_ops by (simp_all add: round_eval)
  have c: "fmul binary64 (7205759403792793 / 2 ^ 55) 50 = 10"
    unfolding binary64_ops by (simp add: round_eval)
  have d: "fdiv binary64 10 100 = 3602879701896397 / 2 ^ 55"
    unfolding binary64_ops by (simp add: round_eval)
  have e: "fadd binary64 (3602879701896397 / 2 ^ 55) (3602879701896397 / 2 ^ 55)
           = 3602879701896397 / 2 ^ 54"
    unfolding binary64_ops by (simp add: round_eval)
  show ?thesis unfolding a b c d e ..
qed

text \<open>
  At the interior sample point \<open>x = 300\<close> of that table the result in \<open>double\<close> arithmetic
  is the next number above the stored \<open>0.3\<close>.
\<close>

theorem linear_interp_rounds_at_sample:
  "linear_interp_in binary64
     (fst ([(200, round_double (1 / 10)), (300, round_double (3 / 10)),
            (400, round_double (13 / 10))] ! 1))
     [(200, round_double (1 / 10)), (300, round_double (3 / 10)), (400, round_double (13 / 10))]
   = Some (5404319552844596 / 2 ^ 54)
   \<and> snd ([(200, round_double (1 / 10)), (300, round_double (3 / 10)),
           (400, round_double (13 / 10))] ! 1)
     = 5404319552844595 / 2 ^ 54
   \<and> linear_interp_in binary64
       (fst ([(200, round_double (1 / 10)), (300, round_double (3 / 10)),
              (400, round_double (13 / 10))] ! 1))
       [(200, round_double (1 / 10)), (300, round_double (3 / 10)), (400, round_double (13 / 10))]
     \<noteq> Some (snd ([(200, round_double (1 / 10)), (300, round_double (3 / 10)),
                    (400, round_double (13 / 10))] ! 1))"
proof -
  define D :: "(real \<times> real) list" where
    "D = [(200, 3602879701896397 / 2 ^ 55), (300, 5404319552844595 / 2 ^ 54),
          (400, 5854679515581645 / 2 ^ 52)]"
  have inc: "sorted_wrt (<) (map fst D)" by (simp add: D_def)
  have entries:
    "fst (D ! 0) = 200" "snd (D ! 0) = 3602879701896397 / 2 ^ 55"
    "fst (D ! Suc 0) = 300" "snd (D ! Suc 0) = 5404319552844595 / 2 ^ 54"
    by (simp_all add: D_def)
  have "linear_interp_in binary64 300 D =
        Some (fadd binary64 (snd (D ! 0))
                (fdiv binary64 (fmul binary64 (fsub binary64 (snd (D ! Suc 0)) (snd (D ! 0)))
                                              (fsub binary64 300 (fst (D ! 0))))
                               (fsub binary64 (fst (D ! Suc 0)) (fst (D ! 0)))))"
    by (rule linear_interp_in_between [OF inc]) (simp_all add: D_def)
  then have v: "linear_interp_in binary64 300 D = Some (5404319552844596 / 2 ^ 54)"
    unfolding entries tenths_at_300 .
  have i: "fst (D ! 1) = 300" and s: "snd (D ! 1) = 5404319552844595 / 2 ^ 54"
    by (simp_all add: D_def)
  show ?thesis
    unfolding tenths_table D_def [symmetric] i s v by simp
qed

theorem linear_interp_in_table_witness:
  "[(200, round_double (1 / 10)), (300, round_double (3 / 10)), (400, round_double (13 / 10))]
     \<noteq> ([] :: (real \<times> real) list)
   \<and> sorted_wrt (<) (map fst [(200, round_double (1 / 10)), (300, round_double (3 / 10)),
                               (400, round_double (13 / 10))] :: real list)
   \<and> linear_interp_in binary64 100
       [(200, round_double (1 / 10)), (300, round_double (3 / 10)), (400, round_double (13 / 10))]
     = Some (round_double (1 / 10))
   \<and> linear_interp_in binary64 500
       [(200, round_double (1 / 10)), (300, round_double (3 / 10)), (400, round_double (13 / 10))]
     = Some (round_double (13 / 10))
   \<and> lower_bound
       [(200, round_double (1 / 10)), (300, round_double (3 / 10)), (400, round_double (13 / 10))]
       250 = 1
   \<and> linear_interp_in binary64 250
       [(200, round_double (1 / 10)), (300, round_double (3 / 10)), (400, round_double (13 / 10))]
     = Some (3602879701896397 / 2 ^ 54)
   \<and> linear_interp_in exact_arith 300
       [(200, round_double (1 / 10)), (300, round_double (3 / 10)), (400, round_double (13 / 10))]
     = Some (round_double (3 / 10))"
proof -
  define D :: "(real \<times> real) list" where
    "D = [(200, 3602879701896397 / 2 ^ 55), (300, 5404319552844595 / 2 ^ 54),
          (400, 5854679515581645 / 2 ^ 52)]"
  have h1: "D \<noteq> []" by (simp add: D_def)
  have h2: "sorted_wrt (<) (map fst D)" by (simp add: D_def)
  have entries:
    "fst (D ! 0) = 200" "snd (D ! 0) = 3602879701896397 / 2 ^ 55"
    "fst (D ! Suc 0) = 300" "snd (D ! Suc 0) = 5404319552844595 / 2 ^ 54"
    by (simp_all add: D_def)
  have lo: "linear_interp_in binary64 100 D = Some (3602879701896397 / 2 ^ 55)"
    using linear_interp_in_table [OF h1 h2, of 100 binary64] by (simp add: D_def)
  have hi: "linear_interp_in binary64 500 D = Some (5854679515581645 / 2 ^ 52)"
    using linear_interp_in_table [OF h1 h2, of 500 binary64] by (simp add: D_def)
  have "Suc 0 < length D \<and> fst (D ! 0) < 250 \<and> 250 \<le> fst (D ! Suc 0) \<and> 250 < fst (last D) \<longrightarrow>
          lower_bound D 250 = Suc 0
        \<and> linear_interp_in binary64 250 D =
            Some (fadd binary64 (snd (D ! 0))
                    (fdiv binary64 (fmul binary64 (fsub binary64 (snd (D ! Suc 0)) (snd (D ! 0)))
                                                  (fsub binary64 250 (fst (D ! 0))))
                                   (fsub binary64 (fst (D ! Suc 0)) (fst (D ! 0)))))"
    using linear_interp_in_table [OF h1 h2, of 250 binary64] by blast
  moreover have "Suc 0 < length D \<and> fst (D ! 0) < 250 \<and> 250 \<le> fst (D ! Suc 0)
                 \<and> 250 < fst (last D)"
    by (simp add: D_def)
  ultimately have "lower_bound D 250 = Suc 0
        \<and> linear_interp_in binary64 250 D =
            Some (fadd binary64 (snd (D ! 0))
                    (fdiv binary64 (fmul binary64 (fsub binary64 (snd (D ! Suc 0)) (snd (D ! 0)))
                                                  (fsub binary64 250 (fst (D ! 0))))
                                   (fsub binary64 (fst (D ! Suc 0)) (fst (D ! 0)))))"
    by (rule mp)
  then have mid: "lower_bound D 250 = Suc 0
                  \<and> linear_interp_in binary64 250 D = Some (3602879701896397 / 2 ^ 54)"
    unfolding entries tenths_at_250 .
  have "\<forall>k<length D. linear_interp_in exact_arith (fst (D ! k)) D = Some (snd (D ! k))"
    using linear_interp_in_table [OF h1 h2, of 0 binary64] by blast
  then have "1 < length D \<longrightarrow> linear_interp_in exact_arith (fst (D ! 1)) D = Some (snd (D ! 1))"
    by (rule spec)
  then have at: "linear_interp_in exact_arith 300 D = Some (5404319552844595 / 2 ^ 54)"
    by (simp add: D_def)
  show ?thesis
    unfolding round_double_tenth round_double_three_tenths round_double_thirteen_tenths
      D_def [symmetric]
    using h1 h2 lo hi mid at by simp
qed

subsection \<open>The interpolated derivative\<close>

lemma deriv_clamp_range:
  assumes n2: "2 \<le> length data"
    and inc: "sorted_wrt (<) (map fst data)"
    and nudge: "x \<le> fst (data ! 0) \<longrightarrow> fst (data ! 0) < fadd ar (fst (data ! 0)) (deriv_eps ar)"
  shows "fst (data ! 0) < deriv_clamp ar x data \<and> deriv_clamp ar x data \<le> fst (last data)"
proof -
  have "fst (data ! 0) < fst (data ! (length data - 1))"
    using strict_nth_less [OF inc, of 0 "length data - 1"] n2 by simp
  moreover have "last data = data ! (length data - 1)"
    using n2 by (intro last_conv_nth) auto
  ultimately have "fst (data ! 0) < fst (last data)" by simp
  then show ?thesis
    using nudge by (auto simp: deriv_clamp_def Let_def)
qed

lemma evaluate_derivative_cases:
  assumes k: "k < length data" and n2: "2 \<le> length data"
  shows "evaluate_derivative ar data k =
         Some (if k = 0 then
                 fdiv ar (fsub ar (snd (data ! 1)) (snd (data ! 0)))
                         (fsub ar (fst (data ! 1)) (fst (data ! 0)))
               else if k = length data - 1 then
                 fdiv ar (fsub ar (snd (data ! k)) (snd (data ! (k - 1))))
                         (fsub ar (fst (data ! k)) (fst (data ! (k - 1))))
               else
                 fdiv ar (fsub ar (snd (data ! (k + 1))) (snd (data ! (k - 1))))
                         (fsub ar (fst (data ! (k + 1))) (fst (data ! (k - 1)))))"
  using k n2 by (simp add: evaluate_derivative_def)

text \<open>
  C5 (as the code has it). Take a table of at least two samples with strictly increasing
  abscissae, any arithmetic, and an \<open>x\<close> that is either above \<open>x_min\<close> or for which the
  computed sum \<open>x_min + eps\<close> (\<open>eps\<close> the literal \<^verbatim>\<open>1e-10\<close>) is above \<open>x_min\<close>. Then
  \<open>deriv_linear_interp\<close> moves \<open>x\<close> into the half-open interval \<open>(x_min, x_max]\<close>: an \<open>x\<close>
  strictly inside is kept, an \<open>x\<close> at or below \<open>x_min\<close> becomes the computed \<open>x_min + eps\<close>
  (or \<open>x_max\<close> if that is smaller), an \<open>x\<close> at or above \<open>x_max\<close> becomes \<open>x_max\<close> itself.
  The binary search then returns an index \<open>it\<close> with \<open>0 < it < n\<close> whose left neighbour lies
  strictly below and which itself lies at or above the moved \<open>x\<close>; the result is the value,
  in that arithmetic, of \<open>ditp + (dit - ditp) * (x - x\<^bsub>it-1\<^esub>) / (x\<^bsub>it\<^esub> - x\<^bsub>it-1\<^esub>)\<close> for the
  derivative estimates \<open>ditp\<close> and \<open>dit\<close> at the two samples and the moved \<open>x\<close>. The estimate
  at a sample is the forward difference at the first sample, the backward difference at the
  last one and the central difference in between.
\<close>

theorem deriv_linear_interp_blend:
  assumes n2: "2 \<le> length data"
    and inc: "sorted_wrt (<) (map fst data)"
    and nudge: "x \<le> fst (hd data) \<longrightarrow> fst (hd data) < fadd ar (fst (hd data)) (deriv_eps ar)"
  shows "fst (hd data) < deriv_clamp ar x data \<and> deriv_clamp ar x data \<le> fst (last data)
       \<and> (fst (hd data) < x \<and> x < fst (last data) \<longrightarrow> deriv_clamp ar x data = x)
       \<and> (x \<le> fst (hd data) \<longrightarrow>
            deriv_clamp ar x data
            = min (fadd ar (fst (hd data)) (deriv_eps ar)) (fst (last data)))
       \<and> (x \<ge> fst (last data) \<longrightarrow> deriv_clamp ar x data = fst (last data))
       \<and> 0 < lower_bound data (deriv_clamp ar x data)
       \<and> lower_bound data (deriv_clamp ar x data) < length data
       \<and> fst (data ! (lower_bound data (deriv_clamp ar x data) - 1)) < deriv_clamp ar x data
       \<and> deriv_clamp ar x data \<le> fst (data ! lower_bound data (deriv_clamp ar x data))
       \<and> (\<exists>dit ditp.
             evaluate_derivative ar data (lower_bound data (deriv_clamp ar x data)) = Some dit
           \<and> evaluate_derivative ar data (lower_bound data (deriv_clamp ar x data) - 1)
             = Some ditp
           \<and> deriv_linear_interp ar x data =
               Some (fadd ar ditp
                      (fdiv ar
                        (fmul ar (fsub ar dit ditp)
                           (fsub ar (deriv_clamp ar x data)
                              (fst (data ! (lower_bound data (deriv_clamp ar x data) - 1)))))
                        (fsub ar (fst (data ! lower_bound data (deriv_clamp ar x data)))
                           (fst (data ! (lower_bound data (deriv_clamp ar x data) - 1)))))))
       \<and> (\<forall>k<length data.
             evaluate_derivative ar data k =
               Some (if k = 0 then
                       fdiv ar (fsub ar (snd (data ! 1)) (snd (data ! 0)))
                               (fsub ar (fst (data ! 1)) (fst (data ! 0)))
                     else if k = length data - 1 then
                       fdiv ar (fsub ar (snd (data ! k)) (snd (data ! (k - 1))))
                               (fsub ar (fst (data ! k)) (fst (data ! (k - 1))))
                     else
                       fdiv ar (fsub ar (snd (data ! (k + 1))) (snd (data ! (k - 1))))
                               (fsub ar (fst (data ! (k + 1))) (fst (data ! (k - 1))))))"
proof -
  have ne: "data \<noteq> []" using n2 by auto
  have hd0: "hd data = data ! 0" using ne by (simp add: hd_conv_nth)
  define xc where "xc = deriv_clamp ar x data"
  define r where "r = lower_bound data xc"
  have nudge0: "x \<le> fst (data ! 0) \<longrightarrow> fst (data ! 0) < fadd ar (fst (data ! 0)) (deriv_eps ar)"
    using nudge by (simp add: hd0)
  have rng: "fst (data ! 0) < xc" "xc \<le> fst (last data)"
    using deriv_clamp_range [OF n2 inc nudge0] by (simp_all add: xc_def)
  have rng': "fst (hd data) < xc" using rng(1) by (simp add: hd0)
  have inside: "fst (hd data) < x \<and> x < fst (last data) \<longrightarrow> xc = x"
    by (auto simp: xc_def deriv_clamp_def Let_def hd0)
  have below: "x \<le> fst (hd data) \<longrightarrow>
               xc = min (fadd ar (fst (hd data)) (deriv_eps ar)) (fst (last data))"
    by (auto simp: xc_def deriv_clamp_def Let_def hd0 min_def)
  have "fst (data ! 0) < fst (last data)" using rng by simp
  then have above: "x \<ge> fst (last data) \<longrightarrow> xc = fst (last data)"
    by (auto simp: xc_def deriv_clamp_def Let_def)
  have p1: "r \<le> length data"
    and p2: "r = 0 \<or> fst (data ! (r - 1)) < xc"
    and p3: "r = length data \<or> xc \<le> fst (data ! r)"
    using lower_bound_props [of data xc] by (simp_all add: r_def)
  have r0: "0 < r" using p3 rng(1) ne by (cases "r = 0") auto
  have rn: "r < length data"
  proof (rule ccontr)
    assume "\<not> r < length data"
    then have "r = length data" using p1 by simp
    then have "fst (last data) < xc" using p2 r0 ne by (simp add: last_conv_nth)
    then show False using rng(2) by simp
  qed
  have br: "fst (data ! (r - 1)) < xc" "xc \<le> fst (data ! r)"
    using p2 p3 r0 rn by simp_all
  obtain dit where dit: "evaluate_derivative ar data r = Some dit"
    using evaluate_derivative_cases [OF rn n2] by blast
  have "r - 1 < length data" using rn by simp
  then obtain ditp where ditp: "evaluate_derivative ar data (r - 1) = Some ditp"
    using evaluate_derivative_cases [OF _ n2, of "r - 1"] by blast
  have res: "deriv_linear_interp ar x data =
        Some (fadd ar ditp
               (fdiv ar (fmul ar (fsub ar dit ditp) (fsub ar xc (fst (data ! (r - 1)))))
                        (fsub ar (fst (data ! r)) (fst (data ! (r - 1))))))"
    using ne r0 rn dit ditp
    by (simp add: deriv_linear_interp_def Let_def xc_def [symmetric] r_def [symmetric])
  have ev: "\<forall>k<length data.
             evaluate_derivative ar data k =
               Some (if k = 0 then
                       fdiv ar (fsub ar (snd (data ! 1)) (snd (data ! 0)))
                               (fsub ar (fst (data ! 1)) (fst (data ! 0)))
                     else if k = length data - 1 then
                       fdiv ar (fsub ar (snd (data ! k)) (snd (data ! (k - 1))))
                               (fsub ar (fst (data ! k)) (fst (data ! (k - 1))))
                     else
                       fdiv ar (fsub ar (snd (data ! (k + 1))) (snd (data ! (k - 1))))
                               (fsub ar (fst (data ! (k + 1))) (fst (data ! (k - 1)))))"
    using evaluate_derivative_cases [OF _ n2] by blast
  have ex: "\<exists>dit ditp. evaluate_derivative ar data r = Some dit
           \<and> evaluate_derivative ar data (r - 1) = Some ditp
           \<and> deriv_linear_interp ar x data =
               Some (fadd ar ditp
                      (fdiv ar (fmul ar (fsub ar dit ditp) (fsub ar xc (fst (data ! (r - 1)))))
                               (fsub ar (fst (data ! r)) (fst (data ! (r - 1))))))"
    using dit ditp res by blast
  from rng' rng(2) inside below above r0 rn br ex ev
  show ?thesis
    unfolding r_def xc_def by blast
qed

text \<open>
  The moved \<open>x\<close> is not always strictly inside the table: above the table it is the last
  abscissa itself.
\<close>

theorem deriv_clamp_not_open:
  "deriv_clamp binary64 5 [(0, 0), (1, 1)] = fst (last [(0, 0), (1, 1 :: real)])
   \<and> \<not> deriv_clamp binary64 5 [(0, 0), (1, 1)] < fst (last [(0, 0), (1, 1 :: real)])"
  by (simp add: deriv_clamp_def)

text \<open>
  The condition on the nudge is needed in \<^verbatim>\<open>double\<close> arithmetic. On the table
  \<open>{{4194304, 0}, {4194305, 1}}\<close> the sum \<open>4194304 + 1e-10\<close> rounds back to \<open>4194304\<close>; for
  \<open>x = 0\<close> the moved \<open>x\<close> is the first abscissa itself, the binary search returns the first
  sample and \<^verbatim>\<open>it - 1\<close> lies before the table.
\<close>

lemma deriv_nudge_absorbed:
  "fadd binary64 4194304 (deriv_eps binary64) = 4194304
   \<and> deriv_clamp binary64 0 [(4194304, 0), (4194305, 1)] = 4194304
   \<and> lower_bound [(4194304, 0), (4194305, 1)] 4194304 = 0
   \<and> deriv_linear_interp binary64 0 [(4194304, 0), (4194305, 1)] = None"
proof -
  have a: "fadd binary64 4194304 (deriv_eps binary64) = 4194304"
    unfolding deriv_eps_binary64 binary64_ops by (simp add: round_eval)
  have c: "deriv_clamp binary64 0 [(4194304, 0), (4194305, 1)] = 4194304"
    by (simp add: deriv_clamp_def a)
  have l: "lower_bound [(4194304, 0), (4194305, 1)] 4194304 = 0"
    by (simp add: lower_bound_def lower_bound_from.simps)
  have d: "deriv_linear_interp binary64 0 [(4194304, 0), (4194305, 1)] = None"
    by (simp add: deriv_linear_interp_def c l)
  from a c l d show ?thesis by blast
qed

theorem deriv_linear_interp_blend_witness:
  "2 \<le> length ([(0, 0), (1, 1), (2, 4)] :: (real \<times> real) list)
   \<and> sorted_wrt (<) (map fst [(0, 0), (1, 1), (2, 4 :: real)] :: real list)
   \<and> fst (hd [(0, 0), (1, 1), (2, 4 :: real)])
       < fadd binary64 (fst (hd [(0, 0), (1, 1), (2, 4 :: real)])) (deriv_eps binary64)
   \<and> deriv_clamp binary64 (- 1) [(0, 0), (1, 1), (2, 4)] = 7737125245533627 / 2 ^ 86
   \<and> lower_bound [(0, 0), (1, 1), (2, 4)] (7737125245533627 / 2 ^ 86) = 1
   \<and> evaluate_derivative binary64 [(0, 0), (1, 1), (2, 4)] 0 = Some 1
   \<and> evaluate_derivative binary64 [(0, 0), (1, 1), (2, 4)] 1 = Some 2
   \<and> deriv_linear_interp binary64 (- 1) [(0, 0), (1, 1), (2, 4)]
     = Some (4503599627820856 / 2 ^ 52)
   \<and> deriv_clamp binary64 (3 / 2) [(0, 0), (1, 1), (2, 4)] = 3 / 2
   \<and> deriv_clamp binary64 5 [(0, 0), (1, 1), (2, 4)] = 2"
proof -
  define D :: "(real \<times> real) list" where "D = [(0, 0), (1, 1), (2, 4)]"
  define e :: real where "e = 7737125245533627 / 2 ^ 86"
  have h1: "2 \<le> length D" by (simp add: D_def)
  have h2: "sorted_wrt (<) (map fst D)" by (simp add: D_def)
  have s: "fadd binary64 0 (deriv_eps binary64) = e"
    unfolding deriv_eps_binary64 binary64_ops e_def by (simp add: round_eval)
  have e0: "0 < e" "e < 1" by (simp_all add: e_def)
  have hd: "fst (hd D) = 0" "fst (last D) = 2" by (simp_all add: D_def)
  have h3: "fst (hd D) < fadd binary64 (fst (hd D)) (deriv_eps binary64)"
    unfolding hd s by (rule e0)
  then have h3': "- 1 \<le> fst (hd D) \<longrightarrow> fst (hd D) < fadd binary64 (fst (hd D)) (deriv_eps binary64)"
    by simp
  note t = deriv_linear_interp_blend [OF h1 h2 h3']
  have "deriv_clamp binary64 (- 1) D
        = min (fadd binary64 (fst (hd D)) (deriv_eps binary64)) (fst (last D))"
    using t hd by simp
  then have c: "deriv_clamp binary64 (- 1) D = e"
    unfolding hd s using e0 by simp
  have r0: "0 < lower_bound D e" and r3: "lower_bound D e < length D"
    and up: "e \<le> fst (D ! lower_bound D e)"
    and lo: "fst (D ! (lower_bound D e - 1)) < e"
    using t unfolding c by blast+
  have r: "lower_bound D e = 1"
  proof -
    have "lower_bound D e = 1 \<or> lower_bound D e = 2"
      using r0 r3 by (auto simp: D_def)
    moreover have "lower_bound D e \<noteq> 2"
    proof
      assume "lower_bound D e = 2"
      with lo have "fst (D ! (2 - 1)) < e" by simp
      then show False using e0 by (simp add: D_def)
    qed
    ultimately show ?thesis by simp
  qed
  have ops: "fsub binary64 1 0 = 1" "fsub binary64 4 0 = 4" "fsub binary64 2 0 = 2"
    "fdiv binary64 1 1 = 1" "fdiv binary64 4 2 = 2" "fsub binary64 2 1 = 1"
    unfolding binary64_ops by (simp_all add: round_eval)
  have "\<forall>k<length D.
          evaluate_derivative binary64 D k =
            Some (if k = 0 then
                    fdiv binary64 (fsub binary64 (snd (D ! 1)) (snd (D ! 0)))
                                  (fsub binary64 (fst (D ! 1)) (fst (D ! 0)))
                  else if k = length D - 1 then
                    fdiv binary64 (fsub binary64 (snd (D ! k)) (snd (D ! (k - 1))))
                                  (fsub binary64 (fst (D ! k)) (fst (D ! (k - 1))))
                  else
                    fdiv binary64 (fsub binary64 (snd (D ! (k + 1))) (snd (D ! (k - 1))))
                                  (fsub binary64 (fst (D ! (k + 1))) (fst (D ! (k - 1)))))"
    using t by blast
  then have e1: "evaluate_derivative binary64 D 0 = Some 1"
    and e2: "evaluate_derivative binary64 D 1 = Some 2"
    by (simp_all add: D_def ops)
  obtain dit ditp where d: "evaluate_derivative binary64 D 1 = Some dit"
      "evaluate_derivative binary64 D (1 - 1) = Some ditp"
      "deriv_linear_interp binary64 (- 1) D =
         Some (fadd binary64 ditp
                (fdiv binary64 (fmul binary64 (fsub binary64 dit ditp)
                                  (fsub binary64 e (fst (D ! (1 - 1)))))
                               (fsub binary64 (fst (D ! 1)) (fst (D ! (1 - 1))))))"
    using t unfolding c r by blast
  have v: "dit = 2" "ditp = 1" using d(1,2) e1 e2 by simp_all
  have x: "fst (D ! (1 - 1)) = 0" "fst (D ! 1) = 1" by (simp_all add: D_def)
  have blend: "fadd binary64 1 (fdiv binary64 (fmul binary64 (fsub binary64 2 1)
                 (fsub binary64 e 0)) (fsub binary64 1 0)) = 4503599627820856 / 2 ^ 52"
  proof -
    have b1: "fsub binary64 e 0 = e" unfolding binary64_ops e_def by (simp add: round_eval)
    have b2: "fmul binary64 1 e = e" unfolding binary64_ops e_def by (simp add: round_eval)
    have b3: "fdiv binary64 e 1 = e" unfolding binary64_ops e_def by (simp add: round_eval)
    have b4: "fadd binary64 1 e = 4503599627820856 / 2 ^ 52"
      unfolding binary64_ops e_def by (simp add: round_eval)
    show ?thesis unfolding ops b1 b2 b3 b4 ..
  qed
  have res: "deriv_linear_interp binary64 (- 1) D = Some (4503599627820856 / 2 ^ 52)"
    using d(3) unfolding v x blend .
  have "3 / 2 \<le> fst (hd D) \<longrightarrow> fst (hd D) < fadd binary64 (fst (hd D)) (deriv_eps binary64)"
    by (simp add: D_def)
  note t_in = deriv_linear_interp_blend [OF h1 h2 this]
  have "fst (hd D) < 3 / 2 \<and> 3 / 2 < fst (last D)" by (simp add: D_def)
  with t_in have c_in: "deriv_clamp binary64 (3 / 2) D = 3 / 2" by blast
  have "5 \<le> fst (hd D) \<longrightarrow> fst (hd D) < fadd binary64 (fst (hd D)) (deriv_eps binary64)"
    by (simp add: D_def)
  note t_up = deriv_linear_interp_blend [OF h1 h2 this]
  have "5 \<ge> fst (last D)" by (simp add: D_def)
  with t_up have "deriv_clamp binary64 5 D = fst (last D)" by blast
  then have c_up: "deriv_clamp binary64 5 D = 2" by (simp add: D_def)
  show ?thesis
    using h1 h2 h3 c r e1 e2 res c_in c_up unfolding D_def e_def by blast
qed

subsection \<open>Conductivities\<close>

text \<open>
  C6. With \<open>T' = max 200 (min 1400 T)\<close> and a non-empty resistivity table, the resistivity
  at \<open>T'\<close> is defined, \<open>sigma T\<close> is its reciprocal, and \<open>kappa T\<close> is the Lorentz number
  \<open>2.443e-8\<close> times \<open>T'\<close> times \<open>sigma T'\<close>.
\<close>

theorem sigma_kappa_clamped:
  assumes ne: "resistivity_data p \<noteq> []"
  shows "\<exists>rho. evaluate_resistivity p (max 200 (min 1400 T)) = Some rho
             \<and> sigma p T = Some (1 / rho)
             \<and> sigma p (max 200 (min 1400 T)) = Some (1 / rho)
             \<and> kappa p T = Some (2443 / 10 ^ 11 * max 200 (min 1400 T) * (1 / rho))"
proof -
  have cl: "clamp_temperature T = max 200 (min 1400 T)"
    by (auto simp: clamp_temperature_def Let_def)
  have idem: "clamp_temperature (max 200 (min 1400 T)) = max 200 (min 1400 T)"
    by (auto simp: clamp_temperature_def Let_def)
  obtain y where y: "linear_interp (max 200 (min 1400 T)) (resistivity_data p) = Some y"
    using linear_interp_total [OF ne] by blast
  then have rho: "evaluate_resistivity p (max 200 (min 1400 T)) = Some (y * 10 ^ 9)"
    by (simp add: evaluate_resistivity_def)
  have s1: "sigma p T = Some (1 / (y * 10 ^ 9))"
    using rho by (simp add: sigma_def cl)
  have s2: "sigma p (max 200 (min 1400 T)) = Some (1 / (y * 10 ^ 9))"
    using rho by (simp add: sigma_def idem)
  have k: "kappa p T = Some (2443 / 10 ^ 11 * max 200 (min 1400 T) * (1 / (y * 10 ^ 9)))"
    using s2 by (simp add: kappa_def cl lorentz_def)
  from rho s1 s2 k show ?thesis by blast
qed

theorem sigma_kappa_clamped_witness:
  "resistivity_data \<lparr>resistivity_data = [(0, 2)], emission_current = (\<lambda>f t. 0),
                     nottingham_de = (\<lambda>f t. 0)\<rparr> \<noteq> []
   \<and> sigma \<lparr>resistivity_data = [(0, 2)], emission_current = (\<lambda>f t. 0),
            nottingham_de = (\<lambda>f t. 0)\<rparr> 100 = Some (1 / (2 * 10 ^ 9))
   \<and> kappa \<lparr>resistivity_data = [(0, 2)], emission_current = (\<lambda>f t. 0),
            nottingham_de = (\<lambda>f t. 0)\<rparr> 100 = Some (2443 / 10 ^ 11 * 200 * (1 / (2 * 10 ^ 9)))"
proof -
  define P where "P = \<lparr>resistivity_data = [(0, 2 :: real)], emission_current = (\<lambda>f t. 0 :: real),
                     nottingham_de = (\<lambda>f t. 0 :: real)\<rparr>"
  have h: "resistivity_data P \<noteq> []" by (simp add: P_def)
  have ev: "evaluate_resistivity P 200 = Some (2 * 10 ^ 9)"
    by (simp add: P_def evaluate_resistivity_def linear_interp_def)
  obtain rho where r: "evaluate_resistivity P (max 200 (min 1400 100)) = Some rho"
      "sigma P 100 = Some (1 / rho)"
      "kappa P 100 = Some (2443 / 10 ^ 11 * max 200 (min 1400 100) * (1 / rho))"
    using sigma_kappa_clamped [OF h, of 100] by blast
  from r(1) ev have "rho = 2 * 10 ^ 9" by simp
  with r(2,3) h show ?thesis unfolding P_def by simp
qed


section \<open>Verification: set-up\<close>

lemma fold_list_update_upt:
  "k \<le> length v \<Longrightarrow> fold (\<lambda>i w. w[i := a]) [0..<k] v = replicate k a @ drop k v"
proof (induction k)
  case 0
  then show ?case by simp
next
  case (Suc k)
  then have "k < length v" by simp
  then have "(replicate k a @ drop k v)[k := a] = replicate (Suc k) a @ drop (Suc k) v"
    by (simp add: list_update_append replicate_append_same Cons_nth_drop_Suc [symmetric])
  with Suc show ?case by simp
qed

lemma fold_fill_all: "fold (\<lambda>i w. w[i := a]) [0..<n] (replicate n b) = replicate n a"
  using fold_list_update_upt [of n "replicate n b" a] by simp

lemma setup_current_fields:
  "solution_current (fold (\<lambda>i s. s\<lparr>solution_current := (solution_current s)[i := a],
                                    old_solution_current := (old_solution_current s)[i := b]\<rparr>) xs st)
     = fold (\<lambda>i w. w[i := a]) xs (solution_current st)
   \<and> old_solution_current (fold (\<lambda>i s. s\<lparr>solution_current := (solution_current s)[i := a],
                                    old_solution_current := (old_solution_current s)[i := b]\<rparr>) xs st)
     = fold (\<lambda>i w. w[i := b]) xs (old_solution_current st)
   \<and> solution_heat (fold (\<lambda>i s. s\<lparr>solution_current := (solution_current s)[i := a],
                                    old_solution_current := (old_solution_current s)[i := b]\<rparr>) xs st)
     = solution_heat st
   \<and> old_solution_heat (fold (\<lambda>i s. s\<lparr>solution_current := (solution_current s)[i := a],
                                    old_solution_current := (old_solution_current s)[i := b]\<rparr>) xs st)
     = old_solution_heat st"
  by (induction xs arbitrary: st) simp_all

lemma setup_heat_fields:
  "solution_heat (fold (\<lambda>i s. s\<lparr>solution_heat := (solution_heat s)[i := a],
                                 old_solution_heat := (old_solution_heat s)[i := b],
                                 const_temperature_solution := (const_temperature_solution s)[i := c]\<rparr>) xs st)
     = fold (\<lambda>i w. w[i := a]) xs (solution_heat st)
   \<and> old_solution_heat (fold (\<lambda>i s. s\<lparr>solution_heat := (solution_heat s)[i := a],
                                 old_solution_heat := (old_solution_heat s)[i := b],
                                 const_temperature_solution := (const_temperature_solution s)[i := c]\<rparr>) xs st)
     = fold (\<lambda>i w. w[i := b]) xs (old_solution_heat st)
   \<and> solution_current (fold (\<lambda>i s. s\<lparr>solution_heat := (solution_heat s)[i := a],
                                 old_solution_heat := (old_solution_heat s)[i := b],
                                 const_temperature_solution := (const_temperature_solution s)[i := c]\<rparr>) xs st)
     = solution_current st
   \<and> old_solution_current (fold (\<lambda>i s. s\<lparr>solution_heat := (solution_heat s)[i := a],
                                 old_solution_heat := (old_solution_heat s)[i := b],
                                 const_temperature_solution := (const_temperature_solution s)[i := c]\<rparr>) xs st)
     = old_solution_current st"
  by (induction xs arbitrary: st) simp_all

lemma setup_current_system_vectors:
  "solution_current (setup_current_system msh st) = replicate (current_n_dofs msh) 0"
  "old_solution_current (setup_current_system msh st) = replicate (current_n_dofs msh) 0"
  "solution_heat (setup_current_system msh st) = solution_heat st"
  "old_solution_heat (setup_current_system msh st) = old_solution_heat st"
  by (simp_all add: setup_current_system_def Let_def setup_current_fields fold_fill_all)

lemma setup_heating_system_vectors:
  "solution_heat (setup_heating_system msh st) = replicate (heat_n_dofs msh) 300"
  "old_solution_heat (setup_heating_system msh st) = replicate (heat_n_dofs msh) 300"
  "solution_current (setup_heating_system msh st) = solution_current st"
  "old_solution_current (setup_heating_system msh st) = old_solution_current st"
  by (simp_all add: setup_heating_system_def Let_def setup_heat_fields fold_fill_all
        ambient_temperature_def)

text \<open>
  C10. After \<open>setup_heating_system\<close> the current and the previous temperature vector
  have one entry per degree of freedom and every entry is the ambient temperature 300;
  after \<open>setup_current_system\<close> the current and the previous potential vector are zero
  throughout; after both set-ups all four hold together.
\<close>

theorem setup_initial_state:
  "solution_heat (setup_heating_system msh st) = replicate (heat_n_dofs msh) 300
   \<and> old_solution_heat (setup_heating_system msh st) = replicate (heat_n_dofs msh) 300
   \<and> solution_current (setup_current_system msh st) = replicate (current_n_dofs msh) 0
   \<and> old_solution_current (setup_current_system msh st) = replicate (current_n_dofs msh) 0
   \<and> solution_heat (setup_heating_system msh (setup_current_system msh st))
       = replicate (heat_n_dofs msh) 300
   \<and> old_solution_heat (setup_heating_system msh (setup_current_system msh st))
       = replicate (heat_n_dofs msh) 300
   \<and> solution_current (setup_heating_system msh (setup_current_system msh st))
       = replicate (current_n_dofs msh) 0
   \<and> old_solution_current (setup_heating_system msh (setup_current_system msh st))
       = replicate (current_n_dofs msh) 0"
  by (simp add: setup_current_system_vectors setup_heating_system_vectors)

section \<open>Verification: the interface maps\<close>

subsection \<open>The loop over the interface faces\<close>

lemma for_interface_faces_fold:
  "for_interface_faces body msh s = fold (\<lambda>cf. body (fst cf) (snd cf)) (interface_faces msh) s"
proof -
  have inner: "fold (\<lambda>cf. body (fst cf) (snd cf))
                  (map (Pair c) (filter (\<lambda>f. boundary_id (faces c ! f) = copper_surface) fs)) t
             = fold (\<lambda>f s. if boundary_id (faces c ! f) = copper_surface then body c f s else s) fs t"
    for c fs t
    by (induction fs arbitrary: t) simp_all
  have "fold (\<lambda>cf. body (fst cf) (snd cf))
          (concat (map (\<lambda>c. map (Pair c)
                      (filter (\<lambda>f. boundary_id (faces c ! f) = copper_surface)
                              [0..<length (faces c)])) cs)) t
        = fold (\<lambda>c. fold (\<lambda>f s. if boundary_id (faces c ! f) = copper_surface
                                   then body c f s else s) [0..<length (faces c)]) cs t"
    for cs t
    by (induction cs arbitrary: t) (simp_all add: inner)
  then show ?thesis
    by (simp add: for_interface_faces_def interface_faces_def)
qed

lemma get_surface_nodes_faces:
  "get_surface_nodes msh = map face_center (interface_faces msh)"
proof -
  have "fold (\<lambda>cf nodes. nodes @ [center (faces (fst cf) ! snd cf)]) xs acc
        = acc @ map face_center xs" for xs acc
    by (induction xs arbitrary: acc) (simp_all add: face_center_def)
  then show ?thesis
    by (simp add: get_surface_nodes_def for_interface_faces_fold)
qed

lemma face_identity_cell:
  "cf \<in> set (interface_faces msh) \<Longrightarrow> fst cf \<in> set (cells msh)"
  by (auto simp: interface_faces_def)

lemma distinct_face_identities:
  assumes "distinct (map cell_index (cells msh))"
  shows "distinct (map face_identity (interface_faces msh))"
proof -
  have "distinct (map cell_index cs) \<Longrightarrow>
        distinct (map face_identity
          (concat (map (\<lambda>c. map (Pair c)
                      (filter (\<lambda>f. boundary_id (faces c ! f) = copper_surface)
                              [0..<length (faces c)])) cs)))" for cs
  proof (induction cs)
    case Nil
    then show ?case by simp
  next
    case (Cons c cs)
    have one: "distinct (map face_identity (map (Pair c)
                 (filter (\<lambda>f. boundary_id (faces c ! f) = copper_surface) [0..<length (faces c)])))"
      by (simp add: distinct_map inj_on_def face_identity_def)
    have two: "face_identity (c', f') \<notin> face_identity ` Pair c ` F" if "c' \<in> set cs" for c' f' F
    proof -
      have "cell_index c' \<in> cell_index ` set cs" using that by simp
      moreover have "cell_index c \<notin> cell_index ` set cs" using Cons.prems by simp
      ultimately have "cell_index c' \<noteq> cell_index c" by metis
      then show ?thesis by (auto simp: face_identity_def)
    qed
    have "distinct (map face_identity
          (concat (map (\<lambda>c. map (Pair c)
                      (filter (\<lambda>f. boundary_id (faces c ! f) = copper_surface)
                              [0..<length (faces c)])) cs)))"
      using Cons by simp
    then show ?case
      using one two by (fastforce simp: image_iff)
  qed
  with assms show ?thesis by (simp add: interface_faces_def)
qed

subsection \<open>Values in traversal order\<close>

lemma map_insert_fresh: "map_of m k = None \<Longrightarrow> map_insert (k, v) m = m @ [(k, v)]"
  by (simp add: map_insert_def)

lemma values_loop:
  "distinct (map face_identity ks) \<Longrightarrow>
   \<forall>k\<in>set ks. map_of m (face_identity k) = None \<Longrightarrow>
   i + length ks \<le> length vals \<Longrightarrow>
   fold (\<lambda>cf r. case r of
            Inl e \<Rightarrow> Inl e
          | Inr (m, i) \<Rightarrow>
              if i < length vals
              then Inr (map_insert ((cell_index (fst cf), snd cf), vals ! i) m, i + 1)
              else Inl UndefinedBehaviour)
        ks (Inr (m, i))
   = Inr (m @ zip (map face_identity ks) (take (length ks) (drop i vals)), i + length ks)"
proof (induction ks arbitrary: m i)
  case Nil
  then show ?case by simp
next
  case (Cons k ks)
  have i: "i < length vals" using Cons.prems(3) by simp
  have fresh: "map_of m (face_identity k) = None" using Cons.prems(2) by simp
  have ins: "map_insert ((cell_index (fst k), snd k), vals ! i) m = m @ [(face_identity k, vals ! i)]"
    using map_insert_fresh [OF fresh] by (simp add: face_identity_def)
  have rest: "\<forall>k'\<in>set ks. map_of (m @ [(face_identity k, vals ! i)]) (face_identity k') = None"
  proof
    fix k' assume k': "k' \<in> set ks"
    then have "face_identity k \<noteq> face_identity k'" using Cons.prems(1) by auto
    moreover have "map_of m (face_identity k') = None" using Cons.prems(2) k' by simp
    ultimately show "map_of (m @ [(face_identity k, vals ! i)]) (face_identity k') = None"
      by simp
  qed
  have dr: "drop i vals = vals ! i # drop (Suc i) vals"
    using i by (simp add: Cons_nth_drop_Suc)
  have "fold (\<lambda>cf r. case r of
            Inl e \<Rightarrow> Inl e
          | Inr (m, i) \<Rightarrow>
              if i < length vals
              then Inr (map_insert ((cell_index (fst cf), snd cf), vals ! i) m, i + 1)
              else Inl UndefinedBehaviour)
        ks (Inr (m @ [(face_identity k, vals ! i)], Suc i))
     = Inr ((m @ [(face_identity k, vals ! i)])
              @ zip (map face_identity ks) (take (length ks) (drop (Suc i) vals)),
            Suc i + length ks)"
    using Cons.prems(1,3) rest by (intro Cons.IH) simp_all
  then show ?case
    using i ins dr by simp
qed

lemma set_electric_field_bc_values_map:
  assumes d: "distinct (map cell_index (cells msh))"
    and l: "length elfields = length (interface_faces msh)"
  shows "set_electric_field_bc_values msh st elfields
         = Inr (st\<lparr>interface_map_field := zip (map face_identity (interface_faces msh)) elfields\<rparr>)"
proof -
  have "fold (\<lambda>cf r. case r of
            Inl e \<Rightarrow> Inl e
          | Inr (m, i) \<Rightarrow>
              if i < length elfields
              then Inr (map_insert ((cell_index (fst cf), snd cf), elfields ! i) m, i + 1)
              else Inl UndefinedBehaviour)
        (interface_faces msh) (Inr ([], 0))
     = Inr ([] @ zip (map face_identity (interface_faces msh))
                    (take (length (interface_faces msh)) (drop 0 elfields)),
            0 + length (interface_faces msh))"
    using distinct_face_identities [OF d] l by (intro values_loop) simp_all
  then show ?thesis
    using l [symmetric]
    by (simp add: set_electric_field_bc_values_def for_interface_faces_fold)
qed

lemma get_efield_bc_zip:
  assumes d: "distinct ks" and l: "length vals = length ks"
  shows "map (get_efield_bc (st\<lparr>interface_map_field := zip ks vals\<rparr>)) ks = map Inr vals"
proof (rule nth_equalityI)
  show "length (map (get_efield_bc (st\<lparr>interface_map_field := zip ks vals\<rparr>)) ks)
        = length (map Inr vals)"
    using l by simp
next
  fix j
  assume "j < length (map (get_efield_bc (st\<lparr>interface_map_field := zip ks vals\<rparr>)) ks)"
  then have j: "j < length ks" by simp
  then have ne: "zip ks vals \<noteq> []" using l by (cases ks; cases vals) auto
  have "map_of (zip ks vals) (ks ! j) = Some (vals ! j)"
    using map_of_zip_nth [of ks vals j] d l j by simp
  then show "map (get_efield_bc (st\<lparr>interface_map_field := zip ks vals\<rparr>)) ks ! j
             = map Inr vals ! j"
    using j l ne by (simp add: get_efield_bc_def)
qed

text \<open>
  C7. On a mesh whose cells have pairwise different indices, with one value per interface
  face: \<open>get_surface_nodes\<close> lists the centres of the interface faces in the order of the
  loop nest; \<open>set_electric_field_bc_values\<close> succeeds and pairs the \<open>i\<close>-th face of that
  order with the \<open>i\<close>-th value; and looking every interface face up in that order with
  \<open>get_efield_bc\<close> gives the values back in the order supplied.
\<close>

theorem set_electric_field_bc_values_roundtrip:
  assumes d: "distinct (map cell_index (cells msh))"
    and l: "length elfields = length (get_surface_nodes msh)"
  shows "get_surface_nodes msh = map face_center (interface_faces msh)
       \<and> (\<exists>st'. set_electric_field_bc_values msh st elfields = Inr st'
              \<and> interface_map_field st' = zip (map face_identity (interface_faces msh)) elfields
              \<and> map (get_efield_bc st') (map face_identity (interface_faces msh))
                  = map Inr elfields)"
proof -
  have l': "length elfields = length (interface_faces msh)"
    using l by (simp add: get_surface_nodes_faces)
  have "map (get_efield_bc
              (st\<lparr>interface_map_field := zip (map face_identity (interface_faces msh)) elfields\<rparr>))
            (map face_identity (interface_faces msh)) = map Inr elfields"
    using distinct_face_identities [OF d] l' by (intro get_efield_bc_zip) simp_all
  then show ?thesis
    using set_electric_field_bc_values_map [OF d l', of st] get_surface_nodes_faces [of msh]
    by simp
qed

lemma example_interface_faces:
  "interface_faces example_mesh = [(example_cell, 0), (example_cell, 1)]"
  by (simp add: interface_faces_def example_mesh_def example_cell_def example_face_def
        upt_rec [of 0] upt_rec [of 1] upt_rec [of 2])

theorem set_electric_field_bc_values_roundtrip_witness:
  "distinct (map cell_index (cells example_mesh))
   \<and> length [5, 7 :: real] = length (get_surface_nodes example_mesh)
   \<and> get_surface_nodes example_mesh = [[0, 0], [1, 0]]
   \<and> (\<exists>st'. set_electric_field_bc_values example_mesh example_state [5, 7] = Inr st'
          \<and> interface_map_field st' = [((0, 0), 5), ((0, 1), 7)]
          \<and> map (get_efield_bc st') [(0, 0), (0, 1)] = [Inr 5, Inr 7])"
proof -
  have h1: "distinct (map cell_index (cells example_mesh))"
    by (simp add: example_mesh_def)
  have nodes: "get_surface_nodes example_mesh = [[0, 0], [1, 0]]"
    by (simp add: get_surface_nodes_faces example_interface_faces face_center_def
          example_cell_def example_face_def)
  have h2: "length [5, 7 :: real] = length (get_surface_nodes example_mesh)"
    by (simp add: nodes)
  have ids: "map face_identity (interface_faces example_mesh) = [(0, 0), (0, 1)]"
    by (simp add: example_interface_faces face_identity_def example_cell_def)
  show ?thesis
    using set_electric_field_bc_values_roundtrip [OF h1 h2, of example_state] h1 h2 nodes
    unfolding ids by simp
qed

subsection \<open>The uniform field\<close>

text \<open>
  The uniform setter stores the scalar and leaves the per-face map as it is. With an empty
  map every look-up returns the scalar.
\<close>

lemma uniform_field_without_map:
  "interface_map_field st = [] \<Longrightarrow>
   get_efield_bc (set_electric_field_bc_uniform st c) cop_cell_info = Inr c"
  by (simp add: get_efield_bc_def set_electric_field_bc_uniform_def)

text \<open>
  C1. After the uniform setter every look-up should return the scalar, whatever the maps
  held before. On the small instance, after the values 5 and 7 have been set per face and
  the uniform field 2 has been set next, the map still holds both entries and the look-up
  of face \<open>(0, 0)\<close> returns 5, not 2.
\<close>

theorem uniform_field_after_values:
  "set_electric_field_bc_values example_mesh example_state [5, 7]
     = Inr (example_state\<lparr>interface_map_field := [((0, 0), 5), ((0, 1), 7)]\<rparr>)
   \<and> interface_map_field
       (set_electric_field_bc_uniform
          (example_state\<lparr>interface_map_field := [((0, 0), 5), ((0, 1), 7)]\<rparr>) 2)
     = [((0, 0), 5), ((0, 1), 7)]
   \<and> get_efield_bc
       (set_electric_field_bc_uniform
          (example_state\<lparr>interface_map_field := [((0, 0), 5), ((0, 1), 7)]\<rparr>) 2) (0, 0)
     = Inr 5
   \<and> get_efield_bc
       (set_electric_field_bc_uniform
          (example_state\<lparr>interface_map_field := [((0, 0), 5), ((0, 1), 7)]\<rparr>) 2) (0, 0)
     \<noteq> Inr 2"
proof -
  have h1: "distinct (map cell_index (cells example_mesh))"
    by (simp add: example_mesh_def)
  have h2: "length [5, 7 :: real] = length (interface_faces example_mesh)"
    by (simp add: example_interface_faces)
  have ids: "map face_identity (interface_faces example_mesh) = [(0, 0), (0, 1)]"
    by (simp add: example_interface_faces face_identity_def example_cell_def)
  have "set_electric_field_bc_values example_mesh example_state [5, 7]
     = Inr (example_state\<lparr>interface_map_field := [((0, 0), 5), ((0, 1), 7)]\<rparr>)"
    using set_electric_field_bc_values_map [OF h1 h2, of example_state] unfolding ids by simp
  then show ?thesis
    by (simp add: get_efield_bc_def set_electric_field_bc_uniform_def)
qed

subsection \<open>Matching against the vacuum side\<close>

lemma first_within_Some:
  "first_within p cs i = Some k \<Longrightarrow>
   i \<le> k \<and> k < length cs \<and> distance p (cs ! k) < match_eps
   \<and> (\<forall>j. i \<le> j \<and> j < k \<longrightarrow> \<not> distance p (cs ! j) < match_eps)"
proof (induction p cs i rule: first_within.induct)
  case (1 p cs i)
  show ?case
  proof (cases "i < length cs")
    case False
    with "1.prems" show ?thesis by (simp add: first_within.simps [of p cs i])
  next
    case True
    show ?thesis
    proof (cases "distance p (cs ! i) < match_eps")
      case hit: True
      with True "1.prems" have "k = i" by (simp add: first_within.simps [of p cs i])
      with True hit show ?thesis by simp
    next
      case miss: False
      with True "1.prems" have "first_within p cs (i + 1) = Some k"
        by (simp add: first_within.simps [of p cs i])
      then have ih: "i + 1 \<le> k \<and> k < length cs \<and> distance p (cs ! k) < match_eps
          \<and> (\<forall>j. i + 1 \<le> j \<and> j < k \<longrightarrow> \<not> distance p (cs ! j) < match_eps)"
        using "1.IH" [OF True miss] by simp
      have "\<not> distance p (cs ! j) < match_eps" if "i \<le> j" "j < k" for j
        using that ih miss by (cases "j = i") auto
      with ih show ?thesis by auto
    qed
  qed
qed

lemma first_within_None:
  "first_within p cs i = None \<Longrightarrow>
   \<forall>j. i \<le> j \<and> j < length cs \<longrightarrow> \<not> distance p (cs ! j) < match_eps"
proof (induction p cs i rule: first_within.induct)
  case (1 p cs i)
  show ?case
  proof (cases "i < length cs")
    case False
    then show ?thesis by simp
  next
    case True
    have miss: "\<not> distance p (cs ! i) < match_eps"
      using True "1.prems" by (auto simp: first_within.simps [of p cs i] split: if_splits)
    with True "1.prems" have "first_within p cs (i + 1) = None"
      by (simp add: first_within.simps [of p cs i])
    then have ih: "\<forall>j. i + 1 \<le> j \<and> j < length cs \<longrightarrow> \<not> distance p (cs ! j) < match_eps"
      using "1.IH" [OF True miss] by simp
    have "\<not> distance p (cs ! j) < match_eps" if "i \<le> j" "j < length cs" for j
      using that ih miss by (cases "j = i") auto
    then show ?thesis by simp
  qed
qed

lemma first_within_unique:
  assumes "i < length cs" "distance p (cs ! i) < match_eps"
    and "\<forall>j<i. \<not> distance p (cs ! j) < match_eps"
  shows "first_within p cs 0 = Some i"
proof (cases "first_within p cs 0")
  case None
  then show ?thesis using first_within_None [of p cs 0] assms by auto
next
  case (Some k)
  have k: "k < length cs" "distance p (cs ! k) < match_eps"
      "\<forall>j. j < k \<longrightarrow> \<not> distance p (cs ! j) < match_eps"
    using first_within_Some [OF Some] by auto
  have "\<not> k < i" using assms(3) k(2) by auto
  moreover have "\<not> i < k" using k(3) assms(2) by auto
  ultimately show ?thesis using Some by simp
qed

lemma first_within_none_iff:
  "first_within p cs 0 = None \<longleftrightarrow> (\<forall>i<length cs. \<not> distance p (cs ! i) < match_eps)"
proof
  assume "first_within p cs 0 = None"
  then show "\<forall>i<length cs. \<not> distance p (cs ! i) < match_eps"
    using first_within_None [of p cs 0] by simp
next
  assume a: "\<forall>i<length cs. \<not> distance p (cs ! i) < match_eps"
  show "first_within p cs 0 = None"
  proof (cases "first_within p cs 0")
    case None then show ?thesis .
  next
    case (Some k)
    then show ?thesis using first_within_Some [OF Some] a by auto
  qed
qed

lemma match_copper_face_fresh:
  assumes "map_of m (face_identity cf) = None"
  shows "match_copper_face cs ef (fst cf) (snd cf) (m, msgs) =
         (case first_within (face_center cf) cs 0 of
            Some i \<Rightarrow> (m @ [(face_identity cf, ef ! i)], msgs)
          | None \<Rightarrow> (m, msgs @ [mismatch_message]))"
  using assms
  by (auto simp: match_copper_face_def Let_def map_insert_def map_count_def face_identity_def
        face_center_def split: option.splits)

lemma laplace_loop:
  "distinct (map face_identity ks) \<Longrightarrow>
   \<forall>k\<in>set ks. map_of m (face_identity k) = None \<Longrightarrow>
   fold (\<lambda>cf. match_copper_face cs ef (fst cf) (snd cf)) ks (m, msgs)
   = (m @ List.map_filter
            (\<lambda>k. map_option (\<lambda>i. (face_identity k, ef ! i)) (first_within (face_center k) cs 0)) ks,
      msgs @ map (\<lambda>k. mismatch_message)
                (filter (\<lambda>k. first_within (face_center k) cs 0 = None) ks))"
proof (induction ks arbitrary: m msgs)
  case Nil
  then show ?case by simp
next
  case (Cons k ks)
  have fresh: "map_of m (face_identity k) = None" using Cons.prems(2) by simp
  have d: "distinct (map face_identity ks)" using Cons.prems(1) by simp
  have other: "face_identity k \<noteq> face_identity k'" if "k' \<in> set ks" for k'
    using Cons.prems(1) that by auto
  show ?case
  proof (cases "first_within (face_center k) cs 0")
    case None
    have "\<forall>k'\<in>set ks. map_of m (face_identity k') = None" using Cons.prems(2) by simp
    from Cons.IH [OF d this, of "msgs @ [mismatch_message]"] None fresh
    show ?thesis
      by (simp add: match_copper_face_fresh)
  next
    case (Some i)
    have "\<forall>k'\<in>set ks. map_of (m @ [(face_identity k, ef ! i)]) (face_identity k') = None"
      using Cons.prems(2) other [THEN not_sym] by simp
    from Cons.IH [OF d this, of msgs] Some fresh
    show ?thesis
      by (simp add: match_copper_face_fresh)
  qed
qed

lemma map_of_map_filter:
  "distinct (map g ks) \<Longrightarrow> k \<in> set ks \<Longrightarrow>
   map_of (List.map_filter (\<lambda>k. map_option (\<lambda>i. (g k, v i)) (h k)) ks) (g k) = map_option v (h k)"
proof (induction ks)
  case Nil
  then show ?case by simp
next
  case (Cons a ks)
  show ?case
  proof (cases "k = a")
    case True
    have "map_of (List.map_filter (\<lambda>k. map_option (\<lambda>i. (g k, v i)) (h k)) ks) (g a) = None"
    proof -
      have "g a \<notin> fst ` set (List.map_filter (\<lambda>k. map_option (\<lambda>i. (g k, v i)) (h k)) ks)"
        using Cons.prems(1) by (auto simp: List.map_filter_def image_iff)
      then show ?thesis by (simp add: map_of_eq_None_iff)
    qed
    with True show ?thesis
      by (cases "h a") simp_all
  next
    case False
    then have "k \<in> set ks" using Cons.prems(2) by simp
    moreover have "g a \<noteq> g k" using Cons.prems(1) \<open>k \<in> set ks\<close> by auto
    ultimately show ?thesis
      using Cons by (cases "h a") simp_all
  qed
qed

lemma set_electric_field_bc_laplace_result:
  assumes d: "distinct (map cell_index (cells msh))"
  shows "set_electric_field_bc_laplace msh st lap =
         (st\<lparr>interface_map_field :=
               List.map_filter
                 (\<lambda>k. map_option (\<lambda>i. (face_identity k, vacuum_interface_efield lap ! i))
                         (first_within (face_center k) (vacuum_interface_centers lap) 0))
                 (interface_faces msh)\<rparr>,
          map (\<lambda>k. mismatch_message)
            (filter (\<lambda>k. first_within (face_center k) (vacuum_interface_centers lap) 0 = None)
               (interface_faces msh)))"
  using laplace_loop [OF distinct_face_identities [OF d], of "[]"
          "vacuum_interface_centers lap" "vacuum_interface_efield lap" "[]"]
  by (simp add: set_electric_field_bc_laplace_def for_interface_faces_fold Let_def)

text \<open>
  C8. On a mesh whose cells have pairwise different indices, after
  \<open>set_electric_field_bc_laplace\<close>: an interface face for which centre \<open>i\<close> of the vacuum
  side is the first one closer than the tolerance is mapped to the field collected with
  centre \<open>i\<close>; an interface face with no centre within the tolerance has no entry; the map
  has no entries but for interface faces; and the lines written are one mismatch message per
  unmatched face. The function is total: it returns the state with the map of the matched
  faces in every case.
\<close>

theorem set_electric_field_bc_laplace_matching:
  assumes d: "distinct (map cell_index (cells msh))"
  shows "(\<forall>cf\<in>set (interface_faces msh).
            (\<forall>i<length (vacuum_interface_centers lap).
                distance (face_center cf) (vacuum_interface_centers lap ! i) < match_eps
                \<and> (\<forall>j<i. \<not> distance (face_center cf) (vacuum_interface_centers lap ! j) < match_eps)
                \<longrightarrow> map_of (interface_map_field (fst (set_electric_field_bc_laplace msh st lap)))
                           (face_identity cf)
                    = Some (vacuum_interface_efield lap ! i))
          \<and> ((\<forall>i<length (vacuum_interface_centers lap).
                  \<not> distance (face_center cf) (vacuum_interface_centers lap ! i) < match_eps)
                \<longrightarrow> map_of (interface_map_field (fst (set_electric_field_bc_laplace msh st lap)))
                           (face_identity cf)
                    = None))
       \<and> fst ` set (interface_map_field (fst (set_electric_field_bc_laplace msh st lap)))
           \<subseteq> face_identity ` set (interface_faces msh)
       \<and> snd (set_electric_field_bc_laplace msh st lap)
           = map (\<lambda>cf. mismatch_message)
               (filter (\<lambda>cf. \<forall>i<length (vacuum_interface_centers lap).
                                \<not> distance (face_center cf) (vacuum_interface_centers lap ! i)
                                   < match_eps)
                       (interface_faces msh))"
proof -
  define cs where "cs = vacuum_interface_centers lap"
  define ef where "ef = vacuum_interface_efield lap"
  define M where "M = List.map_filter
                 (\<lambda>k. map_option (\<lambda>i. (face_identity k, ef ! i)) (first_within (face_center k) cs 0))
                 (interface_faces msh)"
  have res: "set_electric_field_bc_laplace msh st lap =
         (st\<lparr>interface_map_field := M\<rparr>,
          map (\<lambda>k. mismatch_message)
            (filter (\<lambda>k. first_within (face_center k) cs 0 = None) (interface_faces msh)))"
    using set_electric_field_bc_laplace_result [OF d, of st lap]
    by (simp add: M_def cs_def ef_def)
  have look: "map_of M (face_identity cf) = map_option (\<lambda>i. ef ! i) (first_within (face_center cf) cs 0)"
    if "cf \<in> set (interface_faces msh)" for cf
    unfolding M_def
    using map_of_map_filter [OF distinct_face_identities [OF d] that,
            of "\<lambda>i. ef ! i" "\<lambda>k. first_within (face_center k) cs 0"]
    by simp
  have a: "map_of M (face_identity cf) = Some (ef ! i)"
    if "cf \<in> set (interface_faces msh)" "i < length cs"
       "distance (face_center cf) (cs ! i) < match_eps"
       "\<forall>j<i. \<not> distance (face_center cf) (cs ! j) < match_eps" for cf i
    using look [OF that(1)] first_within_unique [OF that(2,3,4)] by simp
  have b: "map_of M (face_identity cf) = None"
    if "cf \<in> set (interface_faces msh)"
       "\<forall>i<length cs. \<not> distance (face_center cf) (cs ! i) < match_eps" for cf
    using look [OF that(1)] that(2) by (simp add: first_within_none_iff)
  have c: "fst ` set M \<subseteq> face_identity ` set (interface_faces msh)"
    by (auto simp: M_def List.map_filter_def image_iff)
  have e: "map (\<lambda>k. mismatch_message)
            (filter (\<lambda>k. first_within (face_center k) cs 0 = None) (interface_faces msh))
         = map (\<lambda>cf. mismatch_message)
               (filter (\<lambda>cf. \<forall>i<length cs. \<not> distance (face_center cf) (cs ! i) < match_eps)
                       (interface_faces msh))"
    by (simp add: first_within_none_iff)
  show ?thesis
    unfolding res cs_def [symmetric] ef_def [symmetric]
    using a b c e by simp
qed

lemma example_vacuum_interface:
  "vacuum_interface example_laplace = [(2, [0, 0])]"
proof -
  have "sqrt 4 = 2" by (rule real_sqrt_four)
  then show ?thesis
    by (simp add: vacuum_interface_def example_laplace_def tensor_norm_def norm_square_def
          upt_rec [of 0] upt_rec [of 1])
qed

theorem set_electric_field_bc_laplace_matching_witness:
  "distinct (map cell_index (cells example_mesh))
   \<and> (example_cell, 0) \<in> set (interface_faces example_mesh)
   \<and> (example_cell, 1) \<in> set (interface_faces example_mesh)
   \<and> vacuum_interface_centers example_laplace = [[0, 0]]
   \<and> vacuum_interface_efield example_laplace = [2]
   \<and> distance (face_center (example_cell, 0)) [0, 0] < match_eps
   \<and> \<not> distance (face_center (example_cell, 1)) [0, 0] < match_eps
   \<and> map_of (interface_map_field
               (fst (set_electric_field_bc_laplace example_mesh example_state example_laplace)))
        (0, 0) = Some 2
   \<and> map_of (interface_map_field
               (fst (set_electric_field_bc_laplace example_mesh example_state example_laplace)))
        (0, 1) = None
   \<and> snd (set_electric_field_bc_laplace example_mesh example_state example_laplace)
       = [mismatch_message]"
proof -
  have h: "distinct (map cell_index (cells example_mesh))"
    by (simp add: example_mesh_def)
  note t = set_electric_field_bc_laplace_matching [OF h, of example_laplace example_state]
  have cs: "vacuum_interface_centers example_laplace = [[0, 0]]"
    by (simp add: vacuum_interface_centers_def example_vacuum_interface)
  have ef: "vacuum_interface_efield example_laplace = [2]"
    by (simp add: vacuum_interface_efield_def example_vacuum_interface)
  have f0: "(example_cell, 0) \<in> set (interface_faces example_mesh)"
    and f1: "(example_cell, 1) \<in> set (interface_faces example_mesh)"
    by (simp_all add: example_interface_faces)
  have d0: "distance (face_center (example_cell, 0)) [0, 0] < match_eps"
    by (simp add: face_center_def example_cell_def example_face_def distance_def match_eps_def)
  have d1: "\<not> distance (face_center (example_cell, 1)) [0, 0] < match_eps"
    by (simp add: face_center_def example_cell_def example_face_def distance_def match_eps_def)
  have id0: "face_identity (example_cell, 0) = (0, 0)"
    and id1: "face_identity (example_cell, 1) = (0, 1)"
    by (simp_all add: face_identity_def example_cell_def)
  have m0: "map_of (interface_map_field
               (fst (set_electric_field_bc_laplace example_mesh example_state example_laplace)))
        (0, 0) = Some 2"
    using t [unfolded cs ef, THEN conjunct1, THEN bspec, OF f0, THEN conjunct1, rule_format, of 0]
      d0
    by (simp add: id0)
  have m1: "map_of (interface_map_field
               (fst (set_electric_field_bc_laplace example_mesh example_state example_laplace)))
        (0, 1) = None"
    using t [unfolded cs ef, THEN conjunct1, THEN bspec, OF f1, THEN conjunct2, unfolded id1] d1
    by simp
  have lg: "snd (set_electric_field_bc_laplace example_mesh example_state example_laplace)
       = [mismatch_message]"
    using t [unfolded cs ef, THEN conjunct2, THEN conjunct2] d0 d1
    by (simp add: example_interface_faces)
  show ?thesis
    using h f0 f1 cs ef d0 d1 m0 m1 lg by blast
qed

section \<open>Verification: the small instance\<close>

lemma example_state_fields:
  "time_step example_state = 1"
  "uniform_efield_bc example_state = 1"
  "solution_current example_state = [0]"
  "old_solution_current example_state = [0]"
  "system_rhs_current example_state = [0]"
  "solution_heat example_state = [300]"
  "old_solution_heat example_state = [300]"
  "system_rhs_heat example_state = [0]"
  "pq example_state = Some example_pq"
  "interface_map_field example_state = []"
  "interface_map_emission_current example_state = []"
  "interface_map_nottingham example_state = []"
  by (simp_all add: example_state_def setup_heating_system_def setup_current_system_def
        currents_and_heating_def example_mesh_def ambient_temperature_def Let_def)

lemma example_sigma: "pq_sigma example_state 300 = Inr 1"
  by (simp add: pq_sigma_def example_state_fields sigma_def evaluate_resistivity_def
        linear_interp_def example_pq_def clamp_temperature_def)

lemma example_kappa: "pq_kappa example_state 300 = Inr (2443 / 10 ^ 11 * 300)"
  by (simp add: pq_kappa_def example_state_fields kappa_def sigma_def evaluate_resistivity_def
        linear_interp_def example_pq_def clamp_temperature_def lorentz_def)

lemma example_nottingham:
  "get_nottingham_heat_bc example_state k T = Inr (- 1)"
  by (simp add: get_nottingham_heat_bc_def get_efield_bc_def example_state_fields example_pq_def)

lemma example_emission:
  "get_emission_current_bc example_state k T = Inr 1"
  by (simp add: get_emission_current_bc_def get_efield_bc_def example_state_fields example_pq_def)

lemma example_cn_cell: "\<exists>r. crank_nicolson_cell example_state example_mesh example_cell = Inr r"
  by (simp add: crank_nicolson_cell_def crank_nicolson_volume_point_def crank_nicolson_face_def
        example_mesh_def example_cell_def example_face_def example_state_fields
        example_sigma example_kappa example_nottingham Let_def
        upt_rec [of 0] upt_rec [of 1] upt_rec [of 2])

section \<open>Verification: the solve stage\<close>

subsection \<open>The conjugate-gradient solver on a system with two unknowns\<close>

lemma sqrt_quarter: "sqrt (1 / 4) = 1 / 2"
  by (simp add: real_sqrt_divide)

lemma chain_vmult: "vmult chain_matrix [a, b] = [2 * a - b, 2 * b - a]"
  by (simp add: vmult_def chain_matrix_def upt_rec [of 0] upt_rec [of 1] lessThan_Suc
        numeral_2_eq_2)

lemma control_check_cases:
  "control_check \<lparr>max_steps = n, tolerance = tol\<rparr> step r =
     (if r \<le> tol then success else if n \<le> step then failure else iterate)"
  by (simp add: control_check_def)

lemma chain_first_step:
  assumes "tol < 1 / 2"
  shows "cg_loop ssor \<lparr>max_steps = n, tolerance = tol\<rparr> PreconditionIdentity chain_matrix
           0 [0, 0] [- 1, 0] [1, 0] 1
         = (if n \<le> 1 then ([1 / 2, 0], Inl (NoConvergence 1 (1 / 2)))
            else cg_loop ssor \<lparr>max_steps = n, tolerance = tol\<rparr> PreconditionIdentity
                   chain_matrix 1 [1 / 2, 0] [0, - 1 / 2] [1 / 4, 1 / 2] (1 / 4))"
  using assms
  by (subst cg_loop.simps)
     (simp add: chain_vmult dot_def vector_sadd_def l2_norm_def control_check_cases
        sqrt_quarter Let_def)

lemma chain_second_step:
  assumes "0 \<le> tol"
  shows "cg_loop ssor \<lparr>max_steps = n, tolerance = tol\<rparr> PreconditionIdentity chain_matrix
           1 [1 / 2, 0] [0, - 1 / 2] [1 / 4, 1 / 2] (1 / 4)
         = ([2 / 3, 1 / 3], Inr 2)"
  using assms
  by (subst cg_loop.simps)
     (simp add: chain_vmult dot_def vector_sadd_def l2_norm_def control_check_cases Let_def)

text \<open>
  The solve of the system \<open>2 x\<^sub>0 - x\<^sub>1 = 1\<close>, \<open>- x\<^sub>0 + 2 x\<^sub>1 = 0\<close> from the zero vector,
  without preconditioner and with a tolerance below \<open>1/2\<close>: the gradient has the norm \<open>1\<close>
  at the start, \<open>1/2\<close> after the first step and \<open>0\<close> after the second. With a cap of one
  step the solve raises \<open>NoConvergence\<close> after the first step; with a larger cap it returns
  after the second.
\<close>

lemma chain_solve:
  assumes "0 \<le> tol" and "tol < 1 / 2"
  shows "dealii_solver_cg ssor \<lparr>max_steps = n, tolerance = tol\<rparr> PreconditionIdentity
           chain_matrix [0, 0] [1, 0]
         = (if n = 0 then ([0, 0], Inr 0)
            else if n = 1 then ([1 / 2, 0], Inl (NoConvergence 1 (1 / 2)))
            else ([2 / 3, 1 / 3], Inr 2))"
proof -
  have "dealii_solver_cg ssor \<lparr>max_steps = n, tolerance = tol\<rparr> PreconditionIdentity
          chain_matrix [0, 0] [1, 0]
        = (if n = 0 then ([0, 0], Inr 0)
           else cg_loop ssor \<lparr>max_steps = n, tolerance = tol\<rparr> PreconditionIdentity
                  chain_matrix 0 [0, 0] [- 1, 0] [1, 0] 1)"
    using assms by (simp add: dealii_solver_cg_def l2_norm_def control_check_cases Let_def)
  also have "\<dots> = (if n = 0 then ([0, 0], Inr 0)
                   else if n = 1 then ([1 / 2, 0], Inl (NoConvergence 1 (1 / 2)))
                   else ([2 / 3, 1 / 3], Inr 2))"
    unfolding chain_first_step [OF assms(2)] chain_second_step [OF assms(1)] by auto
  finally show ?thesis .
qed

lemma chain_state_fields:
  "system_matrix_current chain_state = chain_matrix"
  "system_rhs_current chain_state = [1, 0]"
  "solution_current chain_state = [0, 0]"
  "system_matrix_heat chain_state = chain_matrix"
  "system_rhs_heat chain_state = [1, 0]"
  "solution_heat chain_state = [0, 0]"
  by (simp_all add: chain_state_def)

lemma chain_library_solve:
  assumes "0 \<le> tol" and "tol < 1 / 2"
  shows "solver_cg cg_library \<lparr>max_steps = n, tolerance = tol\<rparr> PreconditionIdentity
           chain_matrix [0, 0] [1, 0]
         = (if n = 0 then ([0, 0], Inr 0)
            else if n = 1 then ([1 / 2, 0], Inl (NoConvergence 1 (1 / 2)))
            else ([2 / 3, 1 / 3], Inr 2))"
  by (simp add: cg_library_def chain_solve [OF assms])

subsection \<open>One step of the loop\<close>

lemma cg_loop_raises_at_cap:
  assumes "dot d (vmult m d) \<noteq> 0"
    and "max_steps control \<le> it + 1"
    and "tolerance control
         < l2_norm (vector_sadd 1 g (gh / dot d (vmult m d)) (vmult m d))"
  shows "cg_loop ssor control pc m it x g d gh
         = (vector_sadd 1 x (gh / dot d (vmult m d)) d,
            Inl (NoConvergence (it + 1)
                   (l2_norm (vector_sadd 1 g (gh / dot d (vmult m d)) (vmult m d)))))"
  using assms by (subst cg_loop.simps) (simp add: control_check_def Let_def)

lemma cg_loop_returns_on_success:
  assumes "dot d (vmult m d) \<noteq> 0"
    and "l2_norm (vector_sadd 1 g (gh / dot d (vmult m d)) (vmult m d)) \<le> tolerance control"
  shows "cg_loop ssor control pc m it x g d gh
         = (vector_sadd 1 x (gh / dot d (vmult m d)) d, Inr (it + 1))"
  using assms by (subst cg_loop.simps) (simp add: control_check_def Let_def)

subsection \<open>The system assembled on the mesh of one cell\<close>

lemma pair_state_fields:
  "solution_current pair_state = [0, 0]"
  "old_solution_current pair_state = [0, 0]"
  "system_rhs_current pair_state = [0, 0]"
  "system_matrix_current pair_state = (\<lambda>i j. 0)"
  "solution_heat pair_state = [300, 300]"
  "uniform_efield_bc pair_state = 1"
  "pq pair_state = Some example_pq"
  "interface_map_field pair_state = []"
  "interface_map_emission_current pair_state = []"
  by (simp_all add: pair_state_def setup_heating_system_def setup_current_system_def
        currents_and_heating_def pair_mesh_def ambient_temperature_def Let_def
        upt_rec [of 0] upt_rec [of 1] numeral_2_eq_2)

lemma pair_sigma: "pq_sigma pair_state 300 = Inr 1"
  by (simp add: pq_sigma_def pair_state_fields sigma_def evaluate_resistivity_def
        linear_interp_def example_pq_def clamp_temperature_def)

lemma pair_emission: "get_emission_current_bc pair_state k T = Inr 1"
  by (simp add: get_emission_current_bc_def get_efield_bc_def pair_state_fields example_pq_def)

lemma pair_assembles:
  "assemble_current_system cg_library pair_mesh pair_state
   = Inr (pair_state\<lparr>system_matrix_current :=
                         (\<lambda>i j. 0)(0 := (\<lambda>j. 0)(0 := 1, Suc 0 := - 1),
                                      Suc 0 := (\<lambda>j. 0)(0 := - 1, Suc 0 := 2)),
                       solution_current := [0, 0], system_rhs_current := [1, 0]\<rparr>)"
  by (simp add: assemble_current_system_def current_cell_def current_volume_point_def
        current_face_def add_local_to_global_def vector_add_def add_entry_def dot_def
        pair_mesh_def pair_cell_def pair_face_def cg_library_def
        pair_state_fields pair_sigma pair_emission Let_def
        upt_rec [of 0] upt_rec [of 1] upt_rec [of 2] numeral_2_eq_2)

lemma pair_assembled_fields:
  "assemble_current_system cg_library pair_mesh pair_state = Inr pair_assembled"
  "system_matrix_current pair_assembled 0 0 = 1"
  "system_matrix_current pair_assembled 0 1 = - 1"
  "system_matrix_current pair_assembled 1 0 = - 1"
  "system_matrix_current pair_assembled 1 1 = 2"
  "system_rhs_current pair_assembled = [1, 0]"
  "solution_current pair_assembled = [0, 0]"
  by (simp_all add: pair_assembled_def pair_assembles)

lemma pair_vmult:
  "vmult (system_matrix_current pair_assembled) [a, b] = [a - b, 2 * b - a]"
  using pair_assembled_fields(2-5)
  by (simp add: vmult_def upt_rec [of 0] upt_rec [of 1] lessThan_Suc numeral_2_eq_2)

lemma pair_first_step:
  assumes "tol < 1"
  shows "cg_loop ssor \<lparr>max_steps = n, tolerance = tol\<rparr> PreconditionIdentity
           (system_matrix_current pair_assembled) 0 [0, 0] [- 1, 0] [1, 0] 1
         = (if n \<le> 1 then ([1, 0], Inl (NoConvergence 1 1))
            else cg_loop ssor \<lparr>max_steps = n, tolerance = tol\<rparr> PreconditionIdentity
                   (system_matrix_current pair_assembled) 1 [1, 0] [0, - 1] [1, 1] 1)"
  using assms
  by (subst cg_loop.simps)
     (simp add: pair_vmult dot_def vector_sadd_def l2_norm_def control_check_cases Let_def)

lemma pair_second_step:
  assumes "0 \<le> tol"
  shows "cg_loop ssor \<lparr>max_steps = n, tolerance = tol\<rparr> PreconditionIdentity
           (system_matrix_current pair_assembled) 1 [1, 0] [0, - 1] [1, 1] 1
         = ([2, 1], Inr 2)"
  using assms
  by (subst cg_loop.simps)
     (simp add: pair_vmult dot_def vector_sadd_def l2_norm_def control_check_cases Let_def)

lemma pair_solve:
  assumes "0 \<le> tol" and "tol < 1"
  shows "solver_cg cg_library \<lparr>max_steps = n, tolerance = tol\<rparr> PreconditionIdentity
           (system_matrix_current pair_assembled) [0, 0] [1, 0]
         = (if n = 0 then ([0, 0], Inr 0)
            else if n = 1 then ([1, 0], Inl (NoConvergence 1 1))
            else ([2, 1], Inr 2))"
proof -
  have "solver_cg cg_library \<lparr>max_steps = n, tolerance = tol\<rparr> PreconditionIdentity
          (system_matrix_current pair_assembled) [0, 0] [1, 0]
        = (if n = 0 then ([0, 0], Inr 0)
           else cg_loop (\<lambda>pm omega v. v) \<lparr>max_steps = n, tolerance = tol\<rparr>
                  PreconditionIdentity (system_matrix_current pair_assembled)
                  0 [0, 0] [- 1, 0] [1, 0] 1)"
    using assms
    by (simp add: cg_library_def dealii_solver_cg_def l2_norm_def control_check_cases Let_def)
  also have "\<dots> = (if n = 0 then ([0, 0], Inr 0)
                   else if n = 1 then ([1, 0], Inl (NoConvergence 1 1))
                   else ([2, 1], Inr 2))"
    unfolding pair_first_step [OF assms(2)] pair_second_step [OF assms(1)] by auto
  finally show ?thesis .
qed

subsection \<open>The two solve functions\<close>

text \<open>
  C3 (as the code has it). \<open>solve_current\<close> and \<open>solve_heat\<close> pass on what the
  library's conjugate-gradient solve does with the assembled system, the control built from
  \<open>max_iter\<close> and \<open>tol\<close>, and the chosen preconditioner: when the solve returns with
  \<open>last_step() = n\<close>, they return \<open>n\<close>; when the solve raises, the exception leaves the
  function and no count is returned. In both cases the previous vector holds the solution
  from before the solve and the solution vector holds what the solver left in it. The
  library's loop raises \<open>NoConvergence\<close> in the step that reaches the cap with the norm of
  the gradient above the tolerance, and returns the number of the step in which that norm is
  at most the tolerance.
\<close>

theorem solve_passes_on_solver_outcome:
  "(\<forall>x n. solver_cg lib \<lparr>max_steps = nat (max_iter mod 2 ^ 32), tolerance = tol\<rparr>
              (if pc_ssor then PreconditionSSOR (system_matrix_current st) ssor_param
               else PreconditionIdentity)
              (system_matrix_current st) (solution_current st) (system_rhs_current st)
            = (x, Inr n)
          \<longrightarrow> solve_current lib st max_iter tol pc_ssor ssor_param
              = (st\<lparr>old_solution_current := solution_current st, solution_current := x\<rparr>, Inr n))
   \<and> (\<forall>x e. solver_cg lib \<lparr>max_steps = nat (max_iter mod 2 ^ 32), tolerance = tol\<rparr>
              (if pc_ssor then PreconditionSSOR (system_matrix_current st) ssor_param
               else PreconditionIdentity)
              (system_matrix_current st) (solution_current st) (system_rhs_current st)
            = (x, Inl e)
          \<longrightarrow> solve_current lib st max_iter tol pc_ssor ssor_param
              = (st\<lparr>old_solution_current := solution_current st, solution_current := x\<rparr>, Inl e))
   \<and> (\<forall>x n. solver_cg lib \<lparr>max_steps = nat (max_iter mod 2 ^ 32), tolerance = tol\<rparr>
              (if pc_ssor then PreconditionSSOR (system_matrix_heat st) ssor_param
               else PreconditionIdentity)
              (system_matrix_heat st) (solution_heat st) (system_rhs_heat st)
            = (x, Inr n)
          \<longrightarrow> solve_heat lib st max_iter tol pc_ssor ssor_param
              = (st\<lparr>old_solution_heat := solution_heat st, solution_heat := x\<rparr>, Inr n))
   \<and> (\<forall>x e. solver_cg lib \<lparr>max_steps = nat (max_iter mod 2 ^ 32), tolerance = tol\<rparr>
              (if pc_ssor then PreconditionSSOR (system_matrix_heat st) ssor_param
               else PreconditionIdentity)
              (system_matrix_heat st) (solution_heat st) (system_rhs_heat st)
            = (x, Inl e)
          \<longrightarrow> solve_heat lib st max_iter tol pc_ssor ssor_param
              = (st\<lparr>old_solution_heat := solution_heat st, solution_heat := x\<rparr>, Inl e))
   \<and> (dot d (vmult m d) \<noteq> 0 \<and> max_steps control \<le> it + 1
        \<and> tolerance control < l2_norm (vector_sadd 1 g (gh / dot d (vmult m d)) (vmult m d))
      \<longrightarrow> cg_loop ssor control pc m it x0 g d gh
          = (vector_sadd 1 x0 (gh / dot d (vmult m d)) d,
             Inl (NoConvergence (it + 1)
                    (l2_norm (vector_sadd 1 g (gh / dot d (vmult m d)) (vmult m d))))))
   \<and> (dot d (vmult m d) \<noteq> 0
        \<and> l2_norm (vector_sadd 1 g (gh / dot d (vmult m d)) (vmult m d)) \<le> tolerance control
      \<longrightarrow> cg_loop ssor control pc m it x0 g d gh
          = (vector_sadd 1 x0 (gh / dot d (vmult m d)) d, Inr (it + 1)))"
proof (intro conjI)
  show "dot d (vmult m d) \<noteq> 0 \<and> max_steps control \<le> it + 1
        \<and> tolerance control < l2_norm (vector_sadd 1 g (gh / dot d (vmult m d)) (vmult m d))
      \<longrightarrow> cg_loop ssor control pc m it x0 g d gh
          = (vector_sadd 1 x0 (gh / dot d (vmult m d)) d,
             Inl (NoConvergence (it + 1)
                    (l2_norm (vector_sadd 1 g (gh / dot d (vmult m d)) (vmult m d)))))"
    using cg_loop_raises_at_cap [of d m control it g gh ssor pc x0] by blast
  show "dot d (vmult m d) \<noteq> 0
        \<and> l2_norm (vector_sadd 1 g (gh / dot d (vmult m d)) (vmult m d)) \<le> tolerance control
      \<longrightarrow> cg_loop ssor control pc m it x0 g d gh
          = (vector_sadd 1 x0 (gh / dot d (vmult m d)) d, Inr (it + 1))"
    using cg_loop_returns_on_success [of d m g gh control ssor pc it x0] by blast
qed (simp_all add: solve_current_def solve_heat_def Let_def)

theorem solve_passes_on_solver_outcome_witness:
  "solver_cg cg_library \<lparr>max_steps = nat (10 mod 2 ^ 32), tolerance = 1 / 10 ^ 9\<rparr>
      (if False then PreconditionSSOR (system_matrix_current chain_state) (12 / 10)
       else PreconditionIdentity)
      (system_matrix_current chain_state) (solution_current chain_state)
      (system_rhs_current chain_state) = ([2 / 3, 1 / 3], Inr 2)
   \<and> solve_current cg_library chain_state 10 (1 / 10 ^ 9) False (12 / 10)
     = (chain_state\<lparr>old_solution_current := [0, 0], solution_current := [2 / 3, 1 / 3]\<rparr>, Inr 2)
   \<and> solver_cg cg_library \<lparr>max_steps = nat (1 mod 2 ^ 32), tolerance = 1 / 10 ^ 9\<rparr>
      (if False then PreconditionSSOR (system_matrix_current chain_state) (12 / 10)
       else PreconditionIdentity)
      (system_matrix_current chain_state) (solution_current chain_state)
      (system_rhs_current chain_state) = ([1 / 2, 0], Inl (NoConvergence 1 (1 / 2)))
   \<and> solve_current cg_library chain_state 1 (1 / 10 ^ 9) False (12 / 10)
     = (chain_state\<lparr>old_solution_current := [0, 0], solution_current := [1 / 2, 0]\<rparr>,
        Inl (NoConvergence 1 (1 / 2)))
   \<and> solver_cg cg_library \<lparr>max_steps = nat (10 mod 2 ^ 32), tolerance = 1 / 10 ^ 9\<rparr>
      (if False then PreconditionSSOR (system_matrix_heat chain_state) (12 / 10)
       else PreconditionIdentity)
      (system_matrix_heat chain_state) (solution_heat chain_state)
      (system_rhs_heat chain_state) = ([2 / 3, 1 / 3], Inr 2)
   \<and> solve_heat cg_library chain_state 10 (1 / 10 ^ 9) False (12 / 10)
     = (chain_state\<lparr>old_solution_heat := [0, 0], solution_heat := [2 / 3, 1 / 3]\<rparr>, Inr 2)
   \<and> solver_cg cg_library \<lparr>max_steps = nat (1 mod 2 ^ 32), tolerance = 1 / 10 ^ 9\<rparr>
      (if False then PreconditionSSOR (system_matrix_heat chain_state) (12 / 10)
       else PreconditionIdentity)
      (system_matrix_heat chain_state) (solution_heat chain_state)
      (system_rhs_heat chain_state) = ([1 / 2, 0], Inl (NoConvergence 1 (1 / 2)))
   \<and> solve_heat cg_library chain_state 1 (1 / 10 ^ 9) False (12 / 10)
     = (chain_state\<lparr>old_solution_heat := [0, 0], solution_heat := [1 / 2, 0]\<rparr>,
        Inl (NoConvergence 1 (1 / 2)))
   \<and> dot [1, 0] (vmult chain_matrix [1, 0]) \<noteq> 0
   \<and> max_steps \<lparr>max_steps = 1, tolerance = 1 / 10 ^ 9\<rparr> \<le> 0 + 1
   \<and> tolerance \<lparr>max_steps = 1, tolerance = 1 / 10 ^ 9\<rparr>
       < l2_norm (vector_sadd 1 [- 1, 0] (1 / dot [1, 0] (vmult chain_matrix [1, 0]))
                    (vmult chain_matrix [1, 0]))
   \<and> cg_loop (\<lambda>pm omega v. v) \<lparr>max_steps = 1, tolerance = 1 / 10 ^ 9\<rparr> PreconditionIdentity
       chain_matrix 0 [0, 0] [- 1, 0] [1, 0] 1
     = ([1 / 2, 0], Inl (NoConvergence 1 (1 / 2)))
   \<and> dot [1 / 4, 1 / 2] (vmult chain_matrix [1 / 4, 1 / 2]) \<noteq> 0
   \<and> l2_norm (vector_sadd 1 [0, - 1 / 2]
                (1 / 4 / dot [1 / 4, 1 / 2] (vmult chain_matrix [1 / 4, 1 / 2]))
                (vmult chain_matrix [1 / 4, 1 / 2]))
       \<le> tolerance \<lparr>max_steps = 10, tolerance = 1 / 10 ^ 9\<rparr>
   \<and> cg_loop (\<lambda>pm omega v. v) \<lparr>max_steps = 10, tolerance = 1 / 10 ^ 9\<rparr> PreconditionIdentity
       chain_matrix 1 [1 / 2, 0] [0, - 1 / 2] [1 / 4, 1 / 2] (1 / 4)
     = ([2 / 3, 1 / 3], Inr 2)"
proof -
  have a: "solver_cg cg_library \<lparr>max_steps = nat (10 mod 2 ^ 32), tolerance = 1 / 10 ^ 9\<rparr>
      (if False then PreconditionSSOR (system_matrix_current chain_state) (12 / 10)
       else PreconditionIdentity)
      (system_matrix_current chain_state) (solution_current chain_state)
      (system_rhs_current chain_state) = ([2 / 3, 1 / 3], Inr 2)"
    by (simp add: chain_state_fields chain_library_solve)
  have b: "solver_cg cg_library \<lparr>max_steps = nat (1 mod 2 ^ 32), tolerance = 1 / 10 ^ 9\<rparr>
      (if False then PreconditionSSOR (system_matrix_current chain_state) (12 / 10)
       else PreconditionIdentity)
      (system_matrix_current chain_state) (solution_current chain_state)
      (system_rhs_current chain_state) = ([1 / 2, 0], Inl (NoConvergence 1 (1 / 2)))"
    by (simp add: chain_state_fields chain_library_solve)
  have c: "solver_cg cg_library \<lparr>max_steps = nat (10 mod 2 ^ 32), tolerance = 1 / 10 ^ 9\<rparr>
      (if False then PreconditionSSOR (system_matrix_heat chain_state) (12 / 10)
       else PreconditionIdentity)
      (system_matrix_heat chain_state) (solution_heat chain_state)
      (system_rhs_heat chain_state) = ([2 / 3, 1 / 3], Inr 2)"
    by (simp add: chain_state_fields chain_library_solve)
  have d: "solver_cg cg_library \<lparr>max_steps = nat (1 mod 2 ^ 32), tolerance = 1 / 10 ^ 9\<rparr>
      (if False then PreconditionSSOR (system_matrix_heat chain_state) (12 / 10)
       else PreconditionIdentity)
      (system_matrix_heat chain_state) (solution_heat chain_state)
      (system_rhs_heat chain_state) = ([1 / 2, 0], Inl (NoConvergence 1 (1 / 2)))"
    by (simp add: chain_state_fields chain_library_solve)
  have h1: "dot [1, 0] (vmult chain_matrix [1, 0]) \<noteq> 0
            \<and> max_steps \<lparr>max_steps = 1, tolerance = 1 / 10 ^ 9\<rparr> \<le> 0 + 1
            \<and> tolerance \<lparr>max_steps = 1, tolerance = 1 / 10 ^ 9\<rparr>
                < l2_norm (vector_sadd 1 [- 1, 0] (1 / dot [1, 0] (vmult chain_matrix [1, 0]))
                             (vmult chain_matrix [1, 0]))"
    by (simp add: chain_vmult dot_def vector_sadd_def l2_norm_def sqrt_quarter)
  have h2: "dot [1 / 4, 1 / 2] (vmult chain_matrix [1 / 4, 1 / 2]) \<noteq> 0
            \<and> l2_norm (vector_sadd 1 [0, - 1 / 2]
                         (1 / 4 / dot [1 / 4, 1 / 2] (vmult chain_matrix [1 / 4, 1 / 2]))
                         (vmult chain_matrix [1 / 4, 1 / 2]))
                \<le> tolerance \<lparr>max_steps = 10, tolerance = 1 / 10 ^ 9\<rparr>"
    by (simp add: chain_vmult dot_def vector_sadd_def l2_norm_def)
  note t10 = solve_passes_on_solver_outcome
               [where lib = cg_library and max_iter = 10 and tol = "1 / 10 ^ 9"
                  and pc_ssor = False and st = chain_state and ssor_param = "12 / 10"
                  and d = "[1 / 4, 1 / 2]" and m = chain_matrix
                  and control = "\<lparr>max_steps = 10, tolerance = 1 / 10 ^ 9\<rparr>" and it = 1
                  and g = "[0, - 1 / 2]" and gh = "1 / 4" and ssor = "\<lambda>pm omega v. v"
                  and pc = PreconditionIdentity and ?x0.0 = "[1 / 2, 0]"]
  note t1 = solve_passes_on_solver_outcome
               [where lib = cg_library and max_iter = 1 and tol = "1 / 10 ^ 9"
                  and pc_ssor = False and st = chain_state and ssor_param = "12 / 10"
                  and d = "[1, 0]" and m = chain_matrix
                  and control = "\<lparr>max_steps = 1, tolerance = 1 / 10 ^ 9\<rparr>" and it = 0
                  and g = "[- 1, 0]" and gh = 1 and ssor = "\<lambda>pm omega v. v"
                  and pc = PreconditionIdentity and ?x0.0 = "[0, 0]"]
  have a': "solve_current cg_library chain_state 10 (1 / 10 ^ 9) False (12 / 10)
     = (chain_state\<lparr>old_solution_current := [0, 0], solution_current := [2 / 3, 1 / 3]\<rparr>, Inr 2)"
    using t10 [THEN conjunct1, rule_format, OF a] by (simp add: chain_state_fields)
  have b': "solve_current cg_library chain_state 1 (1 / 10 ^ 9) False (12 / 10)
     = (chain_state\<lparr>old_solution_current := [0, 0], solution_current := [1 / 2, 0]\<rparr>,
        Inl (NoConvergence 1 (1 / 2)))"
    using t1 [THEN conjunct2, THEN conjunct1, rule_format, OF b]
    by (simp add: chain_state_fields)
  have c': "solve_heat cg_library chain_state 10 (1 / 10 ^ 9) False (12 / 10)
     = (chain_state\<lparr>old_solution_heat := [0, 0], solution_heat := [2 / 3, 1 / 3]\<rparr>, Inr 2)"
    using t10 [THEN conjunct2, THEN conjunct2, THEN conjunct1, rule_format, OF c]
    by (simp add: chain_state_fields)
  have d': "solve_heat cg_library chain_state 1 (1 / 10 ^ 9) False (12 / 10)
     = (chain_state\<lparr>old_solution_heat := [0, 0], solution_heat := [1 / 2, 0]\<rparr>,
        Inl (NoConvergence 1 (1 / 2)))"
    using t1 [THEN conjunct2, THEN conjunct2, THEN conjunct2, THEN conjunct1, rule_format, OF d]
    by (simp add: chain_state_fields)
  have e': "cg_loop (\<lambda>pm omega v. v) \<lparr>max_steps = 1, tolerance = 1 / 10 ^ 9\<rparr>
              PreconditionIdentity chain_matrix 0 [0, 0] [- 1, 0] [1, 0] 1
            = ([1 / 2, 0], Inl (NoConvergence 1 (1 / 2)))"
    using t1 [THEN conjunct2, THEN conjunct2, THEN conjunct2, THEN conjunct2, THEN conjunct1,
              THEN mp, OF h1]
    by (simp add: chain_vmult dot_def vector_sadd_def l2_norm_def sqrt_quarter)
  have f': "cg_loop (\<lambda>pm omega v. v) \<lparr>max_steps = 10, tolerance = 1 / 10 ^ 9\<rparr>
              PreconditionIdentity chain_matrix 1 [1 / 2, 0] [0, - 1 / 2] [1 / 4, 1 / 2] (1 / 4)
            = ([2 / 3, 1 / 3], Inr 2)"
    using t10 [THEN conjunct2, THEN conjunct2, THEN conjunct2, THEN conjunct2, THEN conjunct2,
               THEN mp, OF h2]
    by (simp add: chain_vmult dot_def vector_sadd_def)
  show ?thesis using a a' b b' c c' d d' h1 e' h2 f' by blast
qed

text \<open>
  A run that is stopped at a cap of one step. \<open>assemble_current_system\<close> on the mesh of
  one cell gives the system \<open>x\<^sub>0 - x\<^sub>1 = 1\<close>, \<open>- x\<^sub>0 + 2 x\<^sub>1 = 0\<close> with the start
  vector zero. With \<open>max_iter = 1\<close>, the tolerance \<open>10\<^sup>-\<^sup>9\<close> and no preconditioner the
  library's solve raises \<open>NoConvergence\<close> after its first step, with the residual \<open>1\<close>,
  and \<open>solve_current\<close> returns no count. \<open>solve_heat\<close> does the same on the system
  \<open>2 x\<^sub>0 - x\<^sub>1 = 1\<close>, \<open>- x\<^sub>0 + 2 x\<^sub>1 = 0\<close>, where the residual after the first step is
  \<open>1/2\<close>.
\<close>

theorem solve_raises_at_cap:
  "assemble_current_system cg_library pair_mesh pair_state = Inr pair_assembled
   \<and> system_matrix_current pair_assembled 0 0 = 1
   \<and> system_matrix_current pair_assembled 0 1 = - 1
   \<and> system_matrix_current pair_assembled 1 0 = - 1
   \<and> system_matrix_current pair_assembled 1 1 = 2
   \<and> system_rhs_current pair_assembled = [1, 0]
   \<and> solution_current pair_assembled = [0, 0]
   \<and> solve_current cg_library pair_assembled 1 (1 / 10 ^ 9) False (12 / 10)
     = (pair_assembled\<lparr>old_solution_current := [0, 0], solution_current := [1, 0]\<rparr>,
        Inl (NoConvergence 1 1))
   \<and> snd (solve_heat cg_library chain_state 1 (1 / 10 ^ 9) False (12 / 10))
     = Inl (NoConvergence 1 (1 / 2))"
  using pair_assembled_fields
  by (simp add: solve_current_def solve_heat_def pair_solve chain_state_fields
        chain_library_solve Let_def)

text \<open>
  C9. \<open>solve_current\<close> leaves the potential from before the solve in
  \<open>old_solution_current\<close> (and does not touch \<open>old_solution_heat\<close>), whatever the solver
  does afterwards; \<open>solve_heat\<close> likewise for the temperature. The three assembly
  functions, when they return, and all the setters (field from values, emission data, field
  from the vacuum side, uniform field, time step, physical quantities) leave both previous
  vectors as they were. The look-ups \<open>get_efield_bc\<close>, \<open>get_emission_current_bc\<close>,
  \<open>get_nottingham_heat_bc\<close> and \<open>get_surface_nodes\<close> return values only.
\<close>

theorem previous_solution_frame:
  "old_solution_current (fst (solve_current lib st max_iter tol pc_ssor ssor_param))
     = solution_current st
   \<and> old_solution_heat (fst (solve_current lib st max_iter tol pc_ssor ssor_param))
     = old_solution_heat st
   \<and> old_solution_heat (fst (solve_heat lib st max_iter tol pc_ssor ssor_param))
     = solution_heat st
   \<and> old_solution_current (fst (solve_heat lib st max_iter tol pc_ssor ssor_param))
     = old_solution_current st
   \<and> (\<forall>st'. assemble_current_system lib msh st = Inr st'
         \<longrightarrow> old_solution_current st' = old_solution_current st
           \<and> old_solution_heat st' = old_solution_heat st)
   \<and> (\<forall>st'. assemble_heating_system_crank_nicolson lib msh st = Inr st'
         \<longrightarrow> old_solution_current st' = old_solution_current st
           \<and> old_solution_heat st' = old_solution_heat st)
   \<and> (\<forall>st'. assemble_heating_system_euler_implicit lib msh st = Inr st'
         \<longrightarrow> old_solution_current st' = old_solution_current st
           \<and> old_solution_heat st' = old_solution_heat st)
   \<and> (\<forall>st'. set_electric_field_bc_values msh st elfields = Inr st'
         \<longrightarrow> old_solution_current st' = old_solution_current st
           \<and> old_solution_heat st' = old_solution_heat st)
   \<and> (\<forall>st'. set_emission_bc msh st emission_currents nottingham_heats = Inr st'
         \<longrightarrow> old_solution_current st' = old_solution_current st
           \<and> old_solution_heat st' = old_solution_heat st)
   \<and> old_solution_current (fst (set_electric_field_bc_laplace msh st lap))
       = old_solution_current st
   \<and> old_solution_heat (fst (set_electric_field_bc_laplace msh st lap)) = old_solution_heat st
   \<and> old_solution_current (set_electric_field_bc_uniform st uniform_efield)
       = old_solution_current st
   \<and> old_solution_heat (set_electric_field_bc_uniform st uniform_efield) = old_solution_heat st
   \<and> old_solution_current (set_timestep st new_time_step) = old_solution_current st
   \<and> old_solution_heat (set_timestep st new_time_step) = old_solution_heat st
   \<and> old_solution_current (set_physical_quantities st new_pq) = old_solution_current st
   \<and> old_solution_heat (set_physical_quantities st new_pq) = old_solution_heat st"
proof -
  have s1: "old_solution_current (fst (solve_current lib st max_iter tol pc_ssor ssor_param))
              = solution_current st"
    and s2: "old_solution_heat (fst (solve_current lib st max_iter tol pc_ssor ssor_param))
              = old_solution_heat st"
    by (simp_all add: solve_current_def Let_def split: prod.splits)
  have s3: "old_solution_heat (fst (solve_heat lib st max_iter tol pc_ssor ssor_param))
              = solution_heat st"
    and s4: "old_solution_current (fst (solve_heat lib st max_iter tol pc_ssor ssor_param))
              = old_solution_current st"
    by (simp_all add: solve_heat_def Let_def split: prod.splits)
  have a1: "\<forall>st'. assemble_current_system lib msh st = Inr st'
         \<longrightarrow> old_solution_current st' = old_solution_current st
           \<and> old_solution_heat st' = old_solution_heat st"
    by (auto simp: assemble_current_system_def Let_def split: sum.splits prod.splits)
  have a2: "\<forall>st'. assemble_heating_system_crank_nicolson lib msh st = Inr st'
         \<longrightarrow> old_solution_current st' = old_solution_current st
           \<and> old_solution_heat st' = old_solution_heat st"
    by (auto simp: assemble_heating_system_crank_nicolson_def Let_def
             split: sum.splits prod.splits)
  have a3: "\<forall>st'. assemble_heating_system_euler_implicit lib msh st = Inr st'
         \<longrightarrow> old_solution_current st' = old_solution_current st
           \<and> old_solution_heat st' = old_solution_heat st"
    by (auto simp: assemble_heating_system_euler_implicit_def Let_def
             split: sum.splits prod.splits)
  have b1: "\<forall>st'. set_electric_field_bc_values msh st elfields = Inr st'
         \<longrightarrow> old_solution_current st' = old_solution_current st
           \<and> old_solution_heat st' = old_solution_heat st"
    by (auto simp: set_electric_field_bc_values_def split: sum.splits prod.splits)
  have b2: "\<forall>st'. set_emission_bc msh st emission_currents nottingham_heats = Inr st'
         \<longrightarrow> old_solution_current st' = old_solution_current st
           \<and> old_solution_heat st' = old_solution_heat st"
    by (auto simp: set_emission_bc_def split: sum.splits prod.splits)
  have b3: "old_solution_current (fst (set_electric_field_bc_laplace msh st lap))
              = old_solution_current st"
    and b4: "old_solution_heat (fst (set_electric_field_bc_laplace msh st lap))
              = old_solution_heat st"
    by (simp_all add: set_electric_field_bc_laplace_def Let_def split: prod.splits)
  have c: "old_solution_current (set_electric_field_bc_uniform st uniform_efield)
             = old_solution_current st"
      "old_solution_heat (set_electric_field_bc_uniform st uniform_efield) = old_solution_heat st"
      "old_solution_current (set_timestep st new_time_step) = old_solution_current st"
      "old_solution_heat (set_timestep st new_time_step) = old_solution_heat st"
      "old_solution_current (set_physical_quantities st new_pq) = old_solution_current st"
      "old_solution_heat (set_physical_quantities st new_pq) = old_solution_heat st"
    by (simp_all add: set_electric_field_bc_uniform_def set_timestep_def
          set_physical_quantities_def)
  from s1 s2 s3 s4 a1 a2 a3 b1 b2 b3 b4 c show ?thesis by blast
qed

lemma example_current_assembles:
  "\<exists>st'. assemble_current_system example_library example_mesh example_state = Inr st'"
  by (simp add: assemble_current_system_def current_cell_def current_volume_point_def
        current_face_def add_local_to_global_def vector_add_def
        example_mesh_def example_cell_def example_face_def example_library_def
        example_state_fields example_sigma example_emission Let_def
        upt_rec [of 0] upt_rec [of 1] upt_rec [of 2])

lemma example_crank_nicolson_assembles:
  "\<exists>st'. assemble_heating_system_crank_nicolson example_library example_mesh example_state
          = Inr st'"
  by (simp add: assemble_heating_system_crank_nicolson_def crank_nicolson_cell_def
        crank_nicolson_volume_point_def crank_nicolson_face_def add_local_to_global_def
        vector_add_def example_mesh_def example_cell_def example_face_def example_library_def
        example_state_fields example_sigma example_kappa example_nottingham Let_def
        upt_rec [of 0] upt_rec [of 1] upt_rec [of 2])

lemma example_euler_implicit_assembles:
  "\<exists>st'. assemble_heating_system_euler_implicit example_library example_mesh example_state
          = Inr st'"
  by (simp add: assemble_heating_system_euler_implicit_def euler_implicit_cell_def
        euler_implicit_volume_point_def euler_implicit_face_def add_local_to_global_def
        vector_add_def example_mesh_def example_cell_def example_face_def example_library_def
        example_state_fields example_sigma example_kappa example_nottingham Let_def
        upt_rec [of 0] upt_rec [of 1] upt_rec [of 2])

lemma example_values_set:
  "\<exists>st'. set_electric_field_bc_values example_mesh example_state [5, 7] = Inr st'"
  by (simp add: set_electric_field_bc_values_def for_interface_faces_fold
        example_interface_faces)

lemma example_emission_set:
  "\<exists>st'. set_emission_bc example_mesh example_state [1, 2] [3, 4] = Inr st'"
  by (simp add: set_emission_bc_def for_interface_faces_fold example_interface_faces)

theorem previous_solution_frame_witness:
  "(\<exists>st'. assemble_current_system example_library example_mesh example_state = Inr st'
         \<and> old_solution_current st' = [0] \<and> old_solution_heat st' = [300])
   \<and> (\<exists>st'. assemble_heating_system_crank_nicolson example_library example_mesh example_state
              = Inr st'
         \<and> old_solution_current st' = [0] \<and> old_solution_heat st' = [300])
   \<and> (\<exists>st'. assemble_heating_system_euler_implicit example_library example_mesh example_state
              = Inr st'
         \<and> old_solution_current st' = [0] \<and> old_solution_heat st' = [300])
   \<and> (\<exists>st'. set_electric_field_bc_values example_mesh example_state [5, 7] = Inr st'
         \<and> old_solution_current st' = [0] \<and> old_solution_heat st' = [300])
   \<and> (\<exists>st'. set_emission_bc example_mesh example_state [1, 2] [3, 4] = Inr st'
         \<and> old_solution_current st' = [0] \<and> old_solution_heat st' = [300])
   \<and> old_solution_current
        (fst (solve_current example_library (example_state\<lparr>solution_current := [7]\<rparr>)
                10 (1 / 10 ^ 9) True (12 / 10))) = [7]
   \<and> old_solution_heat
        (fst (solve_heat example_library (example_state\<lparr>solution_heat := [350]\<rparr>)
                10 (1 / 10 ^ 9) True (12 / 10))) = [350]"
proof -
  note t = previous_solution_frame
             [of example_library example_state 10 "1 / 10 ^ 9" True "12 / 10" example_mesh
                 "[5, 7]" "[1, 2]" "[3, 4]"]
  obtain s1 where s1: "assemble_current_system example_library example_mesh example_state = Inr s1"
    using example_current_assembles by blast
  obtain s2 where s2: "assemble_heating_system_crank_nicolson example_library example_mesh
                         example_state = Inr s2"
    using example_crank_nicolson_assembles by blast
  obtain s3 where s3: "assemble_heating_system_euler_implicit example_library example_mesh
                         example_state = Inr s3"
    using example_euler_implicit_assembles by blast
  obtain s4 where s4: "set_electric_field_bc_values example_mesh example_state [5, 7] = Inr s4"
    using example_values_set by blast
  obtain s5 where s5: "set_emission_bc example_mesh example_state [1, 2] [3, 4] = Inr s5"
    using example_emission_set by blast
  have f1: "old_solution_current s1 = [0] \<and> old_solution_heat s1 = [300]"
    using t s1 by (simp add: example_state_fields)
  have f2: "old_solution_current s2 = [0] \<and> old_solution_heat s2 = [300]"
    using t s2 by (simp add: example_state_fields)
  have f3: "old_solution_current s3 = [0] \<and> old_solution_heat s3 = [300]"
    using t s3 by (simp add: example_state_fields)
  have f4: "old_solution_current s4 = [0] \<and> old_solution_heat s4 = [300]"
    using t s4 by (simp add: example_state_fields)
  have f5: "old_solution_current s5 = [0] \<and> old_solution_heat s5 = [300]"
    using t s5 by (simp add: example_state_fields)
  have g1: "old_solution_current
        (fst (solve_current example_library (example_state\<lparr>solution_current := [7]\<rparr>)
                10 (1 / 10 ^ 9) True (12 / 10))) = [7]"
    using previous_solution_frame [of example_library "example_state\<lparr>solution_current := [7]\<rparr>"
            10 "1 / 10 ^ 9" True "12 / 10"]
    by simp
  have g2: "old_solution_heat
        (fst (solve_heat example_library (example_state\<lparr>solution_heat := [350]\<rparr>)
                10 (1 / 10 ^ 9) True (12 / 10))) = [350]"
    using previous_solution_frame [of example_library "example_state\<lparr>solution_heat := [350]\<rparr>"
            10 "1 / 10 ^ 9" True "12 / 10"]
    by simp
  from s1 s2 s3 s4 s5 f1 f2 f3 f4 f5 g1 g2 show ?thesis by blast
qed

section \<open>Verification: the heat assembly\<close>

subsection \<open>Loops as sums\<close>

lemma foldE_Inr:
  "(\<And>x s. x \<in> set xs \<Longrightarrow> f x s = Inr (g x s)) \<Longrightarrow> foldE f xs s = Inr (fold g xs s)"
  by (induction xs arbitrary: s) simp_all

lemma dot_scale: "dot (scale a u) v = a * dot u v"
proof -
  have "sum_list (map (\<lambda>(x, y). x * y) (zip (map (\<lambda>x. a * x) u) v))
        = a * sum_list (map (\<lambda>(x, y). x * y) (zip u v))"
  proof (induction u arbitrary: v)
    case Nil
    then show ?case by simp
  next
    case (Cons x u)
    then show ?case by (cases v) (simp_all add: algebra_simps)
  qed
  then show ?thesis by (simp add: dot_def scale_def)
qed

lemma fold_add_row:
  "fold (\<lambda>j m. add_entry m i j (g j)) [0..<n] (m :: matrix)
   = (\<lambda>a b. if a = i \<and> b < n then m a b + g b else m a b)"
proof (induction n)
  case 0
  then show ?case by simp
next
  case (Suc n)
  then show ?case
    by (auto simp: add_entry_def fun_eq_iff less_Suc_eq)
qed

lemma fold_add_rhs:
  "fold (\<lambda>i b. b(i := b i + h i)) [0..<n] (b :: nat \<Rightarrow> real)
   = (\<lambda>a. if a < n then b a + h a else b a)"
proof (induction n)
  case 0
  then show ?case by simp
next
  case (Suc n)
  then show ?case by (auto simp: fun_eq_iff less_Suc_eq)
qed

lemma fold_add_point:
  "fold (\<lambda>i (cell_matrix, cell_rhs).
           (fold (\<lambda>j m. add_entry m i j (G i j)) [0..<n] cell_matrix,
            cell_rhs(i := cell_rhs i + H i)))
        [0..<k] (M :: matrix, b :: nat \<Rightarrow> real)
   = (\<lambda>a c. if a < k \<and> c < n then M a c + G a c else M a c,
      \<lambda>a. if a < k then b a + H a else b a)"
proof (induction k)
  case 0
  then show ?case by simp
next
  case (Suc k)
  then show ?case
    by (auto simp: fold_add_row fun_eq_iff less_Suc_eq)
qed

lemma fold_accumulate_pair:
  "fold (\<lambda>q (M, b). (\<lambda>a c. if a < n \<and> c < n then M a c + G q a c else M a c,
                      \<lambda>a. if a < n then b a + H q a else b a))
        [0..<k] (M :: matrix, b :: nat \<Rightarrow> real)
   = (\<lambda>a c. if a < n \<and> c < n then M a c + (\<Sum>q<k. G q a c) else M a c,
      \<lambda>a. if a < n then b a + (\<Sum>q<k. H q a) else b a)"
proof (induction k)
  case 0
  then show ?case by (simp add: fun_eq_iff)
next
  case (Suc k)
  then show ?case
    by (auto simp: fun_eq_iff add.assoc)
qed

lemma fold_accumulate:
  "fold (\<lambda>x b. (\<lambda>a. if a < n then b a + h x a else b a)) [0..<k] (b :: nat \<Rightarrow> real)
   = (\<lambda>a. if a < n then b a + (\<Sum>x<k. h x a) else b a)"
proof (induction k)
  case 0
  then show ?case by (simp add: fun_eq_iff)
next
  case (Suc k)
  then show ?case
    by (auto simp: fun_eq_iff add.assoc)
qed

subsection \<open>The Crank-Nicolson cell\<close>

lemma crank_nicolson_volume_point_eval:
  assumes "pq_kappa st (heat_function_values c (old_solution_heat st) q) = Inr k"
    and "pq_sigma st (heat_function_values c (old_solution_heat st) q) = Inr s"
  shows "crank_nicolson_volume_point st msh c q (M, b) =
    Inr (\<lambda>a j. if a < heat_dofs_per_cell msh \<and> j < heat_dofs_per_cell msh
                then M a j + (heat_shape_value c a q * heat_shape_value c j q
                              + const_k st * k * dot (heat_shape_grad c a q) (heat_shape_grad c j q))
                             * heat_JxW c q
                else M a j,
         \<lambda>a. if a < heat_dofs_per_cell msh
              then b a + (heat_shape_value c a q * heat_function_values c (old_solution_heat st) q
                          + const_k st * heat_shape_value c a q * s
                            * (norm_square (current_function_gradients c (solution_current st) q)
                               + norm_square (current_function_gradients c (old_solution_current st) q))
                          - const_k st * k
                            * dot (heat_shape_grad c a q)
                                  (heat_function_gradients c (old_solution_heat st) q))
                         * heat_JxW c q
              else b a)"
  using assms
  by (simp add: crank_nicolson_volume_point_def Let_def fold_add_point dot_scale)

lemma crank_nicolson_volume:
  assumes kap: "\<And>q. q < n_q_points msh \<Longrightarrow>
                  pq_kappa st (heat_function_values c (old_solution_heat st) q) = Inr (kap q)"
    and sig: "\<And>q. q < n_q_points msh \<Longrightarrow>
                  pq_sigma st (heat_function_values c (old_solution_heat st) q) = Inr (sig q)"
  shows "foldE (crank_nicolson_volume_point st msh c) [0..<n_q_points msh] (\<lambda>i j. 0, \<lambda>i. 0) =
    Inr (\<lambda>a j. if a < heat_dofs_per_cell msh \<and> j < heat_dofs_per_cell msh
                then 0 + (\<Sum>q<n_q_points msh.
                       (heat_shape_value c a q * heat_shape_value c j q
                        + const_k st * kap q * dot (heat_shape_grad c a q) (heat_shape_grad c j q))
                       * heat_JxW c q)
                else 0,
         \<lambda>a. if a < heat_dofs_per_cell msh
              then 0 + (\<Sum>q<n_q_points msh.
                     (heat_shape_value c a q * heat_function_values c (old_solution_heat st) q
                      + const_k st * heat_shape_value c a q * sig q
                        * (norm_square (current_function_gradients c (solution_current st) q)
                           + norm_square (current_function_gradients c (old_solution_current st) q))
                      - const_k st * kap q
                        * dot (heat_shape_grad c a q)
                              (heat_function_gradients c (old_solution_heat st) q))
                     * heat_JxW c q)
              else 0)"
proof -
  define g where "g = (\<lambda>q (M :: matrix, b :: nat \<Rightarrow> real).
     (\<lambda>a j. if a < heat_dofs_per_cell msh \<and> j < heat_dofs_per_cell msh
                then M a j + (heat_shape_value c a q * heat_shape_value c j q
                              + const_k st * kap q * dot (heat_shape_grad c a q) (heat_shape_grad c j q))
                             * heat_JxW c q
                else M a j,
      \<lambda>a. if a < heat_dofs_per_cell msh
              then b a + (heat_shape_value c a q * heat_function_values c (old_solution_heat st) q
                          + const_k st * heat_shape_value c a q * sig q
                            * (norm_square (current_function_gradients c (solution_current st) q)
                               + norm_square (current_function_gradients c (old_solution_current st) q))
                          - const_k st * kap q
                            * dot (heat_shape_grad c a q)
                                  (heat_function_gradients c (old_solution_heat st) q))
                         * heat_JxW c q
              else b a))"
  have step: "crank_nicolson_volume_point st msh c q s = Inr (g q s)"
    if "q \<in> set [0..<n_q_points msh]" for q s
  proof -
    have q: "q < n_q_points msh" using that by simp
    obtain M b where s: "s = (M, b)" by (cases s)
    show ?thesis
      unfolding s g_def
      using crank_nicolson_volume_point_eval [OF kap [OF q] sig [OF q], of msh M b] by simp
  qed
  have "foldE (crank_nicolson_volume_point st msh c) [0..<n_q_points msh] (\<lambda>i j. 0, \<lambda>i. 0)
        = Inr (fold g [0..<n_q_points msh] (\<lambda>i j. 0, \<lambda>i. 0))"
    by (rule foldE_Inr) (rule step)
  then show ?thesis
    unfolding g_def by (simp only: fold_accumulate_pair)
qed

lemma crank_nicolson_face_eval:
  assumes nott: "at_boundary (faces c ! f) \<and> boundary_id (faces c ! f) = copper_surface \<Longrightarrow>
          (\<And>q. q < n_face_q_points msh \<Longrightarrow>
             get_nottingham_heat_bc st (cell_index c, f)
               (heat_face_function_values (faces c ! f) (old_solution_heat st) q) = Inr (nott q))"
  shows "crank_nicolson_face st msh c f b =
    Inr (\<lambda>a. if a < heat_dofs_per_cell msh
              then b a + (if at_boundary (faces c ! f) \<and> boundary_id (faces c ! f) = copper_surface
                          then \<Sum>q<n_face_q_points msh.
                                 const_k st * heat_face_shape_value (faces c ! f) a q * 2 * nott q
                                 * heat_face_JxW (faces c ! f) q
                          else 0)
              else b a)"
proof (cases "at_boundary (faces c ! f) \<and> boundary_id (faces c ! f) = copper_surface")
  case False
  then show ?thesis by (auto simp: crank_nicolson_face_def fun_eq_iff)
next
  case True
  define g where "g = (\<lambda>q (b :: nat \<Rightarrow> real).
     (\<lambda>a. if a < heat_dofs_per_cell msh
           then b a + const_k st * heat_face_shape_value (faces c ! f) a q * 2 * nott q
                      * heat_face_JxW (faces c ! f) q
           else b a))"
  have step: "(let prev_temperature = heat_face_function_values (faces c ! f) (old_solution_heat st) q
               in case get_nottingham_heat_bc st (cell_index c, f) prev_temperature of
                    Inl e \<Rightarrow> Inl e
                  | Inr nottingham_heat \<Rightarrow>
                      Inr (fold (\<lambda>i b. b(i := b i + const_k st
                                                   * heat_face_shape_value (faces c ! f) i q
                                                   * 2 * nottingham_heat
                                                   * heat_face_JxW (faces c ! f) q))
                                [0..<heat_dofs_per_cell msh] b)) = Inr (g q b)"
    if "q \<in> set [0..<n_face_q_points msh]" for q b
  proof -
    have q: "q < n_face_q_points msh" using that by simp
    show ?thesis
      using nott [OF True q] by (simp add: g_def fold_add_rhs)
  qed
  have r: "crank_nicolson_face st msh c f b = Inr (fold g [0..<n_face_q_points msh] b)"
    unfolding crank_nicolson_face_def
    by (subst if_P [OF True]) (rule foldE_Inr, rule step)
  have "fold g [0..<n_face_q_points msh] b
        = (\<lambda>a. if a < heat_dofs_per_cell msh
                then b a + (\<Sum>q<n_face_q_points msh.
                              const_k st * heat_face_shape_value (faces c ! f) a q * 2 * nott q
                              * heat_face_JxW (faces c ! f) q)
                else b a)"
    unfolding g_def by (rule fold_accumulate)
  moreover have "at_boundary (faces c ! f)" "boundary_id (faces c ! f) = copper_surface"
    using True by simp_all
  ultimately show ?thesis
    using r by (simp cong: if_cong)
qed

lemma crank_nicolson_faces:
  assumes nott: "\<And>f q. f < length (faces c) \<Longrightarrow>
          at_boundary (faces c ! f) \<and> boundary_id (faces c ! f) = copper_surface \<Longrightarrow>
          q < n_face_q_points msh \<Longrightarrow>
             get_nottingham_heat_bc st (cell_index c, f)
               (heat_face_function_values (faces c ! f) (old_solution_heat st) q) = Inr (nott f q)"
  shows "foldE (crank_nicolson_face st msh c) [0..<length (faces c)] b =
    Inr (\<lambda>a. if a < heat_dofs_per_cell msh
              then b a + (\<Sum>f<length (faces c).
                     if at_boundary (faces c ! f) \<and> boundary_id (faces c ! f) = copper_surface
                     then \<Sum>q<n_face_q_points msh.
                            const_k st * heat_face_shape_value (faces c ! f) a q * 2 * nott f q
                            * heat_face_JxW (faces c ! f) q
                     else 0)
              else b a)"
proof -
  define g where "g = (\<lambda>f (b :: nat \<Rightarrow> real).
    (\<lambda>a. if a < heat_dofs_per_cell msh
              then b a + (if at_boundary (faces c ! f) \<and> boundary_id (faces c ! f) = copper_surface
                          then \<Sum>q<n_face_q_points msh.
                                 const_k st * heat_face_shape_value (faces c ! f) a q * 2 * nott f q
                                 * heat_face_JxW (faces c ! f) q
                          else 0)
              else b a))"
  have step: "crank_nicolson_face st msh c f b = Inr (g f b)"
    if "f \<in> set [0..<length (faces c)]" for f b
  proof -
    have f: "f < length (faces c)" using that by simp
    show ?thesis
      unfolding g_def
      by (rule crank_nicolson_face_eval) (rule nott [OF f])
  qed
  have "foldE (crank_nicolson_face st msh c) [0..<length (faces c)] b
        = Inr (fold g [0..<length (faces c)] b)"
    by (rule foldE_Inr) (rule step)
  then show ?thesis
    unfolding g_def by (simp only: fold_accumulate)
qed

lemma crank_nicolson_cell_eval:
  assumes kap: "\<And>q. q < n_q_points msh \<Longrightarrow>
                  pq_kappa st (heat_function_values c (old_solution_heat st) q) = Inr (kap q)"
    and sig: "\<And>q. q < n_q_points msh \<Longrightarrow>
                  pq_sigma st (heat_function_values c (old_solution_heat st) q) = Inr (sig q)"
    and nott: "\<And>f q. f < length (faces c) \<Longrightarrow>
          at_boundary (faces c ! f) \<and> boundary_id (faces c ! f) = copper_surface \<Longrightarrow>
          q < n_face_q_points msh \<Longrightarrow>
             get_nottingham_heat_bc st (cell_index c, f)
               (heat_face_function_values (faces c ! f) (old_solution_heat st) q) = Inr (nott f q)"
  shows "crank_nicolson_cell st msh c =
    Inr (\<lambda>a j. if a < heat_dofs_per_cell msh \<and> j < heat_dofs_per_cell msh
                then 0 + (\<Sum>q<n_q_points msh.
                       (heat_shape_value c a q * heat_shape_value c j q
                        + const_k st * kap q * dot (heat_shape_grad c a q) (heat_shape_grad c j q))
                       * heat_JxW c q)
                else 0,
         \<lambda>a. if a < heat_dofs_per_cell msh
              then (if a < heat_dofs_per_cell msh
                    then 0 + (\<Sum>q<n_q_points msh.
                     (heat_shape_value c a q * heat_function_values c (old_solution_heat st) q
                      + const_k st * heat_shape_value c a q * sig q
                        * (norm_square (current_function_gradients c (solution_current st) q)
                           + norm_square (current_function_gradients c (old_solution_current st) q))
                      - const_k st * kap q
                        * dot (heat_shape_grad c a q)
                              (heat_function_gradients c (old_solution_heat st) q))
                     * heat_JxW c q)
                    else 0)
                   + (\<Sum>f<length (faces c).
                     if at_boundary (faces c ! f) \<and> boundary_id (faces c ! f) = copper_surface
                     then \<Sum>q<n_face_q_points msh.
                            const_k st * heat_face_shape_value (faces c ! f) a q * 2 * nott f q
                            * heat_face_JxW (faces c ! f) q
                     else 0)
              else (if a < heat_dofs_per_cell msh
                    then 0 + (\<Sum>q<n_q_points msh.
                     (heat_shape_value c a q * heat_function_values c (old_solution_heat st) q
                      + const_k st * heat_shape_value c a q * sig q
                        * (norm_square (current_function_gradients c (solution_current st) q)
                           + norm_square (current_function_gradients c (old_solution_current st) q))
                      - const_k st * kap q
                        * dot (heat_shape_grad c a q)
                              (heat_function_gradients c (old_solution_heat st) q))
                     * heat_JxW c q)
                    else 0))"
  unfolding crank_nicolson_cell_def
  by (simp only: crank_nicolson_volume [of msh st c kap sig, OF kap sig]
        crank_nicolson_faces [of c msh st nott, OF nott] sum.case prod.case)

subsection \<open>The implicit Euler cell\<close>

lemma euler_implicit_volume_point_eval:
  assumes "pq_kappa st (heat_function_values c (old_solution_heat st) q) = Inr k"
    and "pq_sigma st (heat_function_values c (old_solution_heat st) q) = Inr s"
  shows "euler_implicit_volume_point st msh c q (M, b) =
    Inr (\<lambda>a j. if a < heat_dofs_per_cell msh \<and> j < heat_dofs_per_cell msh
                then M a j + (heat_shape_value c a q * heat_shape_value c j q
                              + gamma st * k * dot (heat_shape_grad c a q) (heat_shape_grad c j q))
                             * heat_JxW c q
                else M a j,
         \<lambda>a. if a < heat_dofs_per_cell msh
              then b a + (heat_shape_value c a q * heat_function_values c (old_solution_heat st) q
                          + gamma st * heat_shape_value c a q * s
                            * norm_square (current_function_gradients c (solution_current st) q))
                         * heat_JxW c q
              else b a)"
  using assms
  by (simp add: euler_implicit_volume_point_def Let_def fold_add_point dot_scale)

lemma euler_implicit_volume:
  assumes kap: "\<And>q. q < n_q_points msh \<Longrightarrow>
                  pq_kappa st (heat_function_values c (old_solution_heat st) q) = Inr (kap q)"
    and sig: "\<And>q. q < n_q_points msh \<Longrightarrow>
                  pq_sigma st (heat_function_values c (old_solution_heat st) q) = Inr (sig q)"
  shows "foldE (euler_implicit_volume_point st msh c) [0..<n_q_points msh] (\<lambda>i j. 0, \<lambda>i. 0) =
    Inr (\<lambda>a j. if a < heat_dofs_per_cell msh \<and> j < heat_dofs_per_cell msh
                then 0 + (\<Sum>q<n_q_points msh.
                       (heat_shape_value c a q * heat_shape_value c j q
                        + gamma st * kap q * dot (heat_shape_grad c a q) (heat_shape_grad c j q))
                       * heat_JxW c q)
                else 0,
         \<lambda>a. if a < heat_dofs_per_cell msh
              then 0 + (\<Sum>q<n_q_points msh.
                     (heat_shape_value c a q * heat_function_values c (old_solution_heat st) q
                      + gamma st * heat_shape_value c a q * sig q
                        * norm_square (current_function_gradients c (solution_current st) q))
                     * heat_JxW c q)
              else 0)"
proof -
  define g where "g = (\<lambda>q (M :: matrix, b :: nat \<Rightarrow> real).
     (\<lambda>a j. if a < heat_dofs_per_cell msh \<and> j < heat_dofs_per_cell msh
                then M a j + (heat_shape_value c a q * heat_shape_value c j q
                              + gamma st * kap q * dot (heat_shape_grad c a q) (heat_shape_grad c j q))
                             * heat_JxW c q
                else M a j,
      \<lambda>a. if a < heat_dofs_per_cell msh
              then b a + (heat_shape_value c a q * heat_function_values c (old_solution_heat st) q
                          + gamma st * heat_shape_value c a q * sig q
                            * norm_square (current_function_gradients c (solution_current st) q))
                         * heat_JxW c q
              else b a))"
  have step: "euler_implicit_volume_point st msh c q s = Inr (g q s)"
    if "q \<in> set [0..<n_q_points msh]" for q s
  proof -
    have q: "q < n_q_points msh" using that by simp
    obtain M b where s: "s = (M, b)" by (cases s)
    show ?thesis
      unfolding s g_def
      using euler_implicit_volume_point_eval [OF kap [OF q] sig [OF q], of msh M b] by simp
  qed
  have "foldE (euler_implicit_volume_point st msh c) [0..<n_q_points msh] (\<lambda>i j. 0, \<lambda>i. 0)
        = Inr (fold g [0..<n_q_points msh] (\<lambda>i j. 0, \<lambda>i. 0))"
    by (rule foldE_Inr) (rule step)
  then show ?thesis
    unfolding g_def by (simp only: fold_accumulate_pair)
qed

lemma euler_implicit_face_eval:
  assumes nott: "at_boundary (faces c ! f) \<and> boundary_id (faces c ! f) = copper_surface \<Longrightarrow>
          (\<And>q. q < n_face_q_points msh \<Longrightarrow>
             get_nottingham_heat_bc st (cell_index c, f)
               (heat_face_function_values (faces c ! f) (old_solution_heat st) q) = Inr (nott q))"
  shows "euler_implicit_face st msh c f b =
    Inr (\<lambda>a. if a < heat_dofs_per_cell msh
              then b a + (if at_boundary (faces c ! f) \<and> boundary_id (faces c ! f) = copper_surface
                          then \<Sum>q<n_face_q_points msh.
                                 gamma st * heat_face_shape_value (faces c ! f) a q * nott q
                                 * heat_face_JxW (faces c ! f) q
                          else 0)
              else b a)"
proof (cases "at_boundary (faces c ! f) \<and> boundary_id (faces c ! f) = copper_surface")
  case False
  then show ?thesis by (auto simp: euler_implicit_face_def fun_eq_iff)
next
  case True
  define g where "g = (\<lambda>q (b :: nat \<Rightarrow> real).
     (\<lambda>a. if a < heat_dofs_per_cell msh
           then b a + gamma st * heat_face_shape_value (faces c ! f) a q * nott q
                      * heat_face_JxW (faces c ! f) q
           else b a))"
  have step: "(let prev_temperature = heat_face_function_values (faces c ! f) (old_solution_heat st) q
               in case get_nottingham_heat_bc st (cell_index c, f) prev_temperature of
                    Inl e \<Rightarrow> Inl e
                  | Inr nottingham_heat \<Rightarrow>
                      Inr (fold (\<lambda>i b. b(i := b i + gamma st
                                                   * heat_face_shape_value (faces c ! f) i q
                                                   * nottingham_heat
                                                   * heat_face_JxW (faces c ! f) q))
                                [0..<heat_dofs_per_cell msh] b)) = Inr (g q b)"
    if "q \<in> set [0..<n_face_q_points msh]" for q b
  proof -
    have q: "q < n_face_q_points msh" using that by simp
    show ?thesis
      using nott [OF True q] by (simp add: g_def fold_add_rhs)
  qed
  have r: "euler_implicit_face st msh c f b = Inr (fold g [0..<n_face_q_points msh] b)"
    unfolding euler_implicit_face_def
    by (subst if_P [OF True]) (rule foldE_Inr, rule step)
  have "fold g [0..<n_face_q_points msh] b
        = (\<lambda>a. if a < heat_dofs_per_cell msh
                then b a + (\<Sum>q<n_face_q_points msh.
                              gamma st * heat_face_shape_value (faces c ! f) a q * nott q
                              * heat_face_JxW (faces c ! f) q)
                else b a)"
    unfolding g_def by (rule fold_accumulate)
  moreover have "at_boundary (faces c ! f)" "boundary_id (faces c ! f) = copper_surface"
    using True by simp_all
  ultimately show ?thesis
    using r by (simp cong: if_cong)
qed

lemma euler_implicit_faces:
  assumes nott: "\<And>f q. f < length (faces c) \<Longrightarrow>
          at_boundary (faces c ! f) \<and> boundary_id (faces c ! f) = copper_surface \<Longrightarrow>
          q < n_face_q_points msh \<Longrightarrow>
             get_nottingham_heat_bc st (cell_index c, f)
               (heat_face_function_values (faces c ! f) (old_solution_heat st) q) = Inr (nott f q)"
  shows "foldE (euler_implicit_face st msh c) [0..<length (faces c)] b =
    Inr (\<lambda>a. if a < heat_dofs_per_cell msh
              then b a + (\<Sum>f<length (faces c).
                     if at_boundary (faces c ! f) \<and> boundary_id (faces c ! f) = copper_surface
                     then \<Sum>q<n_face_q_points msh.
                            gamma st * heat_face_shape_value (faces c ! f) a q * nott f q
                            * heat_face_JxW (faces c ! f) q
                     else 0)
              else b a)"
proof -
  define g where "g = (\<lambda>f (b :: nat \<Rightarrow> real).
    (\<lambda>a. if a < heat_dofs_per_cell msh
              then b a + (if at_boundary (faces c ! f) \<and> boundary_id (faces c ! f) = copper_surface
                          then \<Sum>q<n_face_q_points msh.
                                 gamma st * heat_face_shape_value (faces c ! f) a q * nott f q
                                 * heat_face_JxW (faces c ! f) q
                          else 0)
              else b a))"
  have step: "euler_implicit_face st msh c f b = Inr (g f b)"
    if "f \<in> set [0..<length (faces c)]" for f b
  proof -
    have f: "f < length (faces c)" using that by simp
    show ?thesis
      unfolding g_def
      by (rule euler_implicit_face_eval) (rule nott [OF f])
  qed
  have "foldE (euler_implicit_face st msh c) [0..<length (faces c)] b
        = Inr (fold g [0..<length (faces c)] b)"
    by (rule foldE_Inr) (rule step)
  then show ?thesis
    unfolding g_def by (simp only: fold_accumulate)
qed

lemma euler_implicit_cell_eval:
  assumes kap: "\<And>q. q < n_q_points msh \<Longrightarrow>
                  pq_kappa st (heat_function_values c (old_solution_heat st) q) = Inr (kap q)"
    and sig: "\<And>q. q < n_q_points msh \<Longrightarrow>
                  pq_sigma st (heat_function_values c (old_solution_heat st) q) = Inr (sig q)"
    and nott: "\<And>f q. f < length (faces c) \<Longrightarrow>
          at_boundary (faces c ! f) \<and> boundary_id (faces c ! f) = copper_surface \<Longrightarrow>
          q < n_face_q_points msh \<Longrightarrow>
             get_nottingham_heat_bc st (cell_index c, f)
               (heat_face_function_values (faces c ! f) (old_solution_heat st) q) = Inr (nott f q)"
  shows "\<exists>M b. euler_implicit_cell st msh c = Inr (M, b)
     \<and> (\<forall>i<heat_dofs_per_cell msh. \<forall>j<heat_dofs_per_cell msh.
          M i j = (\<Sum>q<n_q_points msh.
                     (heat_shape_value c i q * heat_shape_value c j q
                      + gamma st * kap q * dot (heat_shape_grad c i q) (heat_shape_grad c j q))
                     * heat_JxW c q))
     \<and> (\<forall>i<heat_dofs_per_cell msh.
          b i = (\<Sum>q<n_q_points msh.
                     (heat_shape_value c i q * heat_function_values c (old_solution_heat st) q
                      + gamma st * heat_shape_value c i q * sig q
                        * norm_square (current_function_gradients c (solution_current st) q))
                     * heat_JxW c q)
                + (\<Sum>f<length (faces c).
                     if at_boundary (faces c ! f) \<and> boundary_id (faces c ! f) = copper_surface
                     then \<Sum>q<n_face_q_points msh.
                            gamma st * heat_face_shape_value (faces c ! f) i q * nott f q
                            * heat_face_JxW (faces c ! f) q
                     else 0))"
  unfolding euler_implicit_cell_def
  by (simp only: euler_implicit_volume [of msh st c kap sig, OF kap sig]
        euler_implicit_faces [of c msh st nott, OF nott] sum.case prod.case) simp

lemma crank_nicolson_cell_sums:
  assumes kap: "\<And>q. q < n_q_points msh \<Longrightarrow>
                  pq_kappa st (heat_function_values c (old_solution_heat st) q) = Inr (kap q)"
    and sig: "\<And>q. q < n_q_points msh \<Longrightarrow>
                  pq_sigma st (heat_function_values c (old_solution_heat st) q) = Inr (sig q)"
    and nott: "\<And>f q. f < length (faces c) \<Longrightarrow>
          at_boundary (faces c ! f) \<and> boundary_id (faces c ! f) = copper_surface \<Longrightarrow>
          q < n_face_q_points msh \<Longrightarrow>
             get_nottingham_heat_bc st (cell_index c, f)
               (heat_face_function_values (faces c ! f) (old_solution_heat st) q) = Inr (nott f q)"
  shows "\<exists>M b. crank_nicolson_cell st msh c = Inr (M, b)
     \<and> (\<forall>i<heat_dofs_per_cell msh. \<forall>j<heat_dofs_per_cell msh.
          M i j = (\<Sum>q<n_q_points msh.
                     (heat_shape_value c i q * heat_shape_value c j q
                      + const_k st * kap q * dot (heat_shape_grad c i q) (heat_shape_grad c j q))
                     * heat_JxW c q))
     \<and> (\<forall>i<heat_dofs_per_cell msh.
          b i = (\<Sum>q<n_q_points msh.
                     (heat_shape_value c i q * heat_function_values c (old_solution_heat st) q
                      + const_k st * heat_shape_value c i q * sig q
                        * (norm_square (current_function_gradients c (solution_current st) q)
                           + norm_square (current_function_gradients c (old_solution_current st) q))
                      - const_k st * kap q
                        * dot (heat_shape_grad c i q)
                              (heat_function_gradients c (old_solution_heat st) q))
                     * heat_JxW c q)
                + (\<Sum>f<length (faces c).
                     if at_boundary (faces c ! f) \<and> boundary_id (faces c ! f) = copper_surface
                     then \<Sum>q<n_face_q_points msh.
                            const_k st * heat_face_shape_value (faces c ! f) i q * 2 * nott f q
                            * heat_face_JxW (faces c ! f) q
                     else 0))"
  by (simp only: crank_nicolson_cell_eval [of msh st c kap sig nott, OF kap sig nott]) simp

subsection \<open>The local systems\<close>

text \<open>
  C2. Let \<open>kap q\<close> and \<open>sig q\<close> be \<open>kappa\<close> and \<open>sigma\<close> at the previous temperature of
  quadrature point \<open>q\<close>, and \<open>nott f q\<close> the Nottingham heat at face quadrature point \<open>q\<close>
  of interface face \<open>f\<close>. Then the Crank-Nicolson assembly of a cell succeeds, and for all
  local indices \<open>i\<close>, \<open>j\<close>: the matrix entry is the sum over the quadrature points of
  (mass term + \<open>time_step / (2 * cu_rho_cp)\<close> times \<open>kap\<close> times the stiffness term) times
  the weight; the right-hand side entry is the sum over the quadrature points of (shape
  value times previous temperature + \<open>time_step / (2 * cu_rho_cp)\<close> times \<open>sig\<close> times the
  sum of the squared norms of the current and the previous potential gradient times the
  shape value - \<open>time_step / (2 * cu_rho_cp)\<close> times \<open>kap\<close> times shape gradient dot
  previous temperature gradient) times the weight, plus, over the interface faces and their
  quadrature points, twice \<open>time_step / (2 * cu_rho_cp)\<close> times the Nottingham heat times
  weight and shape value. The implicit Euler assembly has \<open>time_step / cu_rho_cp\<close> in front
  of \<open>kap\<close>, of the Joule term of the current gradient alone, and of the boundary term, and
  no diffusion correction; twice the half-step factor is that single factor.
\<close>

theorem crank_nicolson_local_system:
  assumes kap: "\<forall>q<n_q_points msh.
                  pq_kappa st (heat_function_values c (old_solution_heat st) q) = Inr (kap q)"
    and sig: "\<forall>q<n_q_points msh.
                  pq_sigma st (heat_function_values c (old_solution_heat st) q) = Inr (sig q)"
    and nott: "\<forall>f<length (faces c).
          at_boundary (faces c ! f) \<and> boundary_id (faces c ! f) = copper_surface \<longrightarrow>
          (\<forall>q<n_face_q_points msh.
             get_nottingham_heat_bc st (cell_index c, f)
               (heat_face_function_values (faces c ! f) (old_solution_heat st) q)
             = Inr (nott f q))"
  shows "(\<exists>M b. crank_nicolson_cell st msh c = Inr (M, b)
     \<and> (\<forall>i<heat_dofs_per_cell msh. \<forall>j<heat_dofs_per_cell msh.
          M i j = (\<Sum>q<n_q_points msh.
                     (heat_shape_value c i q * heat_shape_value c j q
                      + time_step st / (2 * cu_rho_cp) * kap q
                        * dot (heat_shape_grad c i q) (heat_shape_grad c j q))
                     * heat_JxW c q))
     \<and> (\<forall>i<heat_dofs_per_cell msh.
          b i = (\<Sum>q<n_q_points msh.
                     (heat_shape_value c i q * heat_function_values c (old_solution_heat st) q
                      + time_step st / (2 * cu_rho_cp) * sig q
                        * (norm_square (current_function_gradients c (solution_current st) q)
                           + norm_square (current_function_gradients c (old_solution_current st) q))
                        * heat_shape_value c i q
                      - time_step st / (2 * cu_rho_cp) * kap q
                        * dot (heat_shape_grad c i q)
                              (heat_function_gradients c (old_solution_heat st) q))
                     * heat_JxW c q)
                + (\<Sum>f<length (faces c).
                     if at_boundary (faces c ! f) \<and> boundary_id (faces c ! f) = copper_surface
                     then \<Sum>q<n_face_q_points msh.
                            2 * (time_step st / (2 * cu_rho_cp)) * nott f q
                            * heat_face_JxW (faces c ! f) q
                            * heat_face_shape_value (faces c ! f) i q
                     else 0)))
   \<and> (\<exists>M b. euler_implicit_cell st msh c = Inr (M, b)
     \<and> (\<forall>i<heat_dofs_per_cell msh. \<forall>j<heat_dofs_per_cell msh.
          M i j = (\<Sum>q<n_q_points msh.
                     (heat_shape_value c i q * heat_shape_value c j q
                      + time_step st / cu_rho_cp * kap q
                        * dot (heat_shape_grad c i q) (heat_shape_grad c j q))
                     * heat_JxW c q))
     \<and> (\<forall>i<heat_dofs_per_cell msh.
          b i = (\<Sum>q<n_q_points msh.
                     (heat_shape_value c i q * heat_function_values c (old_solution_heat st) q
                      + time_step st / cu_rho_cp * sig q
                        * norm_square (current_function_gradients c (solution_current st) q)
                        * heat_shape_value c i q)
                     * heat_JxW c q)
                + (\<Sum>f<length (faces c).
                     if at_boundary (faces c ! f) \<and> boundary_id (faces c ! f) = copper_surface
                     then \<Sum>q<n_face_q_points msh.
                            time_step st / cu_rho_cp * nott f q
                            * heat_face_JxW (faces c ! f) q
                            * heat_face_shape_value (faces c ! f) i q
                     else 0)))
   \<and> 2 * (time_step st / (2 * cu_rho_cp)) = time_step st / cu_rho_cp"
proof -
  have k: "\<And>q. q < n_q_points msh \<Longrightarrow>
             pq_kappa st (heat_function_values c (old_solution_heat st) q) = Inr (kap q)"
    using kap by simp
  have s: "\<And>q. q < n_q_points msh \<Longrightarrow>
             pq_sigma st (heat_function_values c (old_solution_heat st) q) = Inr (sig q)"
    using sig by simp
  have n: "\<And>f q. f < length (faces c) \<Longrightarrow>
          at_boundary (faces c ! f) \<and> boundary_id (faces c ! f) = copper_surface \<Longrightarrow>
          q < n_face_q_points msh \<Longrightarrow>
             get_nottingham_heat_bc st (cell_index c, f)
               (heat_face_function_values (faces c ! f) (old_solution_heat st) q) = Inr (nott f q)"
    using nott by simp
  have e1: "const_k st * x * y * g = time_step st / (2 * cu_rho_cp) * y * g * x" for x y g
    by (simp add: const_k_def)
  have e2: "const_k st * x * 2 * h * w = 2 * (time_step st / (2 * cu_rho_cp)) * h * w * x"
    for x h w
    by (simp add: const_k_def)
  have e3: "const_k st * x * d = time_step st / (2 * cu_rho_cp) * x * d" for x d
    by (simp add: const_k_def)
  have e4: "gamma st * x * y * g = time_step st / cu_rho_cp * y * g * x" for x y g
    by (simp add: gamma_def)
  have e5: "gamma st * x * d = time_step st / cu_rho_cp * x * d" for x d
    by (simp add: gamma_def)
  obtain M b where cnr: "crank_nicolson_cell st msh c = Inr (M, b)"
    and cnm: "\<forall>i<heat_dofs_per_cell msh. \<forall>j<heat_dofs_per_cell msh.
          M i j = (\<Sum>q<n_q_points msh.
                     (heat_shape_value c i q * heat_shape_value c j q
                      + const_k st * kap q * dot (heat_shape_grad c i q) (heat_shape_grad c j q))
                     * heat_JxW c q)"
    and cnb: "\<forall>i<heat_dofs_per_cell msh.
          b i = (\<Sum>q<n_q_points msh.
                     (heat_shape_value c i q * heat_function_values c (old_solution_heat st) q
                      + const_k st * heat_shape_value c i q * sig q
                        * (norm_square (current_function_gradients c (solution_current st) q)
                           + norm_square (current_function_gradients c (old_solution_current st) q))
                      - const_k st * kap q
                        * dot (heat_shape_grad c i q)
                              (heat_function_gradients c (old_solution_heat st) q))
                     * heat_JxW c q)
                + (\<Sum>f<length (faces c).
                     if at_boundary (faces c ! f) \<and> boundary_id (faces c ! f) = copper_surface
                     then \<Sum>q<n_face_q_points msh.
                            const_k st * heat_face_shape_value (faces c ! f) i q * 2 * nott f q
                            * heat_face_JxW (faces c ! f) q
                     else 0)"
    using crank_nicolson_cell_sums [of msh st c kap sig nott, OF k s n] by blast
  have cn: "\<exists>M b. crank_nicolson_cell st msh c = Inr (M, b)
     \<and> (\<forall>i<heat_dofs_per_cell msh. \<forall>j<heat_dofs_per_cell msh.
          M i j = (\<Sum>q<n_q_points msh.
                     (heat_shape_value c i q * heat_shape_value c j q
                      + time_step st / (2 * cu_rho_cp) * kap q
                        * dot (heat_shape_grad c i q) (heat_shape_grad c j q))
                     * heat_JxW c q))
     \<and> (\<forall>i<heat_dofs_per_cell msh.
          b i = (\<Sum>q<n_q_points msh.
                     (heat_shape_value c i q * heat_function_values c (old_solution_heat st) q
                      + time_step st / (2 * cu_rho_cp) * sig q
                        * (norm_square (current_function_gradients c (solution_current st) q)
                           + norm_square (current_function_gradients c (old_solution_current st) q))
                        * heat_shape_value c i q
                      - time_step st / (2 * cu_rho_cp) * kap q
                        * dot (heat_shape_grad c i q)
                              (heat_function_gradients c (old_solution_heat st) q))
                     * heat_JxW c q)
                + (\<Sum>f<length (faces c).
                     if at_boundary (faces c ! f) \<and> boundary_id (faces c ! f) = copper_surface
                     then \<Sum>q<n_face_q_points msh.
                            2 * (time_step st / (2 * cu_rho_cp)) * nott f q
                            * heat_face_JxW (faces c ! f) q
                            * heat_face_shape_value (faces c ! f) i q
                     else 0))"
    using cnr cnm [unfolded e3] cnb [unfolded e2, unfolded e1, unfolded e3]
    by blast
  obtain M' b' where eur: "euler_implicit_cell st msh c = Inr (M', b')"
    and eum: "\<forall>i<heat_dofs_per_cell msh. \<forall>j<heat_dofs_per_cell msh.
          M' i j = (\<Sum>q<n_q_points msh.
                     (heat_shape_value c i q * heat_shape_value c j q
                      + gamma st * kap q * dot (heat_shape_grad c i q) (heat_shape_grad c j q))
                     * heat_JxW c q)"
    and eub: "\<forall>i<heat_dofs_per_cell msh.
          b' i = (\<Sum>q<n_q_points msh.
                     (heat_shape_value c i q * heat_function_values c (old_solution_heat st) q
                      + gamma st * heat_shape_value c i q * sig q
                        * norm_square (current_function_gradients c (solution_current st) q))
                     * heat_JxW c q)
                + (\<Sum>f<length (faces c).
                     if at_boundary (faces c ! f) \<and> boundary_id (faces c ! f) = copper_surface
                     then \<Sum>q<n_face_q_points msh.
                            gamma st * heat_face_shape_value (faces c ! f) i q * nott f q
                            * heat_face_JxW (faces c ! f) q
                     else 0)"
    using euler_implicit_cell_eval [of msh st c kap sig nott, OF k s n] by blast
  have eu: "\<exists>M b. euler_implicit_cell st msh c = Inr (M, b)
     \<and> (\<forall>i<heat_dofs_per_cell msh. \<forall>j<heat_dofs_per_cell msh.
          M i j = (\<Sum>q<n_q_points msh.
                     (heat_shape_value c i q * heat_shape_value c j q
                      + time_step st / cu_rho_cp * kap q
                        * dot (heat_shape_grad c i q) (heat_shape_grad c j q))
                     * heat_JxW c q))
     \<and> (\<forall>i<heat_dofs_per_cell msh.
          b i = (\<Sum>q<n_q_points msh.
                     (heat_shape_value c i q * heat_function_values c (old_solution_heat st) q
                      + time_step st / cu_rho_cp * sig q
                        * norm_square (current_function_gradients c (solution_current st) q)
                        * heat_shape_value c i q)
                     * heat_JxW c q)
                + (\<Sum>f<length (faces c).
                     if at_boundary (faces c ! f) \<and> boundary_id (faces c ! f) = copper_surface
                     then \<Sum>q<n_face_q_points msh.
                            time_step st / cu_rho_cp * nott f q
                            * heat_face_JxW (faces c ! f) q
                            * heat_face_shape_value (faces c ! f) i q
                     else 0))"
    using eur eum [unfolded e5] eub [unfolded e4, unfolded e5]
    by blast
  have w: "2 * (time_step st / (2 * cu_rho_cp)) = time_step st / cu_rho_cp"
    by simp
  from cn eu w show ?thesis by (intro conjI)
qed

theorem crank_nicolson_local_system_witness:
  "pq_kappa example_state
      (heat_function_values example_cell (old_solution_heat example_state) 0)
     = Inr (2443 / 10 ^ 11 * 300)
   \<and> pq_sigma example_state
      (heat_function_values example_cell (old_solution_heat example_state) 0) = Inr 1
   \<and> get_nottingham_heat_bc example_state (cell_index example_cell, 0)
        (heat_face_function_values (faces example_cell ! 0) (old_solution_heat example_state) 0)
     = Inr (- 1)
   \<and> get_nottingham_heat_bc example_state (cell_index example_cell, 1)
        (heat_face_function_values (faces example_cell ! 1) (old_solution_heat example_state) 0)
     = Inr (- 1)
   \<and> (\<exists>M b. crank_nicolson_cell example_state example_mesh example_cell = Inr (M, b)
          \<and> M 0 0 = 1 + 1 / (2 * cu_rho_cp) * (2443 / 10 ^ 11 * 300)
          \<and> b 0 = 300 - 1 / (2 * cu_rho_cp) * (2443 / 10 ^ 11 * 300) * 300
                   + (2 * (1 / (2 * cu_rho_cp)) * (- 1) + 2 * (1 / (2 * cu_rho_cp)) * (- 1)))
   \<and> (\<exists>M b. euler_implicit_cell example_state example_mesh example_cell = Inr (M, b)
          \<and> M 0 0 = 1 + 1 / cu_rho_cp * (2443 / 10 ^ 11 * 300)
          \<and> b 0 = 300 + (1 / cu_rho_cp * (- 1) + 1 / cu_rho_cp * (- 1)))"
proof -
  have hv: "heat_function_values example_cell (old_solution_heat example_state) q = 300" for q
    by (simp add: example_cell_def example_state_fields)
  have k0: "pq_kappa example_state
      (heat_function_values example_cell (old_solution_heat example_state) 0)
     = Inr (2443 / 10 ^ 11 * 300)"
    unfolding hv by (rule example_kappa)
  have s0: "pq_sigma example_state
      (heat_function_values example_cell (old_solution_heat example_state) 0) = Inr 1"
    unfolding hv by (rule example_sigma)
  have n0: "get_nottingham_heat_bc example_state (cell_index example_cell, 0)
        (heat_face_function_values (faces example_cell ! 0) (old_solution_heat example_state) 0)
     = Inr (- 1)"
    and n1: "get_nottingham_heat_bc example_state (cell_index example_cell, 1)
        (heat_face_function_values (faces example_cell ! 1) (old_solution_heat example_state) 0)
     = Inr (- 1)"
    by (rule example_nottingham)+
  have h1: "\<forall>q<n_q_points example_mesh.
       pq_kappa example_state
         (heat_function_values example_cell (old_solution_heat example_state) q)
       = Inr ((\<lambda>q. 2443 / 10 ^ 11 * 300) q)"
    using k0 by (simp add: example_mesh_def)
  have h2: "\<forall>q<n_q_points example_mesh.
       pq_sigma example_state
         (heat_function_values example_cell (old_solution_heat example_state) q)
       = Inr ((\<lambda>q. 1) q)"
    using s0 by (simp add: example_mesh_def)
  have h3: "\<forall>f<length (faces example_cell).
       at_boundary (faces example_cell ! f)
       \<and> boundary_id (faces example_cell ! f) = copper_surface \<longrightarrow>
       (\<forall>q<n_face_q_points example_mesh.
          get_nottingham_heat_bc example_state (cell_index example_cell, f)
            (heat_face_function_values (faces example_cell ! f)
               (old_solution_heat example_state) q)
          = Inr ((\<lambda>f q. - 1) f q))"
    by (simp add: example_nottingham)
  note t = crank_nicolson_local_system [OF h1 h2 h3]
  have three: "{..<3::nat} = {0, 1, 2}" by auto
  have one: "{..<1::nat} = {0}" by auto
  have fs: "length (faces example_cell) = 3"
      "at_boundary (faces example_cell ! 0)" "boundary_id (faces example_cell ! 0) = copper_surface"
      "at_boundary (faces example_cell ! 1)" "boundary_id (faces example_cell ! 1) = copper_surface"
      "boundary_id (faces example_cell ! 2) \<noteq> copper_surface"
      "at_boundary (faces example_cell ! Suc 0)"
      "boundary_id (faces example_cell ! Suc 0) = copper_surface"
    by (simp_all add: example_cell_def example_face_def)
  have vals: "heat_dofs_per_cell example_mesh = 1" "n_q_points example_mesh = 1"
      "n_face_q_points example_mesh = 1" "time_step example_state = 1"
      "heat_shape_value example_cell 0 0 = 1" "heat_JxW example_cell 0 = 1"
      "dot (heat_shape_grad example_cell 0 0) (heat_shape_grad example_cell 0 0) = 1"
      "dot (heat_shape_grad example_cell 0 0)
           (heat_function_gradients example_cell (old_solution_heat example_state) 0) = 300"
      "norm_square (current_function_gradients example_cell (solution_current example_state) 0) = 0"
      "norm_square (current_function_gradients example_cell (old_solution_current example_state) 0)
       = 0"
      "heat_face_shape_value (faces example_cell ! 0) 0 0 = 1"
      "heat_face_JxW (faces example_cell ! 0) 0 = 1"
      "heat_face_shape_value (faces example_cell ! 1) 0 0 = 1"
      "heat_face_JxW (faces example_cell ! 1) 0 = 1"
      "heat_face_shape_value (faces example_cell ! Suc 0) 0 0 = 1"
      "heat_face_JxW (faces example_cell ! Suc 0) 0 = 1"
    by (simp_all add: example_mesh_def example_cell_def example_face_def example_state_fields
          dot_def norm_square_def)
  obtain M b where cn: "crank_nicolson_cell example_state example_mesh example_cell = Inr (M, b)"
    and m: "M 0 0 = 1 + 1 / (2 * cu_rho_cp) * (2443 / 10 ^ 11 * 300)"
    and b: "b 0 = 300 - 1 / (2 * cu_rho_cp) * (2443 / 10 ^ 11 * 300) * 300
                   + (2 * (1 / (2 * cu_rho_cp)) * (- 1) + 2 * (1 / (2 * cu_rho_cp)) * (- 1))"
    using t [THEN conjunct1] unfolding vals fs one three hv
    by (auto simp: vals fs)
  obtain M' b' where eu: "euler_implicit_cell example_state example_mesh example_cell = Inr (M', b')"
    and m': "M' 0 0 = 1 + 1 / cu_rho_cp * (2443 / 10 ^ 11 * 300)"
    and b': "b' 0 = 300 + (1 / cu_rho_cp * (- 1) + 1 / cu_rho_cp * (- 1))"
    using t [THEN conjunct2, THEN conjunct1] unfolding vals fs one three hv
    by (auto simp: vals fs)
  from k0 s0 n0 n1 cn m b eu m' b' show ?thesis by blast
qed


end

